theory Spec2Isabelle
  imports Complex_Main "HOL-Library.AList"
begin

section \<open>JavaScript values\<close>

text \<open>
  The bridge handles loosely typed vendor payloads, so the model keeps JavaScript values
  as they are at run time. A finite number is a rational (every finite double is one);
  no arithmetic is done on payload numbers by the code modelled here, they are only
  tested, compared, parsed and printed.
\<close>

datatype jsnum = Fin rat | NaN | PosInf | NegInf

datatype json =
    JUndef
  | JNull
  | JBool bool
  | JNum jsnum
  | JStr string
  | JArr "json list"
  | JObj "(string \<times> json) list"

text \<open>Truthiness (\<^verbatim>\<open>if (v)\<close>, \<^verbatim>\<open>!v\<close>, \<^verbatim>\<open>a || b\<close>, \<^verbatim>\<open>a && b\<close>).\<close>

fun js_truthy :: "json \<Rightarrow> bool" where
  "js_truthy JUndef = False"
| "js_truthy JNull = False"
| "js_truthy (JBool b) = b"
| "js_truthy (JNum (Fin q)) = (q \<noteq> 0)"
| "js_truthy (JNum NaN) = False"
| "js_truthy (JNum _) = True"
| "js_truthy (JStr s) = (s \<noteq> [])"
| "js_truthy (JArr _) = True"
| "js_truthy (JObj _) = True"

text \<open>\<^verbatim>\<open>v == null\<close>: null or undefined.\<close>

fun js_nullish :: "json \<Rightarrow> bool" where
  "js_nullish JUndef = True"
| "js_nullish JNull = True"
| "js_nullish _ = False"

definition js_or :: "json \<Rightarrow> json \<Rightarrow> json" where
  "js_or a b = (if js_truthy a then a else b)"

definition js_and :: "json \<Rightarrow> json \<Rightarrow> json" where
  "js_and a b = (if js_truthy a then b else a)"

text \<open>\<^verbatim>\<open>a ?? b\<close>: the right operand only when the left one is null or undefined.\<close>

definition js_nc :: "json \<Rightarrow> json \<Rightarrow> json" where
  "js_nc a b = (if js_nullish a then b else a)"

text \<open>
  \<^verbatim>\<open>v?.k\<close>: a property read that yields undefined on null and undefined. On an
  object it is the field (undefined when missing); arrays and strings have \<^verbatim>\<open>length\<close>;
  none of the other names read by the code is a property of a primitive or an array.
\<close>

fun js_get :: "json \<Rightarrow> string \<Rightarrow> json" where
  "js_get (JObj kvs) k = (case map_of kvs k of Some v \<Rightarrow> v | None \<Rightarrow> JUndef)"
| "js_get (JArr xs) k =
     (if k = ''length'' then JNum (Fin (of_nat (length xs))) else JUndef)"
| "js_get (JStr s) k =
     (if k = ''length'' then JNum (Fin (of_nat (length s))) else JUndef)"
| "js_get _ k = JUndef"

text \<open>\<^verbatim>\<open>v?.[0]\<close>.\<close>

fun js_first :: "json \<Rightarrow> json" where
  "js_first (JArr xs) = (case xs of [] \<Rightarrow> JUndef | x # _ \<Rightarrow> x)"
| "js_first (JStr s) = (case s of [] \<Rightarrow> JUndef | c # _ \<Rightarrow> JStr [c])"
| "js_first (JObj kvs) = (case map_of kvs ''0'' of Some v \<Rightarrow> v | None \<Rightarrow> JUndef)"
| "js_first _ = JUndef"

text \<open>
  \<^verbatim>\<open>a === b\<close>: primitives by value (NaN equals nothing); two arrays or objects read
  from different documents are different references, so they are never equal.
\<close>

fun js_strict_eq :: "json \<Rightarrow> json \<Rightarrow> bool" where
  "js_strict_eq JUndef JUndef = True"
| "js_strict_eq JNull JNull = True"
| "js_strict_eq (JBool a) (JBool b) = (a = b)"
| "js_strict_eq (JNum a) (JNum b) = (a = b \<and> a \<noteq> NaN)"
| "js_strict_eq (JStr a) (JStr b) = (a = b)"
| "js_strict_eq _ _ = False"

text \<open>\<^verbatim>\<open>typeof v === "number"\<close> and \<^verbatim>\<open>typeof v === "string"\<close>.\<close>

fun is_number :: "json \<Rightarrow> bool" where
  "is_number (JNum _) = True"
| "is_number _ = False"

fun is_string :: "json \<Rightarrow> bool" where
  "is_string (JStr _) = True"
| "is_string _ = False"

text \<open>\<^verbatim>\<open>Number.isFinite(v)\<close>: false for everything that is not a finite number.\<close>

fun Number_isFinite :: "json \<Rightarrow> bool" where
  "Number_isFinite (JNum (Fin _)) = True"
| "Number_isFinite _ = False"

text \<open>The values a \<^verbatim>\<open>for (const x of v)\<close> loop visits; \<open>v\<close> is an array or a string.\<close>

fun js_elements :: "json \<Rightarrow> json list" where
  "js_elements (JArr xs) = xs"
| "js_elements (JStr s) = map (\<lambda>c. JStr [c]) s"
| "js_elements _ = []"

subsection \<open>Strings\<close>

text \<open>
  The strings these functions are applied to are header values and digests, which the
  host delivers one character per byte (Latin-1), so a character is a code unit below
  256. The white space of \<^verbatim>\<open>trim()\<close> and of \<^verbatim>\<open>\s\<close> in that range: space, tab, line
  feed, vertical tab, form feed, carriage return and the no-break space U+00A0.
\<close>

definition is_space :: "char \<Rightarrow> bool" where
  "is_space c =
     (c \<in> set [CHR '' '', CHR 0x09, CHR 0x0A, CHR 0x0B, CHR 0x0C, CHR 0x0D, CHR 0xA0])"

text \<open>\<^verbatim>\<open>s.trim()\<close>.\<close>

definition js_trim :: "string \<Rightarrow> string" where
  "js_trim s = rev (dropWhile is_space (rev (dropWhile is_space s)))"

text \<open>
  \<^verbatim>\<open>s.toLowerCase()\<close>: the letters A to Z, and the Latin-1 capitals U+00C0 to U+00DE
  (the multiplication sign U+00D7 is not a letter).
\<close>

definition upper_latin1 :: string where
  "upper_latin1 =
     [CHR 0xC0, CHR 0xC1, CHR 0xC2, CHR 0xC3, CHR 0xC4, CHR 0xC5, CHR 0xC6, CHR 0xC7, CHR 0xC8, CHR 0xC9,
      CHR 0xCA, CHR 0xCB, CHR 0xCC, CHR 0xCD, CHR 0xCE, CHR 0xCF, CHR 0xD0, CHR 0xD1, CHR 0xD2, CHR 0xD3,
      CHR 0xD4, CHR 0xD5, CHR 0xD6, CHR 0xD8, CHR 0xD9, CHR 0xDA, CHR 0xDB, CHR 0xDC, CHR 0xDD, CHR 0xDE]"

definition lower_latin1 :: string where
  "lower_latin1 =
     [CHR 0xE0, CHR 0xE1, CHR 0xE2, CHR 0xE3, CHR 0xE4, CHR 0xE5, CHR 0xE6, CHR 0xE7, CHR 0xE8, CHR 0xE9,
      CHR 0xEA, CHR 0xEB, CHR 0xEC, CHR 0xED, CHR 0xEE, CHR 0xEF, CHR 0xF0, CHR 0xF1, CHR 0xF2, CHR 0xF3,
      CHR 0xF4, CHR 0xF5, CHR 0xF6, CHR 0xF8, CHR 0xF9, CHR 0xFA, CHR 0xFB, CHR 0xFC, CHR 0xFD, CHR 0xFE]"

definition lower_char :: "char \<Rightarrow> char" where
  "lower_char c =
     (case map_of (zip (''ABCDEFGHIJKLMNOPQRSTUVWXYZ'' @ upper_latin1)
                       (''abcdefghijklmnopqrstuvwxyz'' @ lower_latin1)) c of
        Some d \<Rightarrow> d | None \<Rightarrow> c)"

definition toLowerCase :: "string \<Rightarrow> string" where
  "toLowerCase s = map lower_char s"

text \<open>\<^verbatim>\<open>s.replace(/^Bearer\s+/i, "")\<close>.\<close>

definition strip_bearer :: "string \<Rightarrow> string" where
  "strip_bearer s =
     (if toLowerCase (take 6 s) = ''bearer'' \<and> drop 6 s \<noteq> [] \<and> is_space (hd (drop 6 s))
      then dropWhile is_space (drop 6 s) else s)"

subsection \<open>Built-ins of the platform\<close>

text \<open>
  Number parsing and printing, JSON text, HMAC and the encodings are built-ins of the
  JavaScript platform, not code of the bridge. They are parameters of the model: every
  theorem below holds for whatever functions stand here.
\<close>

record platform =
  p_Number :: "string \<Rightarrow> jsnum"                \<comment> \<open>\<^verbatim>\<open>Number(s)\<close>\<close>
  p_String :: "jsnum \<Rightarrow> string"                \<comment> \<open>\<^verbatim>\<open>String(n)\<close>\<close>
  p_JSON_parse :: "string \<Rightarrow> json option"       \<comment> \<open>\<open>None\<close>: SyntaxError\<close>
  p_JSON_stringify :: "json \<Rightarrow> string"
  p_hmac_sha256 :: "string \<Rightarrow> string \<Rightarrow> string"  \<comment> \<open>key, data, raw digest\<close>
  p_base64 :: "string \<Rightarrow> string"
  p_unbase64 :: "string \<Rightarrow> string"              \<comment> \<open>\<^verbatim>\<open>Buffer.from(s, "base64")\<close>\<close>
  p_hex :: "string \<Rightarrow> string"

text \<open>
  \<^verbatim>\<open>String(v)\<close>. An array prints its elements joined by commas, null and undefined
  elements as nothing.
\<close>

fun js_String :: "platform \<Rightarrow> json \<Rightarrow> string"
  and js_join_comma :: "platform \<Rightarrow> json list \<Rightarrow> string" where
  "js_String P JUndef = ''undefined''"
| "js_String P JNull = ''null''"
| "js_String P (JBool b) = (if b then ''true'' else ''false'')"
| "js_String P (JNum n) = p_String P n"
| "js_String P (JStr s) = s"
| "js_String P (JArr xs) = js_join_comma P xs"
| "js_String P (JObj kvs) = ''[object Object]''"
| "js_join_comma P [] = []"
| "js_join_comma P [x] = (if js_nullish x then [] else js_String P x)"
| "js_join_comma P (x # y # ys) =
     (if js_nullish x then [] else js_String P x) @ '','' @ js_join_comma P (y # ys)"

section \<open>The two vendors and the world\<close>

text \<open>
  All state lives in the two remote vendor systems. A request is kept by its endpoint and
  the values the code puts into its path and body, not as URL text.
\<close>

datatype shopify_req =
    GetVariantsBySku json              \<comment> \<open>GET \<^verbatim>\<open>variants.json?sku=...\<close>\<close>
  | GetShop                            \<comment> \<open>GET \<^verbatim>\<open>shop.json\<close>\<close>
  | GetInventoryLevels json            \<comment> \<open>GET \<^verbatim>\<open>inventory_levels.json?inventory_item_ids=...\<close>\<close>
  | PutVariantPrice json string        \<comment> \<open>PUT \<^verbatim>\<open>variants/ID.json\<close>, id and price\<close>
  | PostInventorySet json json jsnum   \<comment> \<open>POST \<^verbatim>\<open>inventory_levels/set.json\<close>: location, item, available\<close>

datatype zoho_req =
    PostToken                          \<comment> \<open>POST \<^verbatim>\<open>oauth/v2/token\<close> on the accounts host\<close>
  | GetItemsPage nat                   \<comment> \<open>GET \<^verbatim>\<open>items?page=N\<close>\<close>
  | GetItemsSearch json                \<comment> \<open>GET \<^verbatim>\<open>items?search_text=...\<close>\<close>
  | GetItem json                       \<comment> \<open>GET \<^verbatim>\<open>items/ID\<close>\<close>
  | GetContactsByEmail json            \<comment> \<open>GET \<^verbatim>\<open>contacts?email=...\<close>\<close>
  | PostContact json json              \<comment> \<open>POST \<^verbatim>\<open>contacts\<close>: contact name, email\<close>
  | PostSalesOrder json json "json list"
      \<comment> \<open>POST \<^verbatim>\<open>salesorders\<close>: customer id, reference number, line items\<close>

datatype call = Shopify shopify_req | Zoho zoho_req

text \<open>
  The storefront: variant documents (objects with whatever fields they have), the
  positions of the documents a SKU query returns, the shop document, the inventory
  levels keyed by location and inventory item, and the text under which it keeps a price
  it is sent (a storefront may reformat it, \<^verbatim>\<open>"10"\<close> as \<^verbatim>\<open>"10.00"\<close>). A request the
  vendor refuses is refused by \<open>sh_fault\<close> with a status and a body: a vendor answers
  from its state alone.
\<close>

record shopify_remote =
  sh_variants :: "(string \<times> json) list list"
  sh_search :: "json \<Rightarrow> nat list"
  sh_shop :: json
  sh_levels :: "((json \<times> json) \<times> jsnum) list"
  sh_price_text :: "string \<Rightarrow> string"
  sh_fault :: "shopify_req \<Rightarrow> (nat \<times> string) option"

definition variant_docs :: "shopify_remote \<Rightarrow> json \<Rightarrow> json list" where
  "variant_docs S q =
     map (\<lambda>i. JObj (sh_variants S ! i))
       (filter (\<lambda>i. i < length (sh_variants S)) (sh_search S q))"

definition level_docs :: "shopify_remote \<Rightarrow> json \<Rightarrow> json list" where
  "level_docs S item =
     map (\<lambda>((l, i), a). JObj [(''location_id'', l), (''inventory_item_id'', i),
                               (''available'', JNum a)])
       (filter (\<lambda>((l, i), a). i = item) (sh_levels S))"

definition set_price :: "json \<Rightarrow> string \<Rightarrow> (string \<times> json) list \<Rightarrow> (string \<times> json) list" where
  "set_price vid p d =
     (if js_get (JObj d) ''id'' = vid then AList.update ''price'' (JStr p) d else d)"

text \<open>
  What the storefront answers and how its state changes. The price PUT stores the price
  it is sent, in the storefront's text for it, on the variants with that id (404 when
  there is none); the inventory POST stores the absolute level for the location and item.
\<close>

fun shopify_serve :: "shopify_req \<Rightarrow> shopify_remote \<Rightarrow> ((nat \<times> string) + json) \<times> shopify_remote" where
  "shopify_serve (GetVariantsBySku q) S = (Inr (JObj [(''variants'', JArr (variant_docs S q))]), S)"
| "shopify_serve GetShop S = (Inr (sh_shop S), S)"
| "shopify_serve (GetInventoryLevels item) S =
     (Inr (JObj [(''inventory_levels'', JArr (level_docs S item))]), S)"
| "shopify_serve (PutVariantPrice vid p) S =
     (if vid \<noteq> JUndef \<and> list_ex (\<lambda>d. js_get (JObj d) ''id'' = vid) (sh_variants S)
      then (Inr (JObj [(''variant'', JObj [(''id'', vid), (''price'', JStr (sh_price_text S p))])]),
            S\<lparr>sh_variants := map (set_price vid (sh_price_text S p)) (sh_variants S)\<rparr>)
      else (Inl (404, ''Not Found''), S))"
| "shopify_serve (PostInventorySet loc item a) S =
     (Inr (JObj [(''inventory_level'',
             JObj [(''location_id'', loc), (''inventory_item_id'', item), (''available'', JNum a)])]),
      S\<lparr>sh_levels := AList.update (loc, item) a (sh_levels S)\<rparr>)"

definition shopify_respond :: "shopify_req \<Rightarrow> shopify_remote \<Rightarrow> ((nat \<times> string) + json) \<times> shopify_remote" where
  "shopify_respond r S =
     (case sh_fault S r of Some f \<Rightarrow> (Inl f, S) | None \<Rightarrow> shopify_serve r S)"

text \<open>
  The backend: the token document, the answer to a catalog page and to an item read as
  they are (the code reads them defensively), the item documents a search returns, the
  contact documents by email and the sales orders created so far. A new contact gets an
  id made from its email.
\<close>

record zoho_remote =
  z_token :: "(string \<times> json) list"
  z_items_page :: "nat \<Rightarrow> json"
  z_items_search :: "json \<Rightarrow> (string \<times> json) list list"
  z_item :: "json \<Rightarrow> json"
  z_contacts :: "json \<Rightarrow> (string \<times> json) list list"
  z_salesorders :: "json list"
  z_fault :: "zoho_req \<Rightarrow> (nat \<times> string) option"

definition new_id :: "zoho_remote \<Rightarrow> json" where
  "new_id Z = JNum (Fin (of_nat (length (z_salesorders Z))))"

fun zoho_serve :: "zoho_req \<Rightarrow> zoho_remote \<Rightarrow> ((nat \<times> string) + json) \<times> zoho_remote" where
  "zoho_serve PostToken Z = (Inr (JObj (z_token Z)), Z)"
| "zoho_serve (GetItemsPage n) Z = (Inr (z_items_page Z n), Z)"
| "zoho_serve (GetItemsSearch q) Z = (Inr (JObj [(''items'', JArr (map JObj (z_items_search Z q)))]), Z)"
| "zoho_serve (GetItem i) Z = (Inr (z_item Z i), Z)"
| "zoho_serve (GetContactsByEmail e) Z =
     (Inr (JObj [(''contacts'', JArr (map JObj (z_contacts Z e)))]), Z)"
| "zoho_serve (PostContact name e) Z =
     (let c = [(''contact_id'', JStr (''contact:'' @ (case e of JStr s \<Rightarrow> s | _ \<Rightarrow> []))),
               (''contact_name'', name)]
      in (Inr (JObj [(''contact'', JObj c)]), Z\<lparr>z_contacts := (z_contacts Z)(e := z_contacts Z e @ [c])\<rparr>))"
| "zoho_serve (PostSalesOrder cust ref ls) Z =
     (let so = JObj [(''salesorder_id'', new_id Z), (''customer_id'', cust),
                     (''reference_number'', ref), (''line_items'', JArr ls)]
      in (Inr (JObj [(''salesorder'', so)]), Z\<lparr>z_salesorders := z_salesorders Z @ [so]\<rparr>))"

definition zoho_respond :: "zoho_req \<Rightarrow> zoho_remote \<Rightarrow> ((nat \<times> string) + json) \<times> zoho_remote" where
  "zoho_respond r Z =
     (case z_fault Z r of Some f \<Rightarrow> (Inl f, Z) | None \<Rightarrow> zoho_serve r Z)"

datatype level = LOG | WARN | ERROR

text \<open>
  The world of one invocation: the environment variables, the two vendors, the vendor
  requests issued so far, and the console.
\<close>

record world =
  env :: "string \<Rightarrow> string option"
  shopify :: shopify_remote
  zoho :: zoho_remote
  calls :: "call list"
  console :: "(level \<times> string \<times> json list) list"

section \<open>Errors and effects\<close>

text \<open>
  The code throws \<^verbatim>\<open>new Error(message)\<close> only; a constructor stands for one message
  template with its parameters. \<open>TypeError\<close> and \<open>SyntaxError\<close> are thrown by the
  platform (a property read on null or undefined, a call of something that is not a
  function, \<^verbatim>\<open>JSON.parse\<close>).
\<close>

datatype err =
    NotDefined string           \<comment> \<open>\<^verbatim>\<open>`${name} is not defined`\<close>\<close>
  | ShopifyStatus nat string    \<comment> \<open>\<^verbatim>\<open>`Shopify ${status}: ${body}`\<close>\<close>
  | ZohoTokenStatus nat string  \<comment> \<open>\<^verbatim>\<open>`Zoho token error ${status}: ${body}`\<close>\<close>
  | ZohoApiStatus nat string    \<comment> \<open>\<^verbatim>\<open>`Zoho API ${status}: ${body}`\<close>\<close>
  | ItemNotFound json           \<comment> \<open>\<^verbatim>\<open>`Zoho item not found for SKU ${sku}`\<close>\<close>
  | Failure string              \<comment> \<open>a literal message\<close>
  | TypeError
  | SyntaxError

type_synonym 'a io = "world \<Rightarrow> (err + 'a) \<times> world"

definition ret :: "'a \<Rightarrow> 'a io" where
  "ret x w = (Inr x, w)"

definition raise :: "err \<Rightarrow> 'a io" where
  "raise e w = (Inl e, w)"

definition bnd :: "'a io \<Rightarrow> ('a \<Rightarrow> 'b io) \<Rightarrow> 'b io" where
  "bnd m f w = (case m w of (Inl e, w') \<Rightarrow> (Inl e, w') | (Inr x, w') \<Rightarrow> f x w')"

text \<open>\<^verbatim>\<open>try { m } catch (e) { h(e) }\<close>: what \<open>m\<close> did before it threw stays done.\<close>

definition try_catch :: "'a io \<Rightarrow> (err \<Rightarrow> 'a io) \<Rightarrow> 'a io" where
  "try_catch m h w = (case m w of (Inl e, w') \<Rightarrow> h e w' | (Inr x, w') \<Rightarrow> (Inr x, w'))"

definition getenv :: "string \<Rightarrow> string option io" where
  "getenv name w = (Inr (env w name), w)"

definition log :: "level \<Rightarrow> string \<Rightarrow> json list \<Rightarrow> unit io" where
  "log l msg args w = (Inr (), w\<lparr>console := console w @ [(l, msg, args)]\<rparr>)"

text \<open>\<^verbatim>\<open>v.k\<close>: a property read that throws on null and undefined.\<close>

definition js_dot :: "json \<Rightarrow> string \<Rightarrow> json io" where
  "js_dot v k = (if js_nullish v then raise TypeError else ret (js_get v k))"

text \<open>\<^verbatim>\<open>for (const x of xs) body(x)\<close>; a throw in the body leaves the loop.\<close>

fun for_each :: "('a \<Rightarrow> unit io) \<Rightarrow> 'a list \<Rightarrow> unit io" where
  "for_each body [] = ret ()"
| "for_each body (x # xs) = bnd (body x) (\<lambda>_. for_each body xs)"

text \<open>\<^verbatim>\<open>fetch\<close> against each vendor: the request is issued and answered.\<close>

definition shopify_http :: "shopify_req \<Rightarrow> ((nat \<times> string) + json) io" where
  "shopify_http r w =
     (case shopify_respond r (shopify w) of
        (resp, S') \<Rightarrow> (Inr resp, w\<lparr>shopify := S', calls := calls w @ [Shopify r]\<rparr>))"

definition zoho_http :: "zoho_req \<Rightarrow> ((nat \<times> string) + json) io" where
  "zoho_http r w =
     (case zoho_respond r (zoho w) of
        (resp, Z') \<Rightarrow> (Inr resp, w\<lparr>zoho := Z', calls := calls w @ [Zoho r]\<rparr>))"

section \<open>The storefront client (\<^verbatim>\<open>api/shopify.ts\<close>)\<close>

definition requireEnv :: "string option \<Rightarrow> string \<Rightarrow> string io" where
  "requireEnv v name =
     (case v of
        None \<Rightarrow> raise (NotDefined name)
      | Some s \<Rightarrow> if s = [] then raise (NotDefined name) else ret s)"

text \<open>
  \<^verbatim>\<open>shopifyFetch\<close>: the token is required first, then the domain (inside
  \<^verbatim>\<open>shopifyURL\<close>, evaluated as the argument of \<^verbatim>\<open>fetch\<close>); a response that is
  not ok is thrown with its status and body.
\<close>

definition shopifyFetch :: "shopify_req \<Rightarrow> json io" where
  "shopifyFetch r =
     bnd (getenv ''SHOPIFY_ACCESS_TOKEN'') (\<lambda>tok.
     bnd (requireEnv tok ''SHOPIFY_ACCESS_TOKEN'') (\<lambda>token.
     bnd (getenv ''SHOPIFY_STORE_DOMAIN'') (\<lambda>dom.
     bnd (requireEnv dom ''SHOPIFY_STORE_DOMAIN'') (\<lambda>domain.
     bnd (shopify_http r) (\<lambda>resp.
       case resp of
         Inl (status, body) \<Rightarrow> raise (ShopifyStatus status body)
       | Inr data \<Rightarrow> ret data)))))"

text \<open>\<^verbatim>\<open>variants.find((v) => v.sku === sku)\<close>, undefined when nothing is found.\<close>

fun find_by_sku :: "json \<Rightarrow> json list \<Rightarrow> json io" where
  "find_by_sku sku [] = ret JUndef"
| "find_by_sku sku (v # vs) =
     bnd (js_dot v ''sku'') (\<lambda>s.
       if js_strict_eq s sku then ret v else find_by_sku sku vs)"

definition findVariantBySKU :: "json \<Rightarrow> json io" where
  "findVariantBySKU sku =
     bnd (shopifyFetch (GetVariantsBySku sku)) (\<lambda>data.
     bnd (js_dot data ''variants'') (\<lambda>vs.
       case js_or vs (JArr []) of
         JArr variants \<Rightarrow>
           bnd (find_by_sku sku variants) (\<lambda>exact.
             ret (js_or (js_or exact (js_first (JArr variants))) JNull))
       | _ \<Rightarrow> raise TypeError))"

definition getPrimaryLocationId :: "platform \<Rightarrow> json io" where
  "getPrimaryLocationId P =
     bnd (shopifyFetch GetShop) (\<lambda>data.
       let id = js_get (js_get data ''shop'') ''primary_location_id'' in
       if js_truthy id then ret id
       else bnd (getenv ''DEFAULT_LOCATION_ID'') (\<lambda>fb.
         case fb of
           Some (c # cs) \<Rightarrow> ret (JNum (p_Number P (c # cs)))
         | _ \<Rightarrow> raise (Failure ''primary_location_id unavailable; set DEFAULT_LOCATION_ID or ensure item has inventory_levels'')))"

definition getLocationIdForItem :: "platform \<Rightarrow> json \<Rightarrow> json io" where
  "getLocationIdForItem P inventoryItemId =
     try_catch (getPrimaryLocationId P) (\<lambda>_.
       bnd (shopifyFetch (GetInventoryLevels inventoryItemId)) (\<lambda>levels.
         let loc = js_get (js_first (js_get levels ''inventory_levels'')) ''location_id'' in
         if js_truthy loc then ret loc
         else bnd (getenv ''DEFAULT_LOCATION_ID'') (\<lambda>fb.
           case fb of
             Some (c # cs) \<Rightarrow> ret (JNum (p_Number P (c # cs)))
           | _ \<Rightarrow> raise (Failure ''No location_id available; set DEFAULT_LOCATION_ID in Secrets''))))"

definition updateVariantPrice :: "platform \<Rightarrow> json \<Rightarrow> json \<Rightarrow> json io" where
  "updateVariantPrice P variantId price =
     shopifyFetch (PutVariantPrice variantId (js_String P price))"

text \<open>
  \<^verbatim>\<open>setInventoryLevel(inventoryItemId, available, locationId?)\<close>; an omitted
  \<open>locationId\<close> is \<open>JUndef\<close>.
\<close>

definition setInventoryLevel :: "platform \<Rightarrow> json \<Rightarrow> jsnum \<Rightarrow> json \<Rightarrow> json io" where
  "setInventoryLevel P inventoryItemId available locationId =
     bnd (if js_truthy locationId then ret locationId
          else getLocationIdForItem P inventoryItemId) (\<lambda>locId.
       shopifyFetch (PostInventorySet locId inventoryItemId available))"

section \<open>The backend client (\<^verbatim>\<open>api/zoho.ts\<close>)\<close>

definition getZohoAccessToken :: "json io" where
  "getZohoAccessToken =
     bnd (getenv ''ZOHO_ACCOUNTS_URL'') (\<lambda>v1.
     bnd (requireEnv v1 ''ZOHO_ACCOUNTS_URL'') (\<lambda>accountsUrl.
     bnd (getenv ''ZOHO_CLIENT_ID'') (\<lambda>v2.
     bnd (requireEnv v2 ''ZOHO_CLIENT_ID'') (\<lambda>clientId.
     bnd (getenv ''ZOHO_CLIENT_SECRET'') (\<lambda>v3.
     bnd (requireEnv v3 ''ZOHO_CLIENT_SECRET'') (\<lambda>clientSecret.
     bnd (getenv ''ZOHO_REFRESH_TOKEN'') (\<lambda>v4.
     bnd (requireEnv v4 ''ZOHO_REFRESH_TOKEN'') (\<lambda>refreshToken.
     bnd (zoho_http PostToken) (\<lambda>resp.
       case resp of
         Inl (status, body) \<Rightarrow> raise (ZohoTokenStatus status body)
       | Inr j \<Rightarrow> js_dot j ''access_token'')))))))))"

text \<open>
  \<^verbatim>\<open>zohoFetch\<close>: a token is fetched on every call, and only then the base URL and
  the organisation id are required.
\<close>

definition zohoFetch :: "zoho_req \<Rightarrow> json io" where
  "zohoFetch r =
     bnd getZohoAccessToken (\<lambda>token.
     bnd (getenv ''ZOHO_BASE_URL'') (\<lambda>v1.
     bnd (requireEnv v1 ''ZOHO_BASE_URL'') (\<lambda>baseUrl.
     bnd (getenv ''ZOHO_ORG_ID'') (\<lambda>v2.
     bnd (requireEnv v2 ''ZOHO_ORG_ID'') (\<lambda>orgId.
     bnd (zoho_http r) (\<lambda>resp.
       case resp of
         Inl (status, body) \<Rightarrow> raise (ZohoApiStatus status body)
       | Inr data \<Rightarrow> ret data))))))"

definition listZohoItemsPaged :: "nat \<Rightarrow> json io" where
  "listZohoItemsPaged page = zohoFetch (GetItemsPage page)"

text \<open>
  \<^verbatim>\<open>(data.items || []).find((i) => i.sku === sku) || null\<close>; the search answers
  with an array of items, or \<open>find\<close> is not a function.
\<close>

definition findZohoItemBySKU :: "json \<Rightarrow> json io" where
  "findZohoItemBySKU sku =
     bnd (zohoFetch (GetItemsSearch sku)) (\<lambda>data.
     bnd (js_dot data ''items'') (\<lambda>its.
       case js_or its (JArr []) of
         JArr items \<Rightarrow> bnd (find_by_sku sku items) (\<lambda>found. ret (js_or found JNull))
       | _ \<Rightarrow> raise TypeError))"

text \<open>\<^verbatim>\<open>email.split("@")[0]\<close>.\<close>

definition before_at :: "string \<Rightarrow> string" where
  "before_at s = takeWhile (\<lambda>c. c \<noteq> CHR ''@'') s"

definition getOrCreateZohoContactByEmail :: "json \<Rightarrow> json \<Rightarrow> json io" where
  "getOrCreateZohoContactByEmail email name =
     (if \<not> js_truthy email then raise (Failure ''Email required'')
      else
        bnd (zohoFetch (GetContactsByEmail email)) (\<lambda>search.
        bnd (js_dot search ''contacts'') (\<lambda>cs.
          if js_truthy (js_get cs ''length'') then ret (js_first cs)
          else
            bnd (if js_truthy name then ret name
                 else (case email of JStr s \<Rightarrow> ret (JStr (before_at s)) | _ \<Rightarrow> raise TypeError)) (\<lambda>contact_name.
            bnd (zohoFetch (PostContact contact_name email)) (\<lambda>created.
              js_dot created ''contact'')))))"

text \<open>
  \<^verbatim>\<open>createZohoSalesOrder\<close>: the contact first, then each line is resolved again
  and a line without a backend item throws.
\<close>

fun zoho_lines :: "json list \<Rightarrow> json list io" where
  "zoho_lines [] = ret []"
| "zoho_lines (li # lis) =
     bnd (js_dot li ''sku'') (\<lambda>sku.
     bnd (findZohoItemBySKU sku) (\<lambda>item.
       if \<not> js_truthy item then raise (ItemNotFound sku)
       else
         let line = JObj [(''item_id'', js_get item ''item_id''),
                          (''name'', js_get item ''name''),
                          (''rate'', if \<not> js_nullish (js_get li ''rate'') then js_get li ''rate''
                                     else js_get item ''rate''),
                          (''quantity'', js_get li ''quantity'')]
         in bnd (zoho_lines lis) (\<lambda>rest. ret (line # rest))))"

definition createZohoSalesOrder :: "json \<Rightarrow> json \<Rightarrow> json \<Rightarrow> json list \<Rightarrow> json io" where
  "createZohoSalesOrder customerEmail customerName referenceNumber lineItems =
     bnd (getOrCreateZohoContactByEmail customerEmail customerName) (\<lambda>contact.
     bnd (zoho_lines lineItems) (\<lambda>zohoLineItems.
     bnd (js_dot contact ''contact_id'') (\<lambda>customer_id.
     bnd (zohoFetch (PostSalesOrder customer_id referenceNumber zohoLineItems)) (\<lambda>res.
       js_dot res ''salesorder''))))"

definition getZohoItemById :: "json \<Rightarrow> json io" where
  "getZohoItemById itemId =
     bnd (zohoFetch (GetItem itemId)) (\<lambda>data. js_dot data ''item'')"

section \<open>The sync action (\<^verbatim>\<open>api/actions/syncZohoToShopify.ts\<close>)\<close>

text \<open>\<^verbatim>\<open>typeof v === "number" && v\<close>: \<open>false\<close> when \<open>v\<close> is not a number.\<close>

definition number_and :: "json \<Rightarrow> json" where
  "number_and v = js_and (JBool (is_number v)) v"

text \<open>\<^verbatim>\<open>item.rate != null ? String(item.rate) : ""\<close>.\<close>

definition zohoPrice :: "platform \<Rightarrow> json \<Rightarrow> string" where
  "zohoPrice P item =
     (if \<not> js_nullish (js_get item ''rate'') then js_String P (js_get item ''rate'') else [])"

text \<open>
  \<^verbatim>\<open>(typeof a === "number" && a) ?? (typeof b === "number" && b) ?? (typeof c === "number" && c)\<close>
  on the three stock fields.
\<close>

definition available_of :: "json \<Rightarrow> json" where
  "available_of item =
     js_nc (js_nc (number_and (js_get item ''available_stock''))
                  (number_and (js_get item ''actual_available_stock'')))
           (number_and (js_get item ''stock_on_hand''))"

text \<open>The price step of the loop body (lines 22 to 25).\<close>

definition sync_price :: "platform \<Rightarrow> json \<Rightarrow> json \<Rightarrow> unit io" where
  "sync_price P item variant =
     (if zohoPrice P item \<noteq> []
         \<and> \<not> js_strict_eq (js_get variant ''price'') (JStr (zohoPrice P item))
      then bnd (updateVariantPrice P (js_get variant ''id'') (JStr (zohoPrice P item))) (\<lambda>_. ret ())
      else ret ())"

text \<open>The stock step of the loop body (lines 27 to 34).\<close>

definition sync_stock :: "platform \<Rightarrow> json \<Rightarrow> json \<Rightarrow> unit io" where
  "sync_stock P item variant =
     (case available_of item of
        JNum a \<Rightarrow>
          bnd (setInventoryLevel P (js_get variant ''inventory_item_id'') a JUndef) (\<lambda>_. ret ())
      | _ \<Rightarrow> ret ())"

text \<open>The body of the loop over the items of a page; \<open>continue\<close> ends it early.\<close>

definition syncItem :: "platform \<Rightarrow> json \<Rightarrow> unit io" where
  "syncItem P item =
     bnd (js_dot item ''sku'') (\<lambda>sku.
       if \<not> js_truthy sku then ret ()
       else
         bnd (findVariantBySKU sku) (\<lambda>variant.
           if \<not> js_truthy variant then ret ()
           else bnd (sync_price P item variant) (\<lambda>_. sync_stock P item variant)))"

text \<open>
  The tests of the loop over the pages, on the answer \<open>data\<close> to a page request:
  \<^verbatim>\<open>data.items || []\<close>, \<^verbatim>\<open>!items.length\<close>, and
  \<^verbatim>\<open>data.page_context && data.page_context.has_more_page\<close>.
\<close>

definition page_items :: "json \<Rightarrow> json" where
  "page_items data = js_or (js_get data ''items'') (JArr [])"

definition no_items :: "json \<Rightarrow> bool" where
  "no_items data = (\<not> js_truthy (js_get (page_items data) ''length''))"

definition has_more_page :: "json \<Rightarrow> bool" where
  "has_more_page data =
     js_truthy (js_and (js_get data ''page_context'')
                       (js_get (js_get data ''page_context'') ''has_more_page''))"

text \<open>
  One turn of \<^verbatim>\<open>while (true)\<close>: \<open>True\<close> when the loop goes on to the next page,
  \<open>False\<close> when it breaks. Reading \<open>items\<close> of a null answer throws, and a value with
  a truthy \<open>length\<close> that is neither an array nor a string is not iterable.
\<close>

definition sync_page_body :: "platform \<Rightarrow> json \<Rightarrow> bool io" where
  "sync_page_body P data =
     bnd (js_dot data ''items'') (\<lambda>_.
       if no_items data then ret False
       else
         bnd (case page_items data of
                JArr xs \<Rightarrow> for_each (syncItem P) xs
              | JStr str \<Rightarrow> for_each (syncItem P) (js_elements (JStr str))
              | _ \<Rightarrow> raise TypeError) (\<lambda>_.
           ret (has_more_page data)))"

definition sync_page :: "platform \<Rightarrow> nat \<Rightarrow> bool io" where
  "sync_page P page =
     bnd (log LOG ''Zoho sync: fetching page'' [JNum (Fin (of_nat page))]) (\<lambda>_.
     bnd (listZohoItemsPaged page) (sync_page_body P))"

text \<open>
  The loop over the pages may run forever (a backend that always has one more page), so
  it is a partial function: \<open>None\<close> is the run that never returns.
\<close>

partial_function (option) sync_pages :: "platform \<Rightarrow> nat \<Rightarrow> world \<Rightarrow> ((err + unit) \<times> world) option" where
  "sync_pages P page w =
     (case sync_page P page w of
        (Inl e, w') \<Rightarrow> Some (Inl e, w')
      | (Inr again, w') \<Rightarrow> if again then sync_pages P (page + 1) w' else Some (Inr (), w'))"

declare sync_pages.simps [code]

definition syncZohoToShopify :: "platform \<Rightarrow> world \<Rightarrow> ((err + json) \<times> world) option" where
  "syncZohoToShopify P w =
     (case sync_pages P 1 w of
        None \<Rightarrow> None
      | Some (Inl e, w') \<Rightarrow> Some (Inl e, w')
      | Some (Inr _, w') \<Rightarrow>
          Some (Inr (JObj [(''ok'', JBool True), (''message'', JStr ''Sync complete'')]), w'))"

section \<open>The order push (\<^verbatim>\<open>api/actions/pushShopifyOrdersToZoho.ts\<close>)\<close>

text \<open>The loop over the order's lines; it returns the lines it has mapped, in order.\<close>

fun push_lines :: "json list \<Rightarrow> json list io" where
  "push_lines [] = ret []"
| "push_lines (li # lis) =
     (if \<not> js_truthy (js_get li ''sku'') then
        bnd (log ERROR ''SO skip line: missing SKU'' []) (\<lambda>_. push_lines lis)
      else if \<not> is_number (js_get li ''quantity'') then
        bnd (log ERROR ''SO skip line: invalid quantity''
               [JObj [(''sku'', js_get li ''sku''), (''quantity'', js_get li ''quantity'')]]) (\<lambda>_.
          push_lines lis)
      else
        bnd (log LOG ''SO line'' [JObj [(''sku'', js_get li ''sku''), (''qty'', js_get li ''quantity'')]]) (\<lambda>_.
        bnd (findZohoItemBySKU (js_get li ''sku'')) (\<lambda>item.
          if \<not> js_truthy item then
            bnd (log ERROR ''SO skip line: SKU not in Zoho'' [js_get li ''sku'']) (\<lambda>_. push_lines lis)
          else
            bnd (push_lines lis) (\<lambda>rest.
              ret (JObj [(''sku'', js_get li ''sku''), (''quantity'', js_get li ''quantity''),
                         (''rate'', js_get li ''price'')] # rest)))))"

text \<open>\<^verbatim>\<open>[a, b].filter(Boolean).join(" ")\<close>.\<close>

fun join_space :: "platform \<Rightarrow> json list \<Rightarrow> string" where
  "join_space P [] = []"
| "join_space P [x] = js_String P x"
| "join_space P (x # y # ys) = js_String P x @ '' '' @ join_space P (y # ys)"

definition pushShopifyOrderToZoho :: "platform \<Rightarrow> json \<Rightarrow> json io" where
  "pushShopifyOrderToZoho P order =
     (let email = js_or (js_get order ''email'') (js_get (js_get order ''customer'') ''email'') in
      if \<not> js_truthy email then
        bnd (log WARN ''SO skip: no email'' [JObj [(''orderId'', js_get order ''id'')]]) (\<lambda>_. ret JUndef)
      else
        bnd (case js_or (js_get order ''line_items'') (JArr []) of
               JArr xs \<Rightarrow> push_lines xs
             | JStr str \<Rightarrow> push_lines (js_elements (JStr str))
             | _ \<Rightarrow> raise TypeError) (\<lambda>lineItems.
          if lineItems = [] then
            bnd (log WARN ''SO skip: no mapped lines'' [JObj [(''orderId'', js_get order ''id'')]]) (\<lambda>_.
              ret JUndef)
          else
            bnd (createZohoSalesOrder email
                   (js_or (JStr (join_space P (filter js_truthy
                              [js_get (js_get order ''customer'') ''first_name'',
                               js_get (js_get order ''customer'') ''last_name''])))
                          (js_get (js_get order ''billing_address'') ''name''))
                   (JStr (js_String P (js_get order ''id'')))
                   lineItems) (\<lambda>so.
            bnd (log LOG ''SO created''
                   [JObj [(''orderId'', js_get order ''id''),
                          (''salesorder_id'', js_get so ''salesorder_id''),
                          (''salesorder_number'', js_get so ''salesorder_number'')]]) (\<lambda>_.
              ret so))))"

section \<open>The webhook handlers\<close>

record request =
  rq_headers :: "string \<Rightarrow> string option"
  rq_rawBody :: "string option"
  rq_body :: json

record reply =
  rp_status :: nat
  rp_payload :: json

text \<open>\<^verbatim>\<open>getErrorMessage\<close> (\<^verbatim>\<open>api/utils/errors.ts\<close>): every thrown value is an Error.\<close>

fun getErrorMessage :: "platform \<Rightarrow> err \<Rightarrow> string" where
  "getErrorMessage P (NotDefined name) = name @ '' is not defined''"
| "getErrorMessage P (ShopifyStatus st b) = ''Shopify '' @ p_String P (Fin (of_nat st)) @ '': '' @ b"
| "getErrorMessage P (ZohoTokenStatus st b) =
     ''Zoho token error '' @ p_String P (Fin (of_nat st)) @ '': '' @ b"
| "getErrorMessage P (ZohoApiStatus st b) = ''Zoho API '' @ p_String P (Fin (of_nat st)) @ '': '' @ b"
| "getErrorMessage P (ItemNotFound sku) = ''Zoho item not found for SKU '' @ js_String P sku"
| "getErrorMessage P (Failure m) = m"
| "getErrorMessage P TypeError = ''TypeError''"
| "getErrorMessage P SyntaxError = ''SyntaxError''"

text \<open>\<^verbatim>\<open>typeof body === "string" ? JSON.parse(body) : body\<close>.\<close>

definition parse_body :: "platform \<Rightarrow> json \<Rightarrow> json io" where
  "parse_body P b =
     (case b of
        JStr s \<Rightarrow> (case p_JSON_parse P s of None \<Rightarrow> raise SyntaxError | Some j \<Rightarrow> ret j)
      | _ \<Rightarrow> ret b)"

subsection \<open>Backend inventory webhook (\<^verbatim>\<open>api/routes/zoho/POST-webhook.ts\<close>)\<close>

definition coerceNumber :: "platform \<Rightarrow> json \<Rightarrow> json" where
  "coerceNumber P v =
     (if js_nullish v then JUndef
      else let n = (case v of JStr s \<Rightarrow> JNum (p_Number P s) | _ \<Rightarrow> v)
           in if Number_isFinite n then n else JUndef)"

definition extractString :: "json \<Rightarrow> json" where
  "extractString v = (if is_string v then v else JUndef)"

definition pickSKU :: "json \<Rightarrow> json" where
  "pickSKU b =
     js_or (js_or (js_or (extractString (js_get b ''sku''))
                         (extractString (js_get b ''item_sku'')))
                  (extractString (js_get (js_get b ''item'') ''sku'')))
           (extractString (js_get (js_get b ''item'') ''item_sku''))"

definition pickPrice :: "platform \<Rightarrow> json \<Rightarrow> json" where
  "pickPrice P b =
     (let candidate =
            js_nc (js_nc (js_nc (js_get b ''rate'') (js_get b ''price''))
                         (js_get (js_get b ''item'') ''rate''))
                  (js_get (js_get b ''item'') ''price'');
          n = coerceNumber P candidate
      in if \<not> js_nullish n then n else extractString candidate)"

text \<open>The first candidate that is a finite number, or undefined.\<close>

fun first_number :: "platform \<Rightarrow> json list \<Rightarrow> json" where
  "first_number P [] = JUndef"
| "first_number P (c # cs) =
     (let n = coerceNumber P c in if \<not> js_nullish n then n else first_number P cs)"

definition pickAvailableStock :: "platform \<Rightarrow> json \<Rightarrow> json" where
  "pickAvailableStock P b =
     (let absCandidates =
            [js_get b ''available_stock'',
             js_get b ''stock_on_hand'',
             js_get b ''actual_available_stock'',
             js_get b ''quantity_available'',
             js_get (js_get b ''item'') ''available_stock'',
             js_get (js_get b ''item'') ''stock_on_hand'',
             js_get (js_get b ''item'') ''actual_available_stock''];
          n = first_number P absCandidates
      in if \<not> js_nullish n then n
         else let q = coerceNumber P (js_get b ''quantity'')
              in if \<not> js_nullish q then q else JUndef)"

text \<open>
  The body the signature is computed over: the raw body when the host kept it, else the
  body if it is a string, else its JSON text.
\<close>

definition zoho_raw_body :: "platform \<Rightarrow> request \<Rightarrow> string" where
  "zoho_raw_body P req =
     (case rq_rawBody req of
        Some raw \<Rightarrow> raw
      | None \<Rightarrow> (case rq_body req of
                   JStr s \<Rightarrow> s
                 | b \<Rightarrow> p_JSON_stringify P (js_nc b (JObj []))))"

text \<open>
  The signature check: the decoded signature is compared with the decoded base64 digest
  when they have the same length, and the text with the hex digest otherwise.
\<close>

definition zoho_signature_ok :: "platform \<Rightarrow> string \<Rightarrow> request \<Rightarrow> bool" where
  "zoho_signature_ok P secret req =
     (case rq_headers req ''x-zoho-webhook-signature'' of
        Some (c # cs) \<Rightarrow>
          (let bodyBuffer = zoho_raw_body P req;
               computedBase64 = p_base64 P (p_hmac_sha256 P secret bodyBuffer);
               sigStr = js_trim (c # cs);
               a = p_unbase64 P sigStr;
               b = p_unbase64 P computedBase64
           in if length a = length b then a = b
              else toLowerCase sigStr = toLowerCase (p_hex P (p_hmac_sha256 P secret bodyBuffer)))
      | _ \<Rightarrow> False)"

text \<open>
  \<^verbatim>\<open>headers["x-webhook-secret"] || headers["x-zoho-webhook-secret"] ||
  headers["authorization"]?.replace(/^Bearer\s+/i, "")\<close>.
\<close>

definition zoho_header_secret :: "request \<Rightarrow> string option" where
  "zoho_header_secret req =
     (case rq_headers req ''x-webhook-secret'' of
        Some (c # cs) \<Rightarrow> Some (c # cs)
      | _ \<Rightarrow> (case rq_headers req ''x-zoho-webhook-secret'' of
                 Some (c # cs) \<Rightarrow> Some (c # cs)
               | _ \<Rightarrow> map_option strip_bearer (rq_headers req ''authorization'')))"

definition zoho_authorized :: "platform \<Rightarrow> string \<Rightarrow> request \<Rightarrow> bool" where
  "zoho_authorized P secret req =
     (if zoho_signature_ok P secret req then True
      else (case zoho_header_secret req of
              Some (c # cs) \<Rightarrow> c # cs = secret
            | _ \<Rightarrow> False))"

text \<open>
  The updates for a variant that was found (lines 121 to 145): each of the two is tried
  and its failure is reported in the reply, not thrown.
\<close>

definition item_apply :: "platform \<Rightarrow> json \<Rightarrow> json \<Rightarrow> json \<Rightarrow> json \<Rightarrow> reply io" where
  "item_apply P sku price available variant =
     bnd (if \<not> js_nullish price then
            try_catch
              (bnd (updateVariantPrice P (js_get variant ''id'') price) (\<lambda>r.
                 ret [(''priceUpdated'', JBool True), (''priceResponse'', r)]))
              (\<lambda>e. ret [(''priceUpdated'', JBool False),
                         (''priceError'', JStr (getErrorMessage P e))])
          else ret []) (\<lambda>priceResult.
     bnd (case available of
            JNum a \<Rightarrow>
              try_catch
                (bnd (setInventoryLevel P (js_get variant ''inventory_item_id'') a JUndef) (\<lambda>r.
                   ret [(''inventoryUpdated'', JBool True), (''inventoryResponse'', r)]))
                (\<lambda>e. ret [(''inventoryUpdated'', JBool False),
                           (''inventoryError'', JStr (getErrorMessage P e))])
          | _ \<Rightarrow> ret []) (\<lambda>inventoryResult.
       ret \<lparr>rp_status = 200,
            rp_payload = JObj ([(''ok'', JBool True), (''sku'', sku),
                                (''variant_id'', js_get variant ''id'')]
                               @ priceResult @ inventoryResult)\<rparr>))"

text \<open>The flat item-update payload (lines 108 to 145).\<close>

definition zoho_item_update :: "platform \<Rightarrow> json \<Rightarrow> reply io" where
  "zoho_item_update P b =
     (let sku = pickSKU b in
      if \<not> js_truthy sku then
        ret \<lparr>rp_status = 200,
             rp_payload = JObj [(''ok'', JBool True), (''skipped'', JBool True),
                                (''reason'', JStr ''No SKU in payload'')]\<rparr>
      else
        let price = pickPrice P b; available = pickAvailableStock P b in
        bnd (findVariantBySKU sku) (\<lambda>variant.
          if \<not> js_truthy variant then
            ret \<lparr>rp_status = 200,
                 rp_payload = JObj [(''ok'', JBool True), (''skipped'', JBool True),
                                    (''reason'', JStr ''SKU not found in Shopify''), (''sku'', sku)]\<rparr>
          else item_apply P sku price available variant))"

text \<open>One line of an inventory adjustment (the body of the inner \<open>try\<close>, lines 155 to 174).\<close>

definition adjust_line :: "platform \<Rightarrow> json \<Rightarrow> json \<Rightarrow> json io" where
  "adjust_line P adj li =
     (let itemId = js_get li ''item_id'' in
      if \<not> js_truthy itemId then
        ret (JObj [(''skipped'', JBool True), (''reason'', JStr ''No item_id'')])
      else
        bnd (getZohoItemById itemId) (\<lambda>item.
          let sku = js_get item ''sku'' in
          if \<not> js_truthy sku then
            ret (JObj [(''item_id'', itemId), (''skipped'', JBool True),
                       (''reason'', JStr ''No SKU on item'')])
          else
            bnd (findVariantBySKU sku) (\<lambda>variant.
              if \<not> js_truthy variant then
                ret (JObj [(''item_id'', itemId), (''sku'', sku), (''skipped'', JBool True),
                           (''reason'', JStr ''SKU not in Shopify'')])
              else
                let newQty =
                      js_nc (js_nc (coerceNumber P (js_get li ''new_quantity''))
                                   (coerceNumber P (js_get adj ''new_quantity'')))
                            (coerceNumber P
                               (js_nc (js_nc (js_get item ''available_stock'')
                                             (js_get item ''stock_on_hand''))
                                      (js_get item ''actual_available_stock'')))
                in
                case newQty of
                  JNum q \<Rightarrow>
                    bnd (setInventoryLevel P (js_get variant ''inventory_item_id'') q JUndef) (\<lambda>r.
                      ret (JObj [(''item_id'', itemId), (''sku'', sku),
                                 (''inventoryUpdated'', JBool True), (''inventoryResponse'', r)]))
                | _ \<Rightarrow>
                    ret (JObj [(''item_id'', itemId), (''sku'', sku), (''skipped'', JBool True),
                               (''reason'', JStr ''No absolute quantity'')]))))"

text \<open>The loop over the lines: a line that throws leaves an error entry and the loop goes on.\<close>

fun adjust_lines :: "platform \<Rightarrow> json \<Rightarrow> json list \<Rightarrow> json list io" where
  "adjust_lines P adj [] = ret []"
| "adjust_lines P adj (li # lis) =
     bnd (try_catch (adjust_line P adj li)
            (\<lambda>e. ret (JObj [(''error'', JStr (getErrorMessage P e))]))) (\<lambda>u.
     bnd (adjust_lines P adj lis) (\<lambda>us. ret (u # us)))"

text \<open>The inventory-adjustment payload (lines 149 to 180).\<close>

definition zoho_adjustment :: "platform \<Rightarrow> json \<Rightarrow> reply io" where
  "zoho_adjustment P b =
     (let adj = js_or (js_get b ''inventory_adjustment'') (JObj []);
          lines = (case js_get adj ''line_items'' of JArr xs \<Rightarrow> xs | _ \<Rightarrow> [])
      in bnd (adjust_lines P adj lines) (\<lambda>updates.
           ret \<lparr>rp_status = 200,
                rp_payload = JObj [(''ok'', JBool True),
                                   (''inventory_adjustment_id'', js_get adj ''inventory_adjustment_id''),
                                   (''updates'', JArr updates)]\<rparr>))"

text \<open>What the handler does once the request is authorised (lines 100 to 180).\<close>

definition zoho_process :: "platform \<Rightarrow> request \<Rightarrow> reply io" where
  "zoho_process P req =
     bnd (parse_body P (rq_body req)) (\<lambda>b.
       if \<not> js_truthy (js_get b ''inventory_adjustment'') then zoho_item_update P b
       else zoho_adjustment P b)"

definition unauthorized :: reply where
  "unauthorized = \<lparr>rp_status = 401,
                    rp_payload = JObj [(''ok'', JBool False), (''error'', JStr ''Unauthorized'')]\<rparr>"

text \<open>The handler's \<open>catch\<close> block (lines 181 to 184).\<close>

definition zoho_failed :: "platform \<Rightarrow> err \<Rightarrow> reply io" where
  "zoho_failed P e =
     bnd (log ERROR ''Zoho webhook handler error:'' [JStr (getErrorMessage P e)]) (\<lambda>_.
       ret \<lparr>rp_status = 500,
            rp_payload = JObj [(''ok'', JBool False), (''error'', JStr (getErrorMessage P e))]\<rparr>)"

definition zohoWebhook :: "platform \<Rightarrow> request \<Rightarrow> reply io" where
  "zohoWebhook P req =
     try_catch
       (bnd (getenv ''ZOHO_WEBHOOK_SECRET'') (\<lambda>SECRET.
          case SECRET of
            Some (c # cs) \<Rightarrow>
              if \<not> zoho_authorized P (c # cs) req then ret unauthorized
              else zoho_process P req
          | _ \<Rightarrow> ret unauthorized))
       (zoho_failed P)"

subsection \<open>Storefront order-created webhook (\<^verbatim>\<open>api/routes/shopify/POST-order-created.ts\<close>)\<close>

text \<open>
  \<^verbatim>\<open>verifyHmac\<close>; the raw body is \<open>None\<close> when \<^verbatim>\<open>JSON.stringify\<close> gave undefined,
  and hashing it throws.
\<close>

definition verifyHmac :: "platform \<Rightarrow> string option \<Rightarrow> string option \<Rightarrow> string option \<Rightarrow> bool io" where
  "verifyHmac P SHOPIFY_SECRET hmacHeader rawBody =
     (case (hmacHeader, SHOPIFY_SECRET) of
        (Some (h # hs), Some (k # ks)) \<Rightarrow>
          (case rawBody of
             None \<Rightarrow> raise TypeError
           | Some bodyBuffer \<Rightarrow>
               let computed = p_base64 P (p_hmac_sha256 P (k # ks) bodyBuffer);
                   a = p_unbase64 P (h # hs);
                   b = p_unbase64 P computed
               in if length a \<noteq> length b then ret False else ret (a = b))
      | _ \<Rightarrow> ret False)"

text \<open>The raw body for the HMAC, in order of preference (lines 25 to 37).\<close>

definition order_raw_body :: "platform \<Rightarrow> request \<Rightarrow> string option io" where
  "order_raw_body P req =
     (case rq_rawBody req of
        Some raw \<Rightarrow> bnd (log LOG ''Using request.rawBody for HMAC'' []) (\<lambda>_. ret (Some raw))
      | None \<Rightarrow>
          (case rq_body req of
             JStr s \<Rightarrow> bnd (log LOG ''Using string request.body for HMAC'' []) (\<lambda>_. ret (Some s))
           | b \<Rightarrow>
               bnd (log LOG ''Using JSON.stringify fallback for HMAC - may cause verification issues'' []) (\<lambda>_.
                 ret (if b = JUndef then None else Some (p_JSON_stringify P b)))))"

text \<open>The gate with its development bypass (lines 39 to 52): the value of \<open>hmacValid\<close>.\<close>

definition order_gate :: "platform \<Rightarrow> bool \<Rightarrow> string option \<Rightarrow> string option \<Rightarrow> string option \<Rightarrow> bool io" where
  "order_gate P IS_DEVELOPMENT SHOPIFY_SECRET hmac rawBody =
     (if IS_DEVELOPMENT \<and> (case hmac of Some (h # hs) \<Rightarrow> False | _ \<Rightarrow> True) then
        bnd (log WARN ''Development mode: Bypassing HMAC verification (no header)'' []) (\<lambda>_. ret True)
      else if IS_DEVELOPMENT then
        bnd (verifyHmac P SHOPIFY_SECRET hmac rawBody) (\<lambda>hmacValid.
          if \<not> hmacValid then
            bnd (log WARN ''Development mode: HMAC failed but continuing anyway'' []) (\<lambda>_. ret True)
          else ret hmacValid)
      else verifyHmac P SHOPIFY_SECRET hmac rawBody)"

text \<open>What the handler does once the gate is passed (lines 65 to 77).\<close>

definition order_process :: "platform \<Rightarrow> request \<Rightarrow> reply io" where
  "order_process P req =
     bnd (parse_body P (rq_body req)) (\<lambda>order.
       let email = js_or (js_get order ''email'') (js_get (js_get order ''customer'') ''email'') in
       bnd (if js_truthy email then
              bnd (log LOG ''Processing order'' [JObj [(''id'', js_get order ''id''), (''email'', email)]]) (\<lambda>_.
              bnd (pushShopifyOrderToZoho P order) (\<lambda>_.
                log LOG ''Order processed successfully'' [JObj [(''id'', js_get order ''id'')]]))
            else log WARN ''Skipping order - no email'' [JObj [(''id'', js_get order ''id'')]]) (\<lambda>_.
         ret \<lparr>rp_status = 200, rp_payload = JStr ''OK''\<rparr>))"

text \<open>The handler's \<open>catch\<close> block (lines 78 to 81).\<close>

definition order_failed :: "platform \<Rightarrow> err \<Rightarrow> reply io" where
  "order_failed P e =
     bnd (log ERROR ''order-created processing error:'' [JStr (getErrorMessage P e)]) (\<lambda>_.
       ret \<lparr>rp_status = 500, rp_payload = JStr ''Internal Server Error''\<rparr>)"

text \<open>
  The handler (lines 21 to 82). The entry written to the console when the request is
  rejected is kept by its message; the diagnostic object logged with it (whether a header
  and a secret are present, the type and length of the body) is left out.
\<close>

definition orderCreated :: "platform \<Rightarrow> request \<Rightarrow> reply io" where
  "orderCreated P req =
     try_catch
       (bnd (getenv ''SHOPIFY_WEBHOOK_SHARED_SECRET'') (\<lambda>SHOPIFY_SECRET.
        bnd (getenv ''NODE_ENV'') (\<lambda>node_env.
          let hmac = rq_headers req ''x-shopify-hmac-sha256'' in
          bnd (order_raw_body P req) (\<lambda>rawBody.
          bnd (order_gate P (node_env = Some ''development'') SHOPIFY_SECRET hmac rawBody) (\<lambda>hmacValid.
            if \<not> hmacValid then
              bnd (log ERROR ''HMAC verification failed'' []) (\<lambda>_.
                ret \<lparr>rp_status = 401, rp_payload = JStr ''Invalid HMAC''\<rparr>)
            else order_process P req)))))
       (order_failed P)"

section \<open>Notions used to state the properties\<close>

text \<open>A value the code treats as missing: \<^verbatim>\<open>!value\<close> holds for undefined and for the empty string.\<close>

definition absent :: "string option \<Rightarrow> bool" where
  "absent v = (v = None \<or> v = Some [])"

text \<open>The environment values each client requires, in the order the code asks for them.\<close>

definition shopify_required :: "string list" where
  "shopify_required = [''SHOPIFY_ACCESS_TOKEN'', ''SHOPIFY_STORE_DOMAIN'']"

definition zoho_token_required :: "string list" where
  "zoho_token_required =
     [''ZOHO_ACCOUNTS_URL'', ''ZOHO_CLIENT_ID'', ''ZOHO_CLIENT_SECRET'', ''ZOHO_REFRESH_TOKEN'']"

definition zoho_required :: "string list" where
  "zoho_required = [''ZOHO_BASE_URL'', ''ZOHO_ORG_ID'']"

text \<open>An action leaves a component \<open>f\<close> of the world as it was, whatever it returns.\<close>

definition keeps :: "(world \<Rightarrow> 'b) \<Rightarrow> 'a io \<Rightarrow> bool" where
  "keeps f m = (\<forall>w. f (snd (m w)) = f w)"

text \<open>The price updates among a list of vendor requests, and the inventory updates.\<close>

definition price_calls :: "call list \<Rightarrow> call list" where
  "price_calls cs =
     filter (\<lambda>c. case c of Shopify (PutVariantPrice i p) \<Rightarrow> True | _ \<Rightarrow> False) cs"

definition stock_calls :: "call list \<Rightarrow> call list" where
  "stock_calls cs =
     filter (\<lambda>c. case c of Shopify (PostInventorySet l i a) \<Rightarrow> True | _ \<Rightarrow> False) cs"

text \<open>
  The first document with exactly the SKU asked for (undefined when there is none), and
  the variant \<open>findVariantBySKU\<close> settles on among the documents the storefront
  returns for a SKU: the exact match, else the first returned, else null.
\<close>

definition exact_match :: "json \<Rightarrow> json list \<Rightarrow> json" where
  "exact_match sku vs =
     (case List.find (\<lambda>v. js_strict_eq (js_get v ''sku'') sku) vs of
        Some v \<Rightarrow> v | None \<Rightarrow> JUndef)"

definition chosen_variant :: "shopify_remote \<Rightarrow> json \<Rightarrow> json" where
  "chosen_variant S sku =
     js_or (js_or (exact_match sku (variant_docs S sku)) (js_first (JArr (variant_docs S sku))))
       JNull"

text \<open>The parts of the world that no action of the bridge changes.\<close>

definition fixed_part ::
  "world \<Rightarrow> (string \<Rightarrow> string option)
            \<times> ((json \<Rightarrow> nat list) \<times> json \<times> (string \<Rightarrow> string)
               \<times> (shopify_req \<Rightarrow> (nat \<times> string) option))
            \<times> ((string \<times> json) list \<times> (nat \<Rightarrow> json) \<times> (json \<Rightarrow> (string \<times> json) list list)
               \<times> (json \<Rightarrow> json) \<times> (zoho_req \<Rightarrow> (nat \<times> string) option))" where
  "fixed_part w =
     (env w,
      (sh_search (shopify w), sh_shop (shopify w), sh_price_text (shopify w), sh_fault (shopify w)),
      (z_token (zoho w), z_items_page (zoho w), z_items_search (zoho w), z_item (zoho w),
       z_fault (zoho w)))"

text \<open>A variant document after a price update for the id \<open>vid\<close>.\<close>

definition reprice :: "json \<Rightarrow> string \<Rightarrow> json \<Rightarrow> json" where
  "reprice vid p v = (case v of JObj d \<Rightarrow> JObj (set_price vid p d) | _ \<Rightarrow> v)"

text \<open>The catalog pages requested, in order, among a list of vendor requests.\<close>

definition page_requests :: "call list \<Rightarrow> nat list" where
  "page_requests cs = concat (map (\<lambda>c. case c of Zoho (GetItemsPage n) \<Rightarrow> [n] | _ \<Rightarrow> []) cs)"

text \<open>A page on which the loop stops: it has no items, or it says there is no more page.\<close>

definition stops_at :: "json \<Rightarrow> bool" where
  "stops_at data = (no_items data \<or> \<not> has_more_page data)"

text \<open>The backend requests that read: all but the creation of a contact or a sales order.\<close>

fun zoho_reads :: "zoho_req \<Rightarrow> bool" where
  "zoho_reads (PostContact n e) = False"
| "zoho_reads (PostSalesOrder c f l) = False"
| "zoho_reads _ = True"

text \<open>
  The backend is reachable: its six environment values are present and it refuses no
  request.
\<close>

definition zoho_ok :: "world \<Rightarrow> bool" where
  "zoho_ok w =
     (List.find (\<lambda>n. absent (env w n)) (zoho_token_required @ zoho_required) = None
      \<and> z_fault (zoho w) = (\<lambda>r. None))"

text \<open>The backend item \<open>findZohoItemBySKU\<close> returns for a SKU: the exact match or null.\<close>

definition found_item :: "zoho_remote \<Rightarrow> json \<Rightarrow> json" where
  "found_item Z sku = js_or (exact_match sku (map JObj (z_items_search Z sku))) JNull"

text \<open>
  A line of a storefront order that the order push maps: it has a SKU, a numeric
  quantity and a backend item. The line as it is handed to \<open>createZohoSalesOrder\<close>, and
  the line of the sales order made from it.
\<close>

definition mapped_line :: "zoho_remote \<Rightarrow> json \<Rightarrow> bool" where
  "mapped_line Z li =
     (js_truthy (js_get li ''sku'') \<and> is_number (js_get li ''quantity'')
      \<and> js_truthy (found_item Z (js_get li ''sku'')))"

definition unresolved_line :: "zoho_remote \<Rightarrow> json \<Rightarrow> bool" where
  "unresolved_line Z li =
     (js_truthy (js_get li ''sku'') \<and> is_number (js_get li ''quantity'')
      \<and> \<not> js_truthy (found_item Z (js_get li ''sku'')))"

definition order_line :: "json \<Rightarrow> json" where
  "order_line li =
     JObj [(''sku'', js_get li ''sku''), (''quantity'', js_get li ''quantity''),
           (''rate'', js_get li ''price'')]"

definition sales_line :: "zoho_remote \<Rightarrow> json \<Rightarrow> json" where
  "sales_line Z li =
     (let item = found_item Z (js_get li ''sku'') in
      JObj [(''item_id'', js_get item ''item_id''),
            (''name'', js_get item ''name''),
            (''rate'', if \<not> js_nullish (js_get li ''price'') then js_get li ''price''
                       else js_get item ''rate''),
            (''quantity'', js_get li ''quantity'')])"

text \<open>The sales orders created among a list of vendor requests.\<close>

definition order_calls :: "call list \<Rightarrow> call list" where
  "order_calls cs =
     filter (\<lambda>c. case c of Zoho (PostSalesOrder c f l) \<Rightarrow> True | _ \<Rightarrow> False) cs"

text \<open>
  The console entry for a line skipped for want of a backend item, and such entries
  among the entries of the console.
\<close>

definition skip_report :: "json \<Rightarrow> level \<times> string \<times> json list" where
  "skip_report li = (ERROR, ''SO skip line: SKU not in Zoho'', [js_get li ''sku''])"


definition unresolved_reports :: "(level \<times> string \<times> json list) list \<Rightarrow> (level \<times> string \<times> json list) list" where
  "unresolved_reports es = filter (\<lambda>(l, m, a). m = ''SO skip line: SKU not in Zoho'') es"

text \<open>
  An action that, when it returns a value, returns one satisfying \<open>Q\<close>; and an action
  that never throws.
\<close>

definition yields :: "('a \<Rightarrow> bool) \<Rightarrow> 'a io \<Rightarrow> bool" where
  "yields Q m = (\<forall>w r w'. m w = (Inr r, w') \<longrightarrow> Q r)"

definition nothrow :: "'a io \<Rightarrow> bool" where
  "nothrow m = (\<forall>w. \<exists>r w'. m w = (Inr r, w'))"

subsection \<open>A small world for closed instances\<close>

text \<open>
  A platform, an environment and two vendors on which the theorems are instantiated:
  the storefront sells one variant with SKU A, the backend lists one item with SKU A on
  one page, and nothing is known under SKU B.
\<close>

definition demo_platform :: platform where
  "demo_platform =
     \<lparr>p_Number = (\<lambda>s. case map_of [(''0'', Fin 0), (''5'', Fin 5), (''7'', Fin 7)] s of
                        Some n \<Rightarrow> n | None \<Rightarrow> NaN),
      p_String = (\<lambda>n. if n = Fin 12 then ''12'' else if n = Fin 5 then ''5''
                       else if n = Fin 1001 then ''1001'' else ''NaN''),
      p_JSON_parse = (\<lambda>s. None),
      p_JSON_stringify = (\<lambda>j. ''{}''),
      p_hmac_sha256 = (\<lambda>k d. k @ d),
      p_base64 = (\<lambda>s. s),
      p_unbase64 = (\<lambda>s. s),
      p_hex = (\<lambda>s. s)\<rparr>"

definition demo_env :: "string \<Rightarrow> string option" where
  "demo_env =
     map_of [(''SHOPIFY_ACCESS_TOKEN'', ''shpat''), (''SHOPIFY_STORE_DOMAIN'', ''shop.example''),
             (''ZOHO_ACCOUNTS_URL'', ''https://accounts.zoho.in''), (''ZOHO_CLIENT_ID'', ''id''),
             (''ZOHO_CLIENT_SECRET'', ''cs''), (''ZOHO_REFRESH_TOKEN'', ''rt''),
             (''ZOHO_BASE_URL'', ''https://www.zohoapis.in''), (''ZOHO_ORG_ID'', ''org''),
             (''ZOHO_WEBHOOK_SECRET'', ''s3cret''), (''SHOPIFY_WEBHOOK_SHARED_SECRET'', ''shh'')]"

definition variant_A :: "(string \<times> json) list" where
  "variant_A = [(''id'', JNum (Fin 1)), (''sku'', JStr ''A''), (''price'', JStr ''10.00''),
                (''inventory_item_id'', JNum (Fin 11))]"

definition demo_shopify :: shopify_remote where
  "demo_shopify =
     \<lparr>sh_variants = [variant_A],
      sh_search = (\<lambda>q. if q = JStr ''A'' then [0] else []),
      sh_shop = JObj [(''shop'', JObj [(''primary_location_id'', JNum (Fin 100))])],
      sh_levels = [],
      sh_price_text = (\<lambda>p. p),
      sh_fault = (\<lambda>r. None)\<rparr>"

definition item_A :: "(string \<times> json) list" where
  "item_A = [(''item_id'', JStr ''i1''), (''sku'', JStr ''A''), (''name'', JStr ''Item A''),
             (''rate'', JNum (Fin 12)), (''stock_on_hand'', JNum (Fin 5))]"

definition demo_zoho :: zoho_remote where
  "demo_zoho =
     \<lparr>z_token = [(''access_token'', JStr ''tok'')],
      z_items_page = (\<lambda>n. if n = 1
                           then JObj [(''items'', JArr [JObj item_A]),
                                      (''page_context'', JObj [(''has_more_page'', JBool False)])]
                           else JObj [(''items'', JArr [])]),
      z_items_search = (\<lambda>q. if q = JStr ''A'' then [item_A] else []),
      z_item = (\<lambda>i. if i = JStr ''i1'' then JObj [(''item'', JObj item_A)] else JObj []),
      z_contacts = (\<lambda>e. []),
      z_salesorders = [],
      z_fault = (\<lambda>r. None)\<rparr>"

definition demo_world :: world where
  "demo_world = \<lparr>env = demo_env, shopify = demo_shopify, zoho = demo_zoho, calls = [], console = []\<rparr>"

text \<open>The backend's token endpoint is down and no organisation id is configured.\<close>

definition world_token_down :: world where
  "world_token_down =
     demo_world\<lparr>env := demo_env(''ZOHO_ORG_ID'' := None),
                zoho := demo_zoho\<lparr>z_fault := (\<lambda>r. if r = PostToken then Some (500, ''down'') else None)\<rparr>\<rparr>"

text \<open>No storefront domain and no backend organisation id are configured.\<close>

definition world_unconfigured :: world where
  "world_unconfigured =
     demo_world\<lparr>env := demo_env(''SHOPIFY_STORE_DOMAIN'' := None, ''ZOHO_ORG_ID'' := Some [])\<rparr>"

text \<open>No backend client id is configured.\<close>

definition world_no_client_id :: world where
  "world_no_client_id = demo_world\<lparr>env := demo_env(''ZOHO_CLIENT_ID'' := None)\<rparr>"

text \<open>
  A backend webhook request with a wrong signature and a wrong shared secret, and a
  storefront order for two units of A and one of B, sent without a signature and with a
  wrong one.
\<close>

definition forged_request :: request where
  "forged_request =
     \<lparr>rq_headers = map_of [(''x-zoho-webhook-signature'', ''bad''), (''x-webhook-secret'', ''guess'')],
      rq_rawBody = Some ''{}'',
      rq_body = JObj [(''sku'', JStr ''A''), (''available_stock'', JNum (Fin 7))]\<rparr>"

definition order_AB :: json where
  "order_AB =
     JObj [(''id'', JNum (Fin 1001)), (''email'', JStr ''ann@example.com''),
           (''line_items'',
              JArr [JObj [(''sku'', JStr ''A''), (''quantity'', JNum (Fin 2))],
                    JObj [(''sku'', JStr ''B''), (''quantity'', JNum (Fin 1))]])]"

definition unsigned_order_request :: request where
  "unsigned_order_request = \<lparr>rq_headers = Map.empty, rq_rawBody = Some ''{}'', rq_body = order_AB\<rparr>"

definition missigned_order_request :: request where
  "missigned_order_request =
     \<lparr>rq_headers = map_of [(''x-shopify-hmac-sha256'', ''bad'')],
      rq_rawBody = Some ''{}'', rq_body = order_AB\<rparr>"

definition dev_world :: world where
  "dev_world = demo_world\<lparr>env := demo_env(''NODE_ENV'' \<mapsto> ''development'')\<rparr>"

text \<open>
  A backend with two catalog pages: the first has item A and says there is more, the
  second has no items (and still says there is more).
\<close>

definition world_two_pages :: world where
  "world_two_pages =
     demo_world\<lparr>zoho := demo_zoho\<lparr>z_items_page :=
       (\<lambda>n. if n = 1
             then JObj [(''items'', JArr [JObj item_A]),
                        (''page_context'', JObj [(''has_more_page'', JBool True)])]
             else JObj [(''items'', JArr []),
                        (''page_context'', JObj [(''has_more_page'', JBool True)])])\<rparr>\<rparr>"

text \<open>The same two pages, with a storefront that answers 503 to every request.\<close>

definition world_two_pages_down :: world where
  "world_two_pages_down =
     world_two_pages\<lparr>shopify := demo_shopify\<lparr>sh_fault := (\<lambda>r. Some (503, ''unavailable''))\<rparr>\<rparr>"

text \<open>The order for A and B without any email.\<close>

definition order_AB_no_email :: json where
  "order_AB_no_email =
     JObj [(''id'', JNum (Fin 1001)),
           (''line_items'',
              JArr [JObj [(''sku'', JStr ''A''), (''quantity'', JNum (Fin 2))],
                    JObj [(''sku'', JStr ''B''), (''quantity'', JNum (Fin 1))]])]"

text \<open>
  A backend webhook request for item A that carries the shared secret, and a world in
  which the storefront answers every request with 503.
\<close>

definition item_request :: request where
  "item_request =
     \<lparr>rq_headers = map_of [(''x-webhook-secret'', ''s3cret'')],
      rq_rawBody = None,
      rq_body = JObj [(''sku'', JStr ''A''), (''available_stock'', JNum (Fin 7))]\<rparr>"

definition world_storefront_down :: world where
  "world_storefront_down =
     demo_world\<lparr>shopify := demo_shopify\<lparr>sh_fault := (\<lambda>r. Some (503, ''unavailable''))\<rparr>\<rparr>"

subsection \<open>Notions for a whole sync run\<close>

text \<open>
  The storefront is ready: the client is configured, the storefront refuses no request,
  every variant document has an id and the shop has a primary location. Both vendors
  are ready when moreover the backend is reachable.
\<close>

definition has_id :: "(string \<times> json) list \<Rightarrow> bool" where
  "has_id d = (js_get (JObj d) ''id'' \<noteq> JUndef)"

definition storefront_ready :: "world \<Rightarrow> bool" where
  "storefront_ready w =
     (\<not> absent (env w ''SHOPIFY_ACCESS_TOKEN'') \<and> \<not> absent (env w ''SHOPIFY_STORE_DOMAIN'')
      \<and> sh_fault (shopify w) = (\<lambda>r. None)
      \<and> list_all has_id (sh_variants (shopify w))
      \<and> js_truthy (js_get (js_get (sh_shop (shopify w)) ''shop'') ''primary_location_id''))"

definition sync_ready :: "world \<Rightarrow> bool" where
  "sync_ready w = (zoho_ok w \<and> storefront_ready w)"

text \<open>
  The items the loop visits on a catalog page, and a page that can be processed: the
  answer is not null, its items, if it has any, are an array or a string, and none of
  them is null or undefined.
\<close>

definition catalog_page :: "json \<Rightarrow> json list" where
  "catalog_page data = (if no_items data then [] else js_elements (page_items data))"

definition well_formed_page :: "json \<Rightarrow> bool" where
  "well_formed_page data =
     (\<not> js_nullish data
      \<and> (no_items data \<or> (case page_items data of JArr xs \<Rightarrow> True | JStr s \<Rightarrow> True | _ \<Rightarrow> False))
      \<and> list_all (\<lambda>x. \<not> js_nullish x) (catalog_page data))"

text \<open>The items of the pages 1 to \<open>N\<close>, in the order the run visits them.\<close>

definition catalog_upto :: "zoho_remote \<Rightarrow> nat \<Rightarrow> json list" where
  "catalog_upto Z N = concat (map (\<lambda>n. catalog_page (z_items_page Z n)) [1..<Suc N])"

text \<open>
  An item whose SKU is resolvable on both sides: it has a SKU and the storefront has a
  variant for it. The id of that variant, and the price update that is due for the item
  against a storefront \<open>S\<close>: one update of that variant to the backend price when the
  item is resolvable and the backend price exists and is not the variant's price.
\<close>

definition resolvable :: "shopify_remote \<Rightarrow> json \<Rightarrow> bool" where
  "resolvable S item =
     (js_truthy (js_get item ''sku'') \<and> js_truthy (chosen_variant S (js_get item ''sku'')))"

definition variant_id :: "shopify_remote \<Rightarrow> json \<Rightarrow> json" where
  "variant_id S item = js_get (chosen_variant S (js_get item ''sku'')) ''id''"

definition price_due :: "platform \<Rightarrow> shopify_remote \<Rightarrow> json \<Rightarrow> call list" where
  "price_due P S item =
     (if resolvable S item \<and> zohoPrice P item \<noteq> []
         \<and> \<not> js_strict_eq (js_get (chosen_variant S (js_get item ''sku'')) ''price'')
                            (JStr (zohoPrice P item))
      then [Shopify (PutVariantPrice (variant_id S item) (zohoPrice P item))]
      else [])"

text \<open>
  The storefront after the price update that is due for an item, and after those of a
  list of items taken in order; the price updates a run over the list issues.
\<close>

definition after_item :: "platform \<Rightarrow> shopify_remote \<Rightarrow> json \<Rightarrow> shopify_remote" where
  "after_item P S item =
     (if price_due P S item = [] then S
      else S\<lparr>sh_variants :=
               map (set_price (variant_id S item) (sh_price_text S (zohoPrice P item)))
                 (sh_variants S)\<rparr>)"

fun after_items :: "platform \<Rightarrow> shopify_remote \<Rightarrow> json list \<Rightarrow> shopify_remote" where
  "after_items P S [] = S"
| "after_items P S (x # xs) = after_items P (after_item P S x) xs"

fun price_run :: "platform \<Rightarrow> shopify_remote \<Rightarrow> json list \<Rightarrow> call list" where
  "price_run P S [] = []"
| "price_run P S (x # xs) = price_due P S x @ price_run P (after_item P S x) xs"

text \<open>The reply of a completed sync run.\<close>

definition sync_complete :: json where
  "sync_complete = JObj [(''ok'', JBool True), (''message'', JStr ''Sync complete'')]"




subsection \<open>Notions for the inventory webhook applied twice\<close>

text \<open>
  A list of absolute level writes applied to the storefront's levels, each the way the
  inventory POST stores it.
\<close>

definition put_levels ::
  "((json \<times> json) \<times> jsnum) list \<Rightarrow> ((json \<times> json) \<times> jsnum) list \<Rightarrow> ((json \<times> json) \<times> jsnum) list" where
  "put_levels ws L = fold (\<lambda>(k, a). AList.update k a) ws L"

text \<open>
  What the storefront client gets for a request, and the location \<open>setInventoryLevel\<close>
  settles on for an inventory item, as functions of the environment and the storefront:
  the shop's primary location (or the default when the shop has none), and when that
  fails the location of the item's first inventory level (or the default).
\<close>

definition shopify_answer :: "(string \<Rightarrow> string option) \<Rightarrow> shopify_remote \<Rightarrow> shopify_req \<Rightarrow> err + json" where
  "shopify_answer e S r =
     (if absent (e ''SHOPIFY_ACCESS_TOKEN'') then Inl (NotDefined ''SHOPIFY_ACCESS_TOKEN'')
      else if absent (e ''SHOPIFY_STORE_DOMAIN'') then Inl (NotDefined ''SHOPIFY_STORE_DOMAIN'')
      else (case fst (shopify_respond r S) of
              Inl (st, b) \<Rightarrow> Inl (ShopifyStatus st b)
            | Inr d \<Rightarrow> Inr d))"

definition default_location :: "platform \<Rightarrow> (string \<Rightarrow> string option) \<Rightarrow> string \<Rightarrow> err + json" where
  "default_location P e msg =
     (case e ''DEFAULT_LOCATION_ID'' of
        Some (c # cs) \<Rightarrow> Inr (JNum (p_Number P (c # cs)))
      | _ \<Rightarrow> Inl (Failure msg))"

definition primary_location :: "platform \<Rightarrow> (string \<Rightarrow> string option) \<Rightarrow> shopify_remote \<Rightarrow> err + json" where
  "primary_location P e S =
     (case shopify_answer e S GetShop of
        Inl x \<Rightarrow> Inl x
      | Inr data \<Rightarrow>
          (let id = js_get (js_get data ''shop'') ''primary_location_id'' in
           if js_truthy id then Inr id
           else default_location P e
                  ''primary_location_id unavailable; set DEFAULT_LOCATION_ID or ensure item has inventory_levels''))"

definition location_for ::
  "platform \<Rightarrow> (string \<Rightarrow> string option) \<Rightarrow> shopify_remote \<Rightarrow> json \<Rightarrow> err + json" where
  "location_for P e S item =
     (case primary_location P e S of
        Inr l \<Rightarrow> Inr l
      | Inl x \<Rightarrow>
          (case shopify_answer e S (GetInventoryLevels item) of
             Inl y \<Rightarrow> Inl y
           | Inr levels \<Rightarrow>
               (let loc = js_get (js_first (js_get levels ''inventory_levels'')) ''location_id'' in
                if js_truthy loc then Inr loc
                else default_location P e
                       ''No location_id available; set DEFAULT_LOCATION_ID in Secrets'')))"

text \<open>
  Two variant documents that differ at most in their price, and two worlds that differ
  at most in the prices of the variants, in the inventory levels as far as they do not
  decide the location of an item, in the requests issued and in the console.
\<close>

definition same_but_price :: "(string \<times> json) list \<Rightarrow> (string \<times> json) list \<Rightarrow> bool" where
  "same_but_price d d' = (\<forall>k. k \<noteq> ''price'' \<longrightarrow> map_of d' k = map_of d k)"

definition same_variant :: "json \<Rightarrow> json \<Rightarrow> bool" where
  "same_variant v v' =
     (js_truthy v' = js_truthy v \<and> (\<forall>k. k \<noteq> ''price'' \<longrightarrow> js_get v' k = js_get v k))"

definition same_store :: "platform \<Rightarrow> world \<Rightarrow> world \<Rightarrow> bool" where
  "same_store P w w' =
     (env w' = env w \<and> zoho w' = zoho w
      \<and> sh_search (shopify w') = sh_search (shopify w)
      \<and> sh_shop (shopify w') = sh_shop (shopify w)
      \<and> sh_fault (shopify w') = sh_fault (shopify w)
      \<and> sh_price_text (shopify w') = sh_price_text (shopify w)
      \<and> list_all2 same_but_price (sh_variants (shopify w)) (sh_variants (shopify w'))
      \<and> (\<forall>item. location_for P (env w') (shopify w') item = location_for P (env w) (shopify w) item))"

text \<open>
  Two actions replay each other: run in two worlds that are the same store, they return
  the same error or related results, leave each world the same store, and apply the same
  list of level writes.
\<close>

definition replays :: "platform \<Rightarrow> ('a \<Rightarrow> 'b \<Rightarrow> bool) \<Rightarrow> 'a io \<Rightarrow> 'b io \<Rightarrow> bool" where
  "replays P Q m m' =
     (\<forall>w w'. same_store P w w' \<longrightarrow>
        (\<exists>ws. rel_sum (=) Q (fst (m w)) (fst (m' w'))
              \<and> same_store P w (snd (m w)) \<and> same_store P w' (snd (m' w'))
              \<and> sh_levels (shopify (snd (m w))) = put_levels ws (sh_levels (shopify w))
              \<and> sh_levels (shopify (snd (m' w'))) = put_levels ws (sh_levels (shopify w'))))"

text \<open>The location of the first inventory level of an item, undefined when it has none.\<close>

definition first_location :: "((json \<times> json) \<times> jsnum) list \<Rightarrow> json \<Rightarrow> json" where
  "first_location L item =
     (case filter (\<lambda>((l, i), a). i = item) L of [] \<Rightarrow> JUndef | ((l, i), a) # _ \<Rightarrow> l)"

text \<open>
  The level writes a webhook payload asks for, against a storefront \<open>S\<close> and a backend
  \<open>Z\<close>, at the shop's primary location. A flat item update writes the payload's
  absolute stock for the variant of its SKU; a line of an adjustment batch writes its
  absolute quantity (the line's \<open>new_quantity\<close>, else the batch's, else the stock of the
  backend item) for the variant of the SKU of its backend item.
\<close>

definition primary_loc :: "shopify_remote \<Rightarrow> json" where
  "primary_loc S = js_get (js_get (sh_shop S) ''shop'') ''primary_location_id''"

definition item_write :: "platform \<Rightarrow> shopify_remote \<Rightarrow> json \<Rightarrow> ((json \<times> json) \<times> jsnum) list" where
  "item_write P S b =
     (if js_truthy (pickSKU b) \<and> js_truthy (chosen_variant S (pickSKU b))
      then (case pickAvailableStock P b of
              JNum a \<Rightarrow> [((primary_loc S, js_get (chosen_variant S (pickSKU b)) ''inventory_item_id''), a)]
            | _ \<Rightarrow> [])
      else [])"

definition line_quantity :: "platform \<Rightarrow> json \<Rightarrow> json \<Rightarrow> json \<Rightarrow> json" where
  "line_quantity P adj li item =
     js_nc (js_nc (coerceNumber P (js_get li ''new_quantity''))
                  (coerceNumber P (js_get adj ''new_quantity'')))
           (coerceNumber P
              (js_nc (js_nc (js_get item ''available_stock'') (js_get item ''stock_on_hand''))
                     (js_get item ''actual_available_stock'')))"

definition line_item :: "zoho_remote \<Rightarrow> json \<Rightarrow> json" where
  "line_item Z li = js_get (z_item Z (js_get li ''item_id'')) ''item''"

definition line_write ::
  "platform \<Rightarrow> shopify_remote \<Rightarrow> zoho_remote \<Rightarrow> json \<Rightarrow> json \<Rightarrow> ((json \<times> json) \<times> jsnum) list" where
  "line_write P S Z adj li =
     (if js_truthy (js_get li ''item_id'') \<and> \<not> js_nullish (z_item Z (js_get li ''item_id''))
         \<and> js_truthy (js_get (line_item Z li) ''sku'')
         \<and> js_truthy (chosen_variant S (js_get (line_item Z li) ''sku''))
      then (case line_quantity P adj li (line_item Z li) of
              JNum q \<Rightarrow>
                [((primary_loc S,
                   js_get (chosen_variant S (js_get (line_item Z li) ''sku'')) ''inventory_item_id''), q)]
            | _ \<Rightarrow> [])
      else [])"

definition adjustment_of :: "json \<Rightarrow> json" where
  "adjustment_of b = js_or (js_get b ''inventory_adjustment'') (JObj [])"

definition adjustment_lines :: "json \<Rightarrow> json list" where
  "adjustment_lines b = (case js_get (adjustment_of b) ''line_items'' of JArr xs \<Rightarrow> xs | _ \<Rightarrow> [])"

definition webhook_writes :: "platform \<Rightarrow> world \<Rightarrow> json \<Rightarrow> ((json \<times> json) \<times> jsnum) list" where
  "webhook_writes P w b =
     (if \<not> js_truthy (js_get b ''inventory_adjustment'') then item_write P (shopify w) b
      else concat (map (line_write P (shopify w) (zoho w) (adjustment_of b)) (adjustment_lines b)))"

text \<open>
  A backend webhook request that carries the shared secret and an adjustment batch of
  one line: the item \<open>i1\<close> (item A) with the new quantity 3.
\<close>

definition adjustment_request :: request where
  "adjustment_request =
     \<lparr>rq_headers = map_of [(''x-webhook-secret'', ''s3cret'')],
      rq_rawBody = None,
      rq_body = JObj [(''inventory_adjustment'',
                  JObj [(''inventory_adjustment_id'', JStr ''adj1''),
                        (''line_items'',
                           JArr [JObj [(''item_id'', JStr ''i1''),
                                       (''new_quantity'', JNum (Fin 3))]])])]\<rparr>"

section \<open>Basic facts about effects\<close>

named_theorems keeps_intros

lemma bnd_Inr: "m w = (Inr x, w') \<Longrightarrow> bnd m f w = f x w'"
  by (simp add: bnd_def)

lemma bnd_Inl: "m w = (Inl e, w') \<Longrightarrow> bnd m f w = (Inl e, w')"
  by (simp add: bnd_def)

lemma bnd_ret: "bnd (ret x) f w = f x w"
  by (simp add: bnd_def ret_def)

lemma bnd_raise: "bnd (raise e) f w = (Inl e, w)"
  by (simp add: bnd_def raise_def)

lemma bnd_getenv: "bnd (getenv n) f w = f (env w n) w"
  by (simp add: bnd_def getenv_def)

lemma requireEnv_absent: "absent v \<Longrightarrow> requireEnv v n w = (Inl (NotDefined n), w)"
  by (auto simp: absent_def requireEnv_def raise_def)

lemma requireEnv_present: "\<not> absent v \<Longrightarrow> requireEnv v n w = (Inr (the v), w)"
  by (auto simp: absent_def requireEnv_def ret_def split: option.splits)

lemma bnd_requireEnv:
  "bnd (requireEnv v n) f w = (if absent v then (Inl (NotDefined n), w) else f (the v) w)"
  by (simp add: bnd_def requireEnv_absent requireEnv_present)

lemma keepsD: "keeps f m \<Longrightarrow> f (snd (m w)) = f w"
  by (simp add: keeps_def)

lemma keepsD2: "keeps f m \<Longrightarrow> m w = (r, w') \<Longrightarrow> f w' = f w"
  by (metis keepsD snd_conv)

lemma keeps_ret [keeps_intros]: "keeps f (ret x)"
  by (simp add: keeps_def ret_def)

lemma keeps_raise [keeps_intros]: "keeps f (raise e)"
  by (simp add: keeps_def raise_def)

lemma keeps_getenv [keeps_intros]: "keeps f (getenv n)"
  by (simp add: keeps_def getenv_def)

lemma keeps_bnd [keeps_intros]:
  "keeps f m \<Longrightarrow> (\<And>x. keeps f (g x)) \<Longrightarrow> keeps f (bnd m g)"
  by (auto simp: keeps_def bnd_def split: prod.splits sum.splits) (metis snd_conv)+

lemma keeps_try_catch [keeps_intros]:
  "keeps f m \<Longrightarrow> (\<And>e. keeps f (h e)) \<Longrightarrow> keeps f (try_catch m h)"
  by (auto simp: keeps_def try_catch_def split: prod.splits sum.splits) (metis snd_conv)+

lemma keeps_requireEnv [keeps_intros]: "keeps f (requireEnv v n)"
  by (auto simp: requireEnv_def intro: keeps_intros split: option.splits)

lemma keeps_js_dot [keeps_intros]: "keeps f (js_dot v k)"
  by (auto simp: js_dot_def intro: keeps_intros)

lemma keeps_for_each [keeps_intros]:
  "(\<And>x. keeps f (body x)) \<Longrightarrow> keeps f (for_each body xs)"
  by (induction xs) (auto intro: keeps_intros)

lemma keeps_env_log [keeps_intros]: "keeps env (log l m a)"
  by (simp add: keeps_def log_def)

lemma keeps_env_zoho_http [keeps_intros]: "keeps env (zoho_http r)"
  by (auto simp: keeps_def zoho_http_def split: prod.splits)

lemma keeps_env_shopify_http [keeps_intros]: "keeps env (shopify_http r)"
  by (auto simp: keeps_def shopify_http_def split: prod.splits)

lemma keeps_env_token [keeps_intros]: "keeps env getZohoAccessToken"
  unfolding getZohoAccessToken_def
  by (auto intro!: keeps_intros split: sum.splits)

section \<open>Missing configuration\<close>

lemma shopifyFetch_absent:
  "List.find (\<lambda>n. absent (env w n)) shopify_required = Some n \<Longrightarrow>
   shopifyFetch r w = (Inl (NotDefined n), w)"
  by (auto simp: shopify_required_def shopifyFetch_def bnd_getenv bnd_requireEnv split: if_splits)

lemma token_absent:
  "List.find (\<lambda>n. absent (env w n)) zoho_token_required = Some n \<Longrightarrow>
   getZohoAccessToken w = (Inl (NotDefined n), w)"
  by (auto simp: zoho_token_required_def getZohoAccessToken_def bnd_getenv bnd_requireEnv
           split: if_splits)

lemma zohoFetch_absent_early:
  "List.find (\<lambda>n. absent (env w n)) zoho_token_required = Some n \<Longrightarrow>
   zohoFetch r w = (Inl (NotDefined n), w)"
  by (simp add: zohoFetch_def bnd_def token_absent)

lemma zohoFetch_absent_late:
  assumes "List.find (\<lambda>n. absent (env w n)) zoho_required = Some n"
  shows "zohoFetch r w =
     (case getZohoAccessToken w of
        (Inl e, w') \<Rightarrow> (Inl e, w')
      | (Inr _, w') \<Rightarrow> (Inl (NotDefined n), w'))"
proof (cases "getZohoAccessToken w")
  case (Pair res w')
  have e: "env w' = env w"
    using keepsD[OF keeps_env_token, of w] Pair by simp
  show ?thesis
  proof (cases res)
    case (Inl err)
    then show ?thesis using Pair by (simp add: zohoFetch_def bnd_Inl)
  next
    case (Inr tok)
    then show ?thesis using Pair assms e
      by (auto simp: zohoFetch_def bnd_Inr bnd_getenv bnd_requireEnv zoho_required_def
               split: if_splits)
  qed
qed

lemmas run_defs =
  bnd_def ret_def raise_def getenv_def requireEnv_def try_catch_def log_def js_dot_def
  zoho_http_def shopify_http_def zoho_respond_def shopify_respond_def
  zohoFetch_def getZohoAccessToken_def shopifyFetch_def

lemmas shopify_defs =
  findVariantBySKU_def getPrimaryLocationId_def getLocationIdForItem_def
  updateVariantPrice_def setInventoryLevel_def variant_docs_def level_docs_def set_price_def
  js_or_def js_and_def js_nc_def number_and_def zohoPrice_def available_of_def
  sync_price_def sync_stock_def syncItem_def page_items_def no_items_def has_more_page_def
  sync_page_body_def sync_page_def listZohoItemsPaged_def

lemmas demo_defs =
  demo_world_def demo_env_def demo_zoho_def demo_shopify_def demo_platform_def
  item_A_def variant_A_def

lemma token_unconfigured:
  "getZohoAccessToken world_unconfigured =
     (Inr (JStr ''tok''), world_unconfigured\<lparr>calls := [Zoho PostToken]\<rparr>)"
  by (simp add: world_unconfigured_def demo_defs run_defs)

text \<open>
  Claim C8, as amended. A storefront request made while the access token or the store
  domain is missing, and a backend request made while one of the four token credentials
  is missing, fails with the error \<open>NotDefined\<close> that names the first missing value;
  nothing is sent and the world is as before, so only that call fails. A backend request
  made while the base URL or the organisation id is missing first runs the token
  exchange: if the exchange fails the call fails with the exchange's error, otherwise
  with the \<open>NotDefined\<close> error naming the first of the two that is missing.
\<close>

theorem missing_configuration:
  "(List.find (\<lambda>n. absent (env w n)) shopify_required = Some n1 \<longrightarrow>
      shopifyFetch r w = (Inl (NotDefined n1), w))
   \<and> (List.find (\<lambda>n. absent (env w n)) zoho_token_required = Some n2 \<longrightarrow>
      zohoFetch z w = (Inl (NotDefined n2), w))
   \<and> (List.find (\<lambda>n. absent (env w n)) zoho_required = Some n3 \<longrightarrow>
      zohoFetch z w =
        (case getZohoAccessToken w of
           (Inl e, w') \<Rightarrow> (Inl e, w')
         | (Inr tok, w') \<Rightarrow> (Inl (NotDefined n3), w')))"
  by (simp add: shopifyFetch_absent zohoFetch_absent_early zohoFetch_absent_late)

theorem missing_configuration_witness:
  "shopifyFetch GetShop world_unconfigured
     = (Inl (NotDefined ''SHOPIFY_STORE_DOMAIN''), world_unconfigured)
   \<and> zohoFetch (GetItemsPage 1) world_no_client_id
     = (Inl (NotDefined ''ZOHO_CLIENT_ID''), world_no_client_id)
   \<and> zohoFetch (GetItemsPage 1) world_unconfigured
     = (Inl (NotDefined ''ZOHO_ORG_ID''), world_unconfigured\<lparr>calls := [Zoho PostToken]\<rparr>)"
proof -
  have f1: "List.find (\<lambda>n. absent (env world_unconfigured n)) shopify_required
              = Some ''SHOPIFY_STORE_DOMAIN''"
    by (simp add: shopify_required_def absent_def world_unconfigured_def demo_world_def demo_env_def)
  have f2: "List.find (\<lambda>n. absent (env world_no_client_id n)) zoho_token_required
              = Some ''ZOHO_CLIENT_ID''"
    by (simp add: zoho_token_required_def absent_def world_no_client_id_def demo_world_def
          demo_env_def)
  have f3: "List.find (\<lambda>n. absent (env world_unconfigured n)) zoho_required
              = Some ''ZOHO_ORG_ID''"
    by (simp add: zoho_required_def absent_def world_unconfigured_def demo_world_def demo_env_def)
  show ?thesis
    using missing_configuration[of world_unconfigured "''SHOPIFY_STORE_DOMAIN''" GetShop
            "''ZOHO_CLIENT_ID''" "GetItemsPage 1" "''ZOHO_ORG_ID''"]
          missing_configuration[of world_no_client_id "''SHOPIFY_STORE_DOMAIN''" GetShop
            "''ZOHO_CLIENT_ID''" "GetItemsPage 1" "''ZOHO_ORG_ID''"]
    by (simp only: f1 f2 f3 token_unconfigured) simp
qed

text \<open>
  The claim as first stated fails: with no organisation id configured and the token
  endpoint answering 500, a backend request fails with the token error, which names no
  missing value.
\<close>

theorem missing_configuration_counterexample:
  "absent (env world_token_down ''ZOHO_ORG_ID'')
   \<and> fst (zohoFetch (GetItemsPage 1) world_token_down) = Inl (ZohoTokenStatus 500 ''down'')"
  by (simp add: run_defs demo_defs world_token_down_def absent_def)

section \<open>Laws of sequencing\<close>

lemma bnd_assoc: "bnd (bnd m f) g = bnd m (\<lambda>x. bnd (f x) g)"
  by (auto simp: bnd_def fun_eq_iff split: prod.splits sum.splits)


lemma try_catch_Inr: "m w = (Inr x, w') \<Longrightarrow> try_catch m h w = (Inr x, w')"
  by (simp add: try_catch_def)

lemma try_catch_Inl: "m w = (Inl e, w') \<Longrightarrow> try_catch m h w = h e w'"
  by (simp add: try_catch_def)

section \<open>The gate of the backend webhook\<close>

lemma zoho_authorized_fails:
  assumes "case rq_headers req ''x-zoho-webhook-signature'' of
             Some (c # cs) \<Rightarrow>
               p_unbase64 P (js_trim (c # cs))
                 \<noteq> p_unbase64 P (p_base64 P (p_hmac_sha256 P secret (zoho_raw_body P req)))
               \<and> toLowerCase (js_trim (c # cs))
                 \<noteq> toLowerCase (p_hex P (p_hmac_sha256 P secret (zoho_raw_body P req)))
           | _ \<Rightarrow> True"
    and "rq_headers req ''x-webhook-secret'' \<noteq> Some secret"
    and "rq_headers req ''x-zoho-webhook-secret'' \<noteq> Some secret"
    and "map_option strip_bearer (rq_headers req ''authorization'') \<noteq> Some secret"
  shows "\<not> zoho_authorized P secret req"
  using assms
  by (auto simp: zoho_authorized_def zoho_signature_ok_def zoho_header_secret_def Let_def
           split: option.splits list.splits if_splits)

text \<open>
  Claim C1. Let the configured secret be \<open>secret\<close>. If the signature header is missing or
  empty, or its trimmed value matches the HMAC of the body neither decoded from base64
  nor as hex text, and none of the three shared-secret headers (the Authorization header
  after its Bearer prefix is removed) is the secret, then the handler answers 401 and
  leaves the world as it was: the list of vendor requests is unchanged, so neither
  vendor is called. The same holds when no secret is configured at all.
\<close>

theorem zoho_webhook_rejects_unauthorized:
  assumes "absent (env w ''ZOHO_WEBHOOK_SECRET'')
           \<or> (env w ''ZOHO_WEBHOOK_SECRET'' = Some secret
              \<and> (case rq_headers req ''x-zoho-webhook-signature'' of
                    Some (c # cs) \<Rightarrow>
                      p_unbase64 P (js_trim (c # cs))
                        \<noteq> p_unbase64 P (p_base64 P (p_hmac_sha256 P secret (zoho_raw_body P req)))
                      \<and> toLowerCase (js_trim (c # cs))
                        \<noteq> toLowerCase (p_hex P (p_hmac_sha256 P secret (zoho_raw_body P req)))
                  | _ \<Rightarrow> True)
              \<and> rq_headers req ''x-webhook-secret'' \<noteq> Some secret
              \<and> rq_headers req ''x-zoho-webhook-secret'' \<noteq> Some secret
              \<and> map_option strip_bearer (rq_headers req ''authorization'') \<noteq> Some secret)"
  shows "zohoWebhook P req w = (Inr unauthorized, w)
         \<and> rp_status unauthorized = 401
         \<and> calls (snd (zohoWebhook P req w)) = calls w"
proof -
  have st: "rp_status unauthorized = 401" by (simp add: unauthorized_def)
  from assms have "zohoWebhook P req w = (Inr unauthorized, w)"
  proof
    assume "absent (env w ''ZOHO_WEBHOOK_SECRET'')"
    then show ?thesis
      by (auto simp: zohoWebhook_def try_catch_def bnd_getenv ret_def absent_def)
  next
    assume a: "env w ''ZOHO_WEBHOOK_SECRET'' = Some secret
              \<and> (case rq_headers req ''x-zoho-webhook-signature'' of
                    Some (c # cs) \<Rightarrow>
                      p_unbase64 P (js_trim (c # cs))
                        \<noteq> p_unbase64 P (p_base64 P (p_hmac_sha256 P secret (zoho_raw_body P req)))
                      \<and> toLowerCase (js_trim (c # cs))
                        \<noteq> toLowerCase (p_hex P (p_hmac_sha256 P secret (zoho_raw_body P req)))
                  | _ \<Rightarrow> True)
              \<and> rq_headers req ''x-webhook-secret'' \<noteq> Some secret
              \<and> rq_headers req ''x-zoho-webhook-secret'' \<noteq> Some secret
              \<and> map_option strip_bearer (rq_headers req ''authorization'') \<noteq> Some secret"
    then have "\<not> zoho_authorized P secret req"
      using zoho_authorized_fails[where req=req and P=P and secret=secret] by blast
    then show ?thesis using a
      by (auto simp: zohoWebhook_def try_catch_def bnd_getenv ret_def split: list.splits)
  qed
  then show ?thesis using st by simp
qed

theorem zoho_webhook_rejects_unauthorized_witness:
  "zohoWebhook demo_platform forged_request demo_world = (Inr unauthorized, demo_world)
   \<and> rp_status unauthorized = 401
   \<and> calls (snd (zohoWebhook demo_platform forged_request demo_world)) = []"
  using zoho_webhook_rejects_unauthorized[where w=demo_world and secret="''s3cret''"
          and req=forged_request and P=demo_platform]
  by (simp add: forged_request_def demo_defs js_trim_def is_space_def toLowerCase_def
        lower_char_def upper_latin1_def lower_latin1_def zoho_raw_body_def absent_def strip_bearer_def)

section \<open>The gate of the storefront webhook\<close>

lemma order_process_status:
  "order_process P req w = (Inr r, w') \<Longrightarrow> rp_status r = 200"
  by (auto simp: order_process_def bnd_def ret_def Let_def split: prod.splits sum.splits if_splits)

lemma order_guarded_status:
  assumes "\<And>r w'. m w = (Inr r, w') \<Longrightarrow> rp_status r \<in> S" "500 \<in> S"
  shows "\<exists>r w'. try_catch m (order_failed P) w = (Inr r, w') \<and> rp_status r \<in> S"
proof (cases "m w")
  case (Pair res w')
  show ?thesis
  proof (cases res)
    case (Inl e)
    then show ?thesis using Pair assms(2)
      by (simp add: try_catch_def order_failed_def bnd_def log_def ret_def)
  next
    case (Inr r)
    then show ?thesis using Pair assms(1)[of r w'] by (simp add: try_catch_def)
  qed
qed

lemma order_gate_dev: "order_gate P True s h rb w = (Inr v, w') \<Longrightarrow> v"
  by (auto simp: order_gate_def bnd_def log_def ret_def split: prod.splits sum.splits if_splits)

lemma keeps_env_order_raw_body: "keeps env (order_raw_body P req)"
  by (auto simp: keeps_def order_raw_body_def bnd_def log_def ret_def
           split: option.splits json.splits)

lemma orderCreated_dev_status:
  assumes dev: "env w ''NODE_ENV'' = Some ''development''"
  shows "\<exists>r w'. orderCreated P req w = (Inr r, w') \<and> rp_status r \<in> {200, 500}"
  unfolding orderCreated_def
proof (rule order_guarded_status)
  fix r w'
  assume a: "bnd (getenv ''SHOPIFY_WEBHOOK_SHARED_SECRET'') (\<lambda>SHOPIFY_SECRET.
        bnd (getenv ''NODE_ENV'') (\<lambda>node_env.
          let hmac = rq_headers req ''x-shopify-hmac-sha256'' in
          bnd (order_raw_body P req) (\<lambda>rawBody.
          bnd (order_gate P (node_env = Some ''development'') SHOPIFY_SECRET hmac rawBody) (\<lambda>hmacValid.
            if \<not> hmacValid then
              bnd (log ERROR ''HMAC verification failed'' []) (\<lambda>_.
                ret \<lparr>rp_status = 401, rp_payload = JStr ''Invalid HMAC''\<rparr>)
            else order_process P req)))) w = (Inr r, w')"
  obtain x w1 where rb: "order_raw_body P req w = (x, w1)"
    by (cases "order_raw_body P req w")
  show "rp_status r \<in> {200, 500}"
  proof (cases x)
    case (Inl e)
    then show ?thesis using a rb dev by (simp add: bnd_getenv Let_def bnd_Inl)
  next
    case (Inr raw)
    obtain g w2 where gt: "order_gate P True (env w ''SHOPIFY_WEBHOOK_SHARED_SECRET'')
         (rq_headers req ''x-shopify-hmac-sha256'') raw w1 = (g, w2)"
      by (cases "order_gate P True (env w ''SHOPIFY_WEBHOOK_SHARED_SECRET'')
         (rq_headers req ''x-shopify-hmac-sha256'') raw w1")
    show ?thesis
    proof (cases g)
      case (Inl e)
      then show ?thesis using a rb dev Inr gt by (simp add: bnd_getenv Let_def bnd_Inr bnd_Inl)
    next
      case (Inr v)
      then have v using order_gate_dev gt by blast
      then show ?thesis
        using a rb dev \<open>x = Inr raw\<close> gt Inr order_process_status[of P req w2 r w']
        by (simp add: bnd_getenv Let_def bnd_Inr)
    qed
  qed
qed simp


lemma orderCreated_dev_bad_header:
  assumes dev: "env w ''NODE_ENV'' = Some ''development''"
    and hdr: "\<not> absent (rq_headers req ''x-shopify-hmac-sha256'')"
    and raw: "order_raw_body P req w = (Inr raw, w1)"
    and bad: "verifyHmac P (env w ''SHOPIFY_WEBHOOK_SHARED_SECRET'')
                (rq_headers req ''x-shopify-hmac-sha256'') raw w1 = (Inr False, w1)"
  shows "orderCreated P req w =
           try_catch
             (bnd (order_raw_body P req) (\<lambda>rawBody.
              bnd (log WARN ''Development mode: HMAC failed but continuing anyway'' []) (\<lambda>_.
                order_process P req)))
             (order_failed P) w"
proof -
  have g: "order_gate P True (env w ''SHOPIFY_WEBHOOK_SHARED_SECRET'')
             (rq_headers req ''x-shopify-hmac-sha256'') raw w1
           = bnd (log WARN ''Development mode: HMAC failed but continuing anyway'' [])
               (\<lambda>_. ret True) w1"
    using hdr bad
    by (auto simp: order_gate_def absent_def bnd_Inr split: option.splits list.splits)
  have "bnd (getenv ''SHOPIFY_WEBHOOK_SHARED_SECRET'') (\<lambda>SHOPIFY_SECRET.
        bnd (getenv ''NODE_ENV'') (\<lambda>node_env.
          let hmac = rq_headers req ''x-shopify-hmac-sha256'' in
          bnd (order_raw_body P req) (\<lambda>rawBody.
          bnd (order_gate P (node_env = Some ''development'') SHOPIFY_SECRET hmac rawBody) (\<lambda>hmacValid.
            if \<not> hmacValid then
              bnd (log ERROR ''HMAC verification failed'' []) (\<lambda>_.
                ret \<lparr>rp_status = 401, rp_payload = JStr ''Invalid HMAC''\<rparr>)
            else order_process P req)))) w
     = bnd (order_raw_body P req) (\<lambda>rawBody.
              bnd (log WARN ''Development mode: HMAC failed but continuing anyway'' []) (\<lambda>_.
                order_process P req)) w"
    using dev raw g
    by (simp add: bnd_getenv Let_def bnd_Inr) (simp add: bnd_def log_def ret_def)
  then show ?thesis
    by (simp add: orderCreated_def try_catch_def)
qed



text \<open>
  Claim C10. In development mode the handler never answers 401, whatever the request:
  the reply is 200 or 500. In particular a request whose header is present and whose
  verification returns false is not rejected: the failure is logged and the order is
  parsed and processed.
\<close>

theorem dev_never_rejects:
  assumes "env w ''NODE_ENV'' = Some ''development''"
  shows "(\<exists>r w'. orderCreated P req w = (Inr r, w') \<and> rp_status r \<in> {200, 500})
         \<and> (\<forall>raw w1.
               \<not> absent (rq_headers req ''x-shopify-hmac-sha256'')
               \<and> order_raw_body P req w = (Inr raw, w1)
               \<and> verifyHmac P (env w ''SHOPIFY_WEBHOOK_SHARED_SECRET'')
                    (rq_headers req ''x-shopify-hmac-sha256'') raw w1 = (Inr False, w1)
               \<longrightarrow> orderCreated P req w =
                     try_catch
                       (bnd (order_raw_body P req) (\<lambda>rawBody.
                        bnd (log WARN ''Development mode: HMAC failed but continuing anyway'' []) (\<lambda>_.
                          order_process P req)))
                       (order_failed P) w)"
  using orderCreated_dev_status[OF assms] orderCreated_dev_bad_header[OF assms]
  by blast

theorem dev_never_rejects_witness:
  "env dev_world ''NODE_ENV'' = Some ''development''
   \<and> \<not> absent (rq_headers missigned_order_request ''x-shopify-hmac-sha256'')
   \<and> fst (verifyHmac demo_platform (env dev_world ''SHOPIFY_WEBHOOK_SHARED_SECRET'')
        (rq_headers missigned_order_request ''x-shopify-hmac-sha256'') (Some ''{}'') dev_world)
      = Inr False
   \<and> (\<exists>r w'. orderCreated demo_platform missigned_order_request dev_world = (Inr r, w')
              \<and> rp_status r \<in> {200, 500})
   \<and> orderCreated demo_platform missigned_order_request dev_world =
        try_catch
          (bnd (order_raw_body demo_platform missigned_order_request) (\<lambda>rawBody.
           bnd (log WARN ''Development mode: HMAC failed but continuing anyway'' []) (\<lambda>_.
             order_process demo_platform missigned_order_request)))
          (order_failed demo_platform) dev_world"
proof -
  have h1: "env dev_world ''NODE_ENV'' = Some ''development''"
    by (simp add: dev_world_def demo_world_def)
  have h2: "\<not> absent (rq_headers missigned_order_request ''x-shopify-hmac-sha256'')"
    by (simp add: missigned_order_request_def absent_def)
  have h3: "verifyHmac demo_platform (env dev_world ''SHOPIFY_WEBHOOK_SHARED_SECRET'')
        (rq_headers missigned_order_request ''x-shopify-hmac-sha256'') (Some ''{}'') v
      = (Inr False, v)" for v
    by (simp add: verifyHmac_def missigned_order_request_def dev_world_def demo_defs ret_def)
  have h4: "order_raw_body demo_platform missigned_order_request dev_world
      = (Inr (Some ''{}''),
         dev_world\<lparr>console := console dev_world @ [(LOG, ''Using request.rawBody for HMAC'', [])]\<rparr>)"
    by (simp add: order_raw_body_def missigned_order_request_def bnd_def log_def ret_def)
  show ?thesis
    using dev_never_rejects[where P=demo_platform and req=missigned_order_request, OF h1]
      h1 h2 h3 h4
    by (metis fst_conv)
qed

section \<open>Running the storefront client\<close>

named_theorems exec

lemma bnd_log [exec]: "bnd (log l m a) f w = f () (w\<lparr>console := console w @ [(l, m, a)]\<rparr>)"
  by (simp add: bnd_def log_def)

lemma bnd_js_dot [exec]:
  "bnd (js_dot v k) f w = (if js_nullish v then (Inl TypeError, w) else f (js_get v k) w)"
  by (simp add: bnd_def js_dot_def raise_def ret_def)

lemma bnd_shopify_http [exec]:
  "bnd (shopify_http r) f w =
     f (fst (shopify_respond r (shopify w)))
       (w\<lparr>shopify := snd (shopify_respond r (shopify w)), calls := calls w @ [Shopify r]\<rparr>)"
  by (simp add: bnd_def shopify_http_def split: prod.splits)

lemma bnd_zoho_http [exec]:
  "bnd (zoho_http r) f w =
     f (fst (zoho_respond r (zoho w)))
       (w\<lparr>zoho := snd (zoho_respond r (zoho w)), calls := calls w @ [Zoho r]\<rparr>)"
  by (simp add: bnd_def zoho_http_def split: prod.splits)

lemmas [exec] = bnd_getenv bnd_requireEnv bnd_ret bnd_raise ret_def raise_def

lemma shopifyFetch_eq:
  "shopifyFetch r w =
     (if absent (env w ''SHOPIFY_ACCESS_TOKEN'') then (Inl (NotDefined ''SHOPIFY_ACCESS_TOKEN''), w)
      else if absent (env w ''SHOPIFY_STORE_DOMAIN'') then (Inl (NotDefined ''SHOPIFY_STORE_DOMAIN''), w)
      else (case fst (shopify_respond r (shopify w)) of
              Inl (st, b) \<Rightarrow> Inl (ShopifyStatus st b)
            | Inr d \<Rightarrow> Inr d,
            w\<lparr>shopify := snd (shopify_respond r (shopify w)), calls := calls w @ [Shopify r]\<rparr>))"
  by (simp add: shopifyFetch_def exec split: sum.splits prod.splits)

lemma find_by_sku_objects:
  "\<forall>v\<in>set vs. \<not> js_nullish v \<Longrightarrow> find_by_sku sku vs w = (Inr (exact_match sku vs), w)"
  by (induction vs) (auto simp: exact_match_def exec)

lemma find_by_sku_docs:
  "find_by_sku sku (variant_docs S q) w = (Inr (exact_match sku (variant_docs S q)), w)"
  by (rule find_by_sku_objects) (auto simp: variant_docs_def)

lemma findVariantBySKU_eq:
  "findVariantBySKU sku w =
     (if absent (env w ''SHOPIFY_ACCESS_TOKEN'') then (Inl (NotDefined ''SHOPIFY_ACCESS_TOKEN''), w)
      else if absent (env w ''SHOPIFY_STORE_DOMAIN'') then (Inl (NotDefined ''SHOPIFY_STORE_DOMAIN''), w)
      else (case sh_fault (shopify w) (GetVariantsBySku sku) of
              Some (st, b) \<Rightarrow> Inl (ShopifyStatus st b)
            | None \<Rightarrow> Inr (chosen_variant (shopify w) sku),
            w\<lparr>calls := calls w @ [Shopify (GetVariantsBySku sku)]\<rparr>))"
  by (simp add: findVariantBySKU_def bnd_def shopifyFetch_eq shopify_respond_def
        find_by_sku_docs js_dot_def js_or_def chosen_variant_def ret_def raise_def
        split: option.splits)

lemma keeps_bnd_snd: "(\<And>x. keeps f (g x)) \<Longrightarrow> f (snd (bnd m g w)) = f (snd (m w))"
  by (auto simp: bnd_def keeps_def split: prod.splits sum.splits)

lemma keeps_fixed_shopifyFetch [keeps_intros]: "keeps fixed_part (shopifyFetch r)"
  by (cases r) (auto simp: keeps_def shopifyFetch_eq fixed_part_def shopify_respond_def split: option.splits)

lemma keeps_price_calls_fetch:
  "(\<And>i p. r \<noteq> PutVariantPrice i p) \<Longrightarrow> keeps (\<lambda>w. price_calls (calls w)) (shopifyFetch r)"
  by (cases r) (auto simp: keeps_def shopifyFetch_eq price_calls_def)

lemma keeps_variants_fetch:
  "(\<And>i p. r \<noteq> PutVariantPrice i p) \<Longrightarrow> keeps (\<lambda>w. sh_variants (shopify w)) (shopifyFetch r)"
  by (cases r) (auto simp: keeps_def shopifyFetch_eq shopify_respond_def split: option.splits)

lemma keeps_setInventoryLevel:
  assumes "\<And>r. (\<And>i p. r \<noteq> PutVariantPrice i p) \<Longrightarrow> keeps f (shopifyFetch r)"
  shows "keeps f (setInventoryLevel P i a l)"
  unfolding setInventoryLevel_def getLocationIdForItem_def getPrimaryLocationId_def Let_def
  by (auto intro!: keeps_intros assms split: option.splits list.splits)

lemma keeps_sync_stock:
  assumes "\<And>r. (\<And>i p. r \<noteq> PutVariantPrice i p) \<Longrightarrow> keeps f (shopifyFetch r)"
  shows "keeps f (sync_stock P item v)"
  unfolding sync_stock_def
  by (auto intro!: keeps_intros keeps_setInventoryLevel assms split: json.splits)

lemma sync_price_eq:
  "sync_price P item v w =
     (if zohoPrice P item \<noteq> [] \<and> \<not> js_strict_eq (js_get v ''price'') (JStr (zohoPrice P item))
      then (case shopifyFetch (PutVariantPrice (js_get v ''id'') (zohoPrice P item)) w of
              (Inl e, w') \<Rightarrow> (Inl e, w') | (Inr d, w') \<Rightarrow> (Inr (), w'))
      else (Inr (), w))"
  by (simp add: sync_price_def updateVariantPrice_def bnd_def ret_def split: prod.splits sum.splits)

lemma syncItem_resolved:
  assumes "js_truthy (js_get item ''sku'')"
    and "findVariantBySKU (js_get item ''sku'') w = (Inr v, w1)"
    and "js_truthy v"
  shows "syncItem P item w = bnd (sync_price P item v) (\<lambda>_. sync_stock P item v) w1"
proof -
  have "\<not> js_nullish item" using assms(1) by (cases item) auto
  then show ?thesis using assms by (simp add: syncItem_def exec bnd_Inr)
qed

lemma findVariantBySKU_Inr:
  assumes "findVariantBySKU sku w = (Inr v, w1)"
  shows "\<not> absent (env w ''SHOPIFY_ACCESS_TOKEN'')" "\<not> absent (env w ''SHOPIFY_STORE_DOMAIN'')"
    "sh_fault (shopify w) (GetVariantsBySku sku) = None"
    "v = chosen_variant (shopify w) sku"
    "w1 = w\<lparr>calls := calls w @ [Shopify (GetVariantsBySku sku)]\<rparr>"
  using assms by (auto simp: findVariantBySKU_eq split: if_splits option.splits)

lemma price_calls_append [simp]: "price_calls (xs @ ys) = price_calls xs @ price_calls ys"
  by (simp add: price_calls_def)

lemma syncItem_price_calls:
  assumes "js_truthy (js_get item ''sku'')"
    and "findVariantBySKU (js_get item ''sku'') w = (Inr v, w1)"
    and "js_truthy v"
  shows "price_calls (calls (snd (syncItem P item w))) =
           price_calls (calls w)
           @ (if zohoPrice P item \<noteq> [] \<and> \<not> js_strict_eq (js_get v ''price'') (JStr (zohoPrice P item))
              then [Shopify (PutVariantPrice (js_get v ''id'') (zohoPrice P item))] else [])"
proof -
  note f = findVariantBySKU_Inr[OF assms(2)]
  have "price_calls (calls (snd (syncItem P item w)))
          = price_calls (calls (snd (sync_price P item v w1)))"
    unfolding syncItem_resolved[OF assms]
    by (rule keeps_bnd_snd) (rule keeps_sync_stock, rule keeps_price_calls_fetch)
  also have "\<dots> = price_calls (calls w)
           @ (if zohoPrice P item \<noteq> [] \<and> \<not> js_strict_eq (js_get v ''price'') (JStr (zohoPrice P item))
              then [Shopify (PutVariantPrice (js_get v ''id'') (zohoPrice P item))] else [])"
    using f(1,2) by (simp add: sync_price_eq shopifyFetch_eq f(5) price_calls_def split: sum.splits prod.splits)
  finally show ?thesis .
qed


lemma js_get_set_price_other: "k \<noteq> ''price'' \<Longrightarrow> js_get (JObj (set_price i p d)) k = js_get (JObj d) k"
  by (simp add: set_price_def update_conv')

lemma js_get_reprice_other: "k \<noteq> ''price'' \<Longrightarrow> js_get (reprice i p v) k = js_get v k"
  by (cases v) (simp_all add: reprice_def set_price_def update_conv')

lemma js_truthy_reprice [simp]: "js_truthy (reprice i p v) = js_truthy v"
  by (cases v) (simp_all add: reprice_def)

lemma variant_docs_reprice:
  "variant_docs (S\<lparr>sh_variants := map (set_price i p) (sh_variants S)\<rparr>) q
     = map (reprice i p) (variant_docs S q)"
  by (simp add: variant_docs_def reprice_def)

lemma find_map: "List.find Q (map f xs) = map_option f (List.find (Q \<circ> f) xs)"
  by (induction xs) auto

lemma exact_match_reprice:
  "exact_match sku (map (reprice i p) vs) = reprice i p (exact_match sku vs)"
proof -
  have "(\<lambda>v. js_strict_eq (js_get v ''sku'') sku) \<circ> reprice i p
          = (\<lambda>v. js_strict_eq (js_get v ''sku'') sku)"
    by (simp add: fun_eq_iff js_get_reprice_other)
  then show ?thesis
    by (simp add: exact_match_def find_map reprice_def split: option.splits)
qed

lemma js_first_reprice: "js_first (JArr (map (reprice i p) vs)) = reprice i p (js_first (JArr vs))"
  by (cases vs) (simp_all add: reprice_def)

lemma js_or_reprice: "js_or (reprice i p a) (reprice i p b) = reprice i p (js_or a b)"
  by (simp add: js_or_def)

lemma chosen_variant_reprice:
  "chosen_variant (S\<lparr>sh_variants := map (set_price i p) (sh_variants S)\<rparr>) sku
     = reprice i p (chosen_variant S sku)"
proof -
  have n: "JNull = reprice i p JNull" by (simp add: reprice_def)
  have "chosen_variant (S\<lparr>sh_variants := map (set_price i p) (sh_variants S)\<rparr>) sku
      = js_or (js_or (reprice i p (exact_match sku (variant_docs S sku)))
                     (reprice i p (js_first (JArr (variant_docs S sku)))))
              (reprice i p JNull)"
    unfolding chosen_variant_def variant_docs_reprice exact_match_reprice js_first_reprice
    using n by simp
  then show ?thesis
    by (simp only: js_or_reprice chosen_variant_def)
qed




lemma put_price_Inr:
  assumes "shopifyFetch (PutVariantPrice i p) w = (Inr d, w')"
  shows "shopify w' = (shopify w)\<lparr>sh_variants :=
           map (set_price i (sh_price_text (shopify w) p)) (sh_variants (shopify w))\<rparr>"
  using assms
  by (auto simp: shopifyFetch_eq shopify_respond_def split: if_splits option.splits sum.splits)


lemma keeps_fixed_sync_stock: "keeps fixed_part (sync_stock P item v)"
  by (rule keeps_sync_stock) (rule keeps_fixed_shopifyFetch)

lemma keeps_variants_sync_stock: "keeps (\<lambda>w. sh_variants (shopify w)) (sync_stock P item v)"
  by (rule keeps_sync_stock) (rule keeps_variants_fetch)

lemma chosen_variant_cong:
  "sh_variants S' = sh_variants S \<Longrightarrow> sh_search S' = sh_search S
   \<Longrightarrow> chosen_variant S' sku = chosen_variant S sku"
  by (simp add: chosen_variant_def variant_docs_def)

lemma fixed_partD:
  assumes "fixed_part w' = fixed_part w"
  shows "env w' = env w" "sh_search (shopify w') = sh_search (shopify w)"
    "sh_fault (shopify w') = sh_fault (shopify w)" "sh_shop (shopify w') = sh_shop (shopify w)"
    "z_fault (zoho w') = z_fault (zoho w)" "z_token (zoho w') = z_token (zoho w)"
    "z_items_page (zoho w') = z_items_page (zoho w)"
    "z_items_search (zoho w') = z_items_search (zoho w)" "z_item (zoho w') = z_item (zoho w)"
    "sh_price_text (shopify w') = sh_price_text (shopify w)"
  using assms by (simp_all add: fixed_part_def)

lemma syncItem_demo:
  "syncItem demo_platform (JObj item_A) demo_world =
     (Inr (),
      demo_world\<lparr>shopify := demo_shopify\<lparr>sh_variants :=
                     [[(''id'', JNum (Fin 1)), (''sku'', JStr ''A''), (''price'', JStr ''12''),
                       (''inventory_item_id'', JNum (Fin 11))]]\<rparr>,
                 calls := [Shopify (GetVariantsBySku (JStr ''A'')),
                           Shopify (PutVariantPrice (JNum (Fin 1)) ''12'')]\<rparr>)"
  by (simp add: run_defs shopify_defs demo_defs Let_def)

section \<open>The stock step of the sync run\<close>

lemma available_of_not_number:
  "\<not> is_number (js_get item ''available_stock'') \<Longrightarrow> available_of item = JBool False"
  by (simp add: available_of_def number_and_def js_and_def js_nc_def)

lemma sync_stock_not_number:
  "\<not> is_number (js_get item ''available_stock'') \<Longrightarrow> sync_stock P item v = ret ()"
  by (simp add: sync_stock_def available_of_not_number)

text \<open>
  Claim C5, at a failing input. The backend item A exposes a numeric \<open>stock_on_hand\<close> (5)
  and no \<open>available_stock\<close>; its SKU resolves to a storefront variant. The loop body
  runs without an error, updates the price and issues no inventory update: the first
  operand of \<^verbatim>\<open>??\<close> is \<open>false\<close>, not null, when \<open>available_stock\<close> is not a number, so
  the two other fields are never looked at.
\<close>

theorem sync_ignores_stock_on_hand:
  "js_get (JObj item_A) ''stock_on_hand'' = JNum (Fin 5)
   \<and> available_of (JObj item_A) = JBool False
   \<and> fst (syncItem demo_platform (JObj item_A) demo_world) = Inr ()
   \<and> calls (snd (syncItem demo_platform (JObj item_A) demo_world))
        = [Shopify (GetVariantsBySku (JStr ''A'')), Shopify (PutVariantPrice (JNum (Fin 1)) ''12'')]
   \<and> stock_calls (calls (snd (syncItem demo_platform (JObj item_A) demo_world))) = []"
proof -
  have "js_get (JObj item_A) ''stock_on_hand'' = JNum (Fin 5)"
    and "\<not> is_number (js_get (JObj item_A) ''available_stock'')"
    by (simp_all add: item_A_def)
  then show ?thesis
    by (simp add: syncItem_demo stock_calls_def available_of_not_number)
qed

section \<open>Running the backend client and the pagination loop\<close>

lemma getZohoAccessToken_eq:
  "getZohoAccessToken w =
     (case List.find (\<lambda>n. absent (env w n)) zoho_token_required of
        Some n \<Rightarrow> (Inl (NotDefined n), w)
      | None \<Rightarrow>
          (case z_fault (zoho w) PostToken of
             Some (st, b) \<Rightarrow> Inl (ZohoTokenStatus st b)
           | None \<Rightarrow> Inr (js_get (JObj (z_token (zoho w))) ''access_token''),
           w\<lparr>calls := calls w @ [Zoho PostToken]\<rparr>))"
  by (simp add: getZohoAccessToken_def zoho_token_required_def exec zoho_respond_def js_dot_def
           split: option.splits)

lemma zoho_respond_reads: "zoho_reads r \<Longrightarrow> snd (zoho_respond r Z) = Z"
  by (cases r) (simp_all add: zoho_respond_def split: option.splits)

lemma bnd_token:
  "bnd getZohoAccessToken f w =
     (case List.find (\<lambda>n. absent (env w n)) zoho_token_required of
        Some n \<Rightarrow> (Inl (NotDefined n), w)
      | None \<Rightarrow>
          (case z_fault (zoho w) PostToken of
             Some (st, b) \<Rightarrow> (Inl (ZohoTokenStatus st b), w\<lparr>calls := calls w @ [Zoho PostToken]\<rparr>)
           | None \<Rightarrow> f (js_get (JObj (z_token (zoho w))) ''access_token'')
                       (w\<lparr>calls := calls w @ [Zoho PostToken]\<rparr>)))"
  by (simp add: bnd_def getZohoAccessToken_eq split: option.splits)

lemma zohoFetch_eq:
  "zohoFetch r w =
     (case List.find (\<lambda>n. absent (env w n)) zoho_token_required of
        Some n \<Rightarrow> (Inl (NotDefined n), w)
      | None \<Rightarrow>
          (case z_fault (zoho w) PostToken of
             Some (st, b) \<Rightarrow> (Inl (ZohoTokenStatus st b), w\<lparr>calls := calls w @ [Zoho PostToken]\<rparr>)
           | None \<Rightarrow>
             (case List.find (\<lambda>n. absent (env w n)) zoho_required of
                Some n \<Rightarrow> (Inl (NotDefined n), w\<lparr>calls := calls w @ [Zoho PostToken]\<rparr>)
              | None \<Rightarrow>
                 (case fst (zoho_respond r (zoho w)) of
                    Inl (st, b) \<Rightarrow> Inl (ZohoApiStatus st b)
                  | Inr d \<Rightarrow> Inr d,
                  w\<lparr>zoho := snd (zoho_respond r (zoho w)),
                     calls := calls w @ [Zoho PostToken, Zoho r]\<rparr>))))"
  by (simp add: zohoFetch_def bnd_token zoho_required_def exec
           split: option.splits sum.splits prod.splits)


lemma keeps_find_by_sku [keeps_intros]: "keeps f (find_by_sku sku vs)"
  by (induction vs) (auto intro!: keeps_intros)

lemma keeps_shopify_client:
  assumes "\<And>r. keeps f (shopifyFetch r)"
  shows "keeps f (findVariantBySKU sku)" "keeps f (updateVariantPrice P i p)"
    "keeps f (setInventoryLevel P i a l)"
  unfolding findVariantBySKU_def updateVariantPrice_def setInventoryLevel_def
    getLocationIdForItem_def getPrimaryLocationId_def Let_def
  by (auto intro!: keeps_intros assms split: option.splits list.splits json.splits)

lemma keeps_syncItem:
  assumes "\<And>r. keeps f (shopifyFetch r)"
  shows "keeps f (syncItem P item)"
  unfolding syncItem_def sync_price_def sync_stock_def
  by (auto intro!: keeps_intros keeps_shopify_client assms split: json.splits)

lemma keeps_zoho_shopifyFetch: "keeps zoho (shopifyFetch r)"
  by (simp add: keeps_def shopifyFetch_eq)

lemma page_requests_append [simp]: "page_requests (xs @ ys) = page_requests xs @ page_requests ys"
  by (simp add: page_requests_def)

lemma page_requests_simps [simp]:
  "page_requests [] = []"
  "page_requests (Shopify r # cs) = page_requests cs"
  "page_requests (Zoho PostToken # cs) = page_requests cs"
  "page_requests (Zoho (GetItemsPage n) # cs) = n # page_requests cs"
  by (simp_all add: page_requests_def)

lemma keeps_pages_shopifyFetch: "keeps (\<lambda>w. page_requests (calls w)) (shopifyFetch r)"
  by (simp add: keeps_def shopifyFetch_eq)

lemma listZohoItemsPaged_cases:
  "(\<exists>e. listZohoItemsPaged page w = (Inl e, w\<lparr>calls := calls w @ [Zoho PostToken, Zoho (GetItemsPage page)]\<rparr>))
   \<or> (\<exists>e w'. listZohoItemsPaged page w = (Inl e, w') \<and> zoho w' = zoho w
        \<and> page_requests (calls w') = page_requests (calls w))
   \<or> listZohoItemsPaged page w
        = (Inr (z_items_page (zoho w) page),
           w\<lparr>calls := calls w @ [Zoho PostToken, Zoho (GetItemsPage page)]\<rparr>)"
  by (auto simp: listZohoItemsPaged_def zohoFetch_eq zoho_respond_def split: option.splits)

lemma keeps_sync_page_body:
  assumes "\<And>r. keeps f (shopifyFetch r)"
  shows "keeps f (sync_page_body P data)"
  unfolding sync_page_body_def
  by (auto intro!: keeps_intros keeps_syncItem assms split: json.splits)

lemma sync_page_body_result: "sync_page_body P data w = (Inr b, w') \<Longrightarrow> b = (\<not> stops_at data)"
  by (auto simp: sync_page_body_def stops_at_def bnd_def js_dot_def ret_def raise_def
           split: if_splits prod.splits sum.splits)

lemma sync_page_eq:
  "sync_page P page w =
     bnd (listZohoItemsPaged page) (sync_page_body P)
       (w\<lparr>console := console w @ [(LOG, ''Zoho sync: fetching page'', [JNum (Fin (of_nat page))])]\<rparr>)"
  by (simp add: sync_page_def exec)

lemma sync_page_cases:
  assumes "sync_page P page w = (res, w')"
  shows "zoho w' = zoho w
         \<and> (case res of
              Inl e \<Rightarrow> page_requests (calls w') = page_requests (calls w)
                       \<or> page_requests (calls w') = page_requests (calls w) @ [page]
            | Inr b \<Rightarrow> page_requests (calls w') = page_requests (calls w) @ [page]
                       \<and> b = (\<not> stops_at (z_items_page (zoho w) page)))"
proof -
  define w0 where "w0 = w\<lparr>console := console w @ [(LOG, ''Zoho sync: fetching page'', [JNum (Fin (of_nat page))])]\<rparr>"
  have run: "bnd (listZohoItemsPaged page) (sync_page_body P) w0 = (res, w')"
    using assms by (simp add: sync_page_eq w0_def)
  have w0: "zoho w0 = zoho w" "calls w0 = calls w" by (simp_all add: w0_def)
  consider (sent) e where "listZohoItemsPaged page w0 = (Inl e, w0\<lparr>calls := calls w0 @ [Zoho PostToken, Zoho (GetItemsPage page)]\<rparr>)"
    | (unsent) e w1 where "listZohoItemsPaged page w0 = (Inl e, w1)" "zoho w1 = zoho w0"
        "page_requests (calls w1) = page_requests (calls w0)"
    | (ok) "listZohoItemsPaged page w0
        = (Inr (z_items_page (zoho w0) page),
           w0\<lparr>calls := calls w0 @ [Zoho PostToken, Zoho (GetItemsPage page)]\<rparr>)"
    using listZohoItemsPaged_cases[of page w0] by blast
  then show ?thesis
  proof cases
    case sent
    then show ?thesis using run w0 by (auto simp: bnd_Inl)
  next
    case unsent
    then show ?thesis using run w0 by (auto simp: bnd_Inl)
  next
    case ok
    define w1 where "w1 = w0\<lparr>calls := calls w0 @ [Zoho PostToken, Zoho (GetItemsPage page)]\<rparr>"
    have body: "sync_page_body P (z_items_page (zoho w) page) w1 = (res, w')"
      using run ok w0 by (simp add: bnd_Inr w1_def)
    have z: "zoho w' = zoho w1"
      using keepsD2[OF keeps_sync_page_body[OF keeps_zoho_shopifyFetch] body] .
    have c: "page_requests (calls w') = page_requests (calls w1)"
      using keepsD2[OF keeps_sync_page_body[where f="\<lambda>w. page_requests (calls w)", OF keeps_pages_shopifyFetch] body] .
    have c1: "page_requests (calls w1) = page_requests (calls w) @ [page]" "zoho w1 = zoho w"
      using w0 by (simp_all add: w1_def)
    show ?thesis
    proof (cases res)
      case (Inl e)
      then show ?thesis using z c c1 by simp
    next
      case (Inr b)
      then show ?thesis using z c c1 sync_page_body_result[of P _ w1 b w'] body by simp
    qed
  qed
qed

lemma stops_two_pages:
  "stops_at (z_items_page (zoho world_two_pages) n) = (n \<noteq> 1)"
  by (simp add: world_two_pages_def demo_world_def demo_zoho_def stops_at_def no_items_def
        has_more_page_def page_items_def js_or_def js_and_def)

section \<open>The order push on a reachable backend\<close>

lemma zoho_okD:
  assumes "zoho_ok w"
  shows "List.find (\<lambda>n. absent (env w n)) zoho_token_required = None"
    "List.find (\<lambda>n. absent (env w n)) zoho_required = None"
    "z_fault (zoho w) r = None"
  using assms
  by (auto simp: zoho_ok_def zoho_token_required_def zoho_required_def split: if_splits)

lemma zoho_ok_fixed: "fixed_part w' = fixed_part w \<Longrightarrow> zoho_ok w' = zoho_ok w"
  by (simp add: zoho_ok_def fixed_part_def)

lemma zohoFetch_ok:
  "zoho_ok w \<Longrightarrow>
   zohoFetch r w =
     (case fst (zoho_serve r (zoho w)) of
        Inl (st, b) \<Rightarrow> Inl (ZohoApiStatus st b)
      | Inr d \<Rightarrow> Inr d,
      w\<lparr>zoho := snd (zoho_serve r (zoho w)), calls := calls w @ [Zoho PostToken, Zoho r]\<rparr>)"
  by (simp add: zohoFetch_eq zoho_okD zoho_respond_def)

lemma find_by_sku_map_JObj:
  "find_by_sku sku (map JObj ds) w = (Inr (exact_match sku (map JObj ds)), w)"
  by (rule find_by_sku_objects) auto

lemma world_zoho_same [simp]: "w\<lparr>zoho := zoho w, calls := c\<rparr> = w\<lparr>calls := c\<rparr>"
  by simp

lemma findZohoItemBySKU_ok:
  "zoho_ok w \<Longrightarrow>
   findZohoItemBySKU sku w =
     (Inr (found_item (zoho w) sku),
      w\<lparr>calls := calls w @ [Zoho PostToken, Zoho (GetItemsSearch sku)]\<rparr>)"
  by (simp add: findZohoItemBySKU_def bnd_def zohoFetch_ok js_dot_def ret_def js_or_def
        find_by_sku_map_JObj found_item_def)

lemma order_calls_append [simp]: "order_calls (xs @ ys) = order_calls xs @ order_calls ys"
  by (simp add: order_calls_def)

lemma unresolved_reports_append [simp]:
  "unresolved_reports (xs @ ys) = unresolved_reports xs @ unresolved_reports ys"
  by (simp add: unresolved_reports_def)

lemma push_lines_ok:
  assumes "zoho_ok w"
  shows "\<exists>w'. push_lines xs w = (Inr (map order_line (filter (mapped_line (zoho w)) xs)), w')
           \<and> zoho w' = zoho w \<and> env w' = env w \<and> shopify w' = shopify w
           \<and> order_calls (calls w') = order_calls (calls w)
           \<and> unresolved_reports (console w') =
               unresolved_reports (console w) @ map skip_report (filter (unresolved_line (zoho w)) xs)"
  using assms
proof (induction xs arbitrary: w)
  case Nil
  then show ?case by (simp add: ret_def)
next
  case (Cons li xs)
  show ?case
  proof (cases "js_truthy (js_get li ''sku'')")
    case False
    define w1 where "w1 = w\<lparr>console := console w @ [(ERROR, ''SO skip line: missing SKU'', [])]\<rparr>"
    have ok1: "zoho_ok w1" using Cons.prems by (simp add: zoho_ok_def w1_def)
    have step: "push_lines (li # xs) w = push_lines xs w1"
      using False by (simp add: exec w1_def)
    from Cons.IH[OF ok1] obtain w' where ih:
      "push_lines xs w1 = (Inr (map order_line (filter (mapped_line (zoho w1)) xs)), w')"
      "zoho w' = zoho w1" "env w' = env w1" "shopify w' = shopify w1"
      "order_calls (calls w') = order_calls (calls w1)"
      "unresolved_reports (console w') =
               unresolved_reports (console w1) @ map skip_report (filter (unresolved_line (zoho w1)) xs)"
      by blast
    have m: "\<not> mapped_line (zoho w) li" "\<not> unresolved_line (zoho w) li"
      using False by (simp_all add: mapped_line_def unresolved_line_def)
    show ?thesis using ih m step
      by (simp add: w1_def unresolved_reports_def)
  next
    case sku: True
    show ?thesis
    proof (cases "is_number (js_get li ''quantity'')")
      case False
      define w1 where "w1 = w\<lparr>console := console w @ [(ERROR, ''SO skip line: invalid quantity'',
               [JObj [(''sku'', js_get li ''sku''), (''quantity'', js_get li ''quantity'')]])]\<rparr>"
      have ok1: "zoho_ok w1" using Cons.prems by (simp add: zoho_ok_def w1_def)
      have step: "push_lines (li # xs) w = push_lines xs w1"
        using False sku by (simp add: exec w1_def)
      from Cons.IH[OF ok1] obtain w' where ih:
        "push_lines xs w1 = (Inr (map order_line (filter (mapped_line (zoho w1)) xs)), w')"
        "zoho w' = zoho w1" "env w' = env w1" "shopify w' = shopify w1"
        "order_calls (calls w') = order_calls (calls w1)"
        "unresolved_reports (console w') =
                 unresolved_reports (console w1) @ map skip_report (filter (unresolved_line (zoho w1)) xs)"
        by blast
      have m: "\<not> mapped_line (zoho w) li" "\<not> unresolved_line (zoho w) li"
        using False by (simp_all add: mapped_line_def unresolved_line_def)
      show ?thesis using ih m step
        by (simp add: w1_def unresolved_reports_def)
    next
      case qty: True
      define w1 where "w1 = w\<lparr>console := console w @ [(LOG, ''SO line'',
               [JObj [(''sku'', js_get li ''sku''), (''qty'', js_get li ''quantity'')]])]\<rparr>"
      have ok1: "zoho_ok w1" using Cons.prems by (simp add: zoho_ok_def w1_def)
      define w2 where "w2 = w1\<lparr>calls := calls w1 @ [Zoho PostToken, Zoho (GetItemsSearch (js_get li ''sku''))]\<rparr>"
      have ok2: "zoho_ok w2" using ok1 by (simp add: zoho_ok_def w2_def)
      show ?thesis
      proof (cases "js_truthy (found_item (zoho w) (js_get li ''sku''))")
        case False
        define w3 where "w3 = w2\<lparr>console := console w2 @ [skip_report li]\<rparr>"
        have ok3: "zoho_ok w3" using ok2 by (simp add: zoho_ok_def w3_def)
        have step: "push_lines (li # xs) w = push_lines xs w3"
          using False sku qty findZohoItemBySKU_ok[OF ok1, of "js_get li ''sku''"]
          by (simp add: exec bnd_Inr w1_def w2_def w3_def skip_report_def)
        from Cons.IH[OF ok3] obtain w' where ih:
          "push_lines xs w3 = (Inr (map order_line (filter (mapped_line (zoho w3)) xs)), w')"
          "zoho w' = zoho w3" "env w' = env w3" "shopify w' = shopify w3"
          "order_calls (calls w') = order_calls (calls w3)"
          "unresolved_reports (console w') =
                   unresolved_reports (console w3) @ map skip_report (filter (unresolved_line (zoho w3)) xs)"
          by blast
        have m: "\<not> mapped_line (zoho w) li" "unresolved_line (zoho w) li"
          using False sku qty by (simp_all add: mapped_line_def unresolved_line_def)
        show ?thesis using ih m step
          by (simp add: w1_def w2_def w3_def unresolved_reports_def order_calls_def
                skip_report_def)
      next
        case True
        have step: "push_lines (li # xs) w =
                      bnd (push_lines xs) (\<lambda>rest. ret (order_line li # rest)) w2"
          using True sku qty findZohoItemBySKU_ok[OF ok1, of "js_get li ''sku''"]
          by (simp add: exec bnd_Inr w1_def w2_def order_line_def)
        from Cons.IH[OF ok2] obtain w' where ih:
          "push_lines xs w2 = (Inr (map order_line (filter (mapped_line (zoho w2)) xs)), w')"
          "zoho w' = zoho w2" "env w' = env w2" "shopify w' = shopify w2"
          "order_calls (calls w') = order_calls (calls w2)"
          "unresolved_reports (console w') =
                   unresolved_reports (console w2) @ map skip_report (filter (unresolved_line (zoho w2)) xs)"
          by blast
        have m: "mapped_line (zoho w) li" "\<not> unresolved_line (zoho w) li"
          using True sku qty by (simp_all add: mapped_line_def unresolved_line_def)
        show ?thesis using ih m step
          by (simp add: bnd_Inr ret_def w1_def w2_def unresolved_reports_def order_calls_def)
      qed
    qed
  qed
qed


lemma found_item_cong:
  "z_items_search Z' = z_items_search Z \<Longrightarrow> found_item Z' sku = found_item Z sku"
  by (simp add: found_item_def)

lemma zoho_lines_ok:
  assumes "zoho_ok w" "\<forall>li\<in>set ls. mapped_line (zoho w) li"
  shows "\<exists>w'. zoho_lines (map order_line ls) w = (Inr (map (sales_line (zoho w)) ls), w')
           \<and> zoho w' = zoho w \<and> env w' = env w \<and> shopify w' = shopify w
           \<and> console w' = console w
           \<and> order_calls (calls w') = order_calls (calls w)"
  using assms
proof (induction ls arbitrary: w)
  case Nil
  then show ?case by (simp add: ret_def)
next
  case (Cons li ls)
  define w1 where "w1 = w\<lparr>calls := calls w @ [Zoho PostToken, Zoho (GetItemsSearch (js_get li ''sku''))]\<rparr>"
  have ok1: "zoho_ok w1" using Cons.prems by (simp add: zoho_ok_def w1_def)
  have m: "js_truthy (found_item (zoho w) (js_get li ''sku''))"
    using Cons.prems by (simp add: mapped_line_def)
  have step: "zoho_lines (map order_line (li # ls)) w =
                bnd (zoho_lines (map order_line ls)) (\<lambda>rest. ret (sales_line (zoho w) li # rest)) w1"
    using m findZohoItemBySKU_ok[OF Cons.prems(1), of "js_get li ''sku''"]
    by (simp add: exec bnd_Inr order_line_def sales_line_def Let_def w1_def)
  have "\<forall>li\<in>set ls. mapped_line (zoho w1) li" using Cons.prems by (simp add: w1_def)
  from Cons.IH[OF ok1 this] obtain w' where ih:
    "zoho_lines (map order_line ls) w1 = (Inr (map (sales_line (zoho w1)) ls), w')"
    "zoho w' = zoho w1" "env w' = env w1" "shopify w' = shopify w1" "console w' = console w1"
    "order_calls (calls w') = order_calls (calls w1)"
    by blast
  show ?case using ih step by (simp add: bnd_Inr ret_def w1_def order_calls_def)
qed

lemma contact_ok:
  assumes "zoho_ok w" "e \<noteq> []"
  shows "\<exists>c w'. getOrCreateZohoContactByEmail (JStr e) name w = (Inr (JObj c), w')
           \<and> fixed_part w' = fixed_part w \<and> shopify w' = shopify w \<and> console w' = console w
           \<and> z_salesorders (zoho w') = z_salesorders (zoho w)
           \<and> order_calls (calls w') = order_calls (calls w)"
proof (cases "z_contacts (zoho w) (JStr e)")
  case Nil
  define w1 where "w1 = w\<lparr>calls := calls w @ [Zoho PostToken, Zoho (GetContactsByEmail (JStr e))]\<rparr>"
  have ok1: "zoho_ok w1" using assms by (simp add: zoho_ok_def w1_def)
  show ?thesis
    using assms Nil zohoFetch_ok[OF assms(1), of "GetContactsByEmail (JStr e)"]
      zohoFetch_ok[OF ok1]
    by (cases "js_truthy name")
       (simp_all add: getOrCreateZohoContactByEmail_def exec bnd_Inr w1_def fixed_part_def
          order_calls_def Let_def js_dot_def)
next
  case (Cons c cs)
  then show ?thesis
    using assms zohoFetch_ok[OF assms(1), of "GetContactsByEmail (JStr e)"]
    by (simp add: getOrCreateZohoContactByEmail_def exec bnd_Inr fixed_part_def order_calls_def)
qed


lemma mapped_line_cong:
  "z_items_search Z' = z_items_search Z \<Longrightarrow> mapped_line Z' li = mapped_line Z li"
  by (simp add: mapped_line_def found_item_def)

lemma sales_line_cong:
  "z_items_search Z' = z_items_search Z \<Longrightarrow> sales_line Z' li = sales_line Z li"
  by (simp add: sales_line_def found_item_def)

lemma createZohoSalesOrder_ok:
  assumes ok: "zoho_ok w" and e: "e \<noteq> []" and ls: "\<forall>li\<in>set ls. mapped_line (zoho w) li"
  shows "\<exists>so cust w'. createZohoSalesOrder (JStr e) name ref (map order_line ls) w = (Inr so, w')
           \<and> js_get so ''line_items'' = JArr (map (sales_line (zoho w)) ls)
           \<and> z_salesorders (zoho w') = z_salesorders (zoho w) @ [so]
           \<and> order_calls (calls w') =
               order_calls (calls w) @ [Zoho (PostSalesOrder cust ref (map (sales_line (zoho w)) ls))]
           \<and> console w' = console w \<and> shopify w' = shopify w"
proof -
  obtain c w1 where c: "getOrCreateZohoContactByEmail (JStr e) name w = (Inr (JObj c), w1)"
    "fixed_part w1 = fixed_part w" "shopify w1 = shopify w" "console w1 = console w"
    "z_salesorders (zoho w1) = z_salesorders (zoho w)"
    "order_calls (calls w1) = order_calls (calls w)"
    using contact_ok[OF ok e] by blast
  have ok1: "zoho_ok w1" using ok zoho_ok_fixed[OF c(2)] by simp
  have zs: "z_items_search (zoho w1) = z_items_search (zoho w)"
    using fixed_partD(8)[OF c(2)] .
  have ls1: "\<forall>li\<in>set ls. mapped_line (zoho w1) li"
    using ls mapped_line_cong[OF zs] by simp
  obtain w2 where l: "zoho_lines (map order_line ls) w1 = (Inr (map (sales_line (zoho w1)) ls), w2)"
    "zoho w2 = zoho w1" "env w2 = env w1" "shopify w2 = shopify w1" "console w2 = console w1"
    "order_calls (calls w2) = order_calls (calls w1)"
    using zoho_lines_ok[OF ok1 ls1] by blast
  have ok2: "zoho_ok w2" using ok1 l(2,3) by (simp add: zoho_ok_def)
  have sl: "map (sales_line (zoho w1)) ls = map (sales_line (zoho w)) ls"
    using sales_line_cong[OF zs] by simp
  define zl where "zl = map (sales_line (zoho w)) ls"
  define cust where "cust = js_get (JObj c) ''contact_id''"
  define so where "so = JObj [(''salesorder_id'', new_id (zoho w2)), (''customer_id'', cust),
                     (''reference_number'', ref), (''line_items'', JArr zl)]"
  define w3 where "w3 = w2\<lparr>zoho := (zoho w2)\<lparr>z_salesorders := z_salesorders (zoho w2) @ [so]\<rparr>,
                           calls := calls w2 @ [Zoho PostToken, Zoho (PostSalesOrder cust ref zl)]\<rparr>"
  have f: "zohoFetch (PostSalesOrder cust ref zl) w2 = (Inr (JObj [(''salesorder'', so)]), w3)"
    by (simp add: zohoFetch_ok[OF ok2] so_def w3_def Let_def)
  have s1: "createZohoSalesOrder (JStr e) name ref (map order_line ls) w
        = bnd (zoho_lines (map order_line ls)) (\<lambda>zohoLineItems.
            bnd (js_dot (JObj c) ''contact_id'') (\<lambda>customer_id.
            bnd (zohoFetch (PostSalesOrder customer_id ref zohoLineItems)) (\<lambda>res.
              js_dot res ''salesorder''))) w1"
    using c(1) by (simp add: createZohoSalesOrder_def bnd_Inr)
  also have "\<dots> = bnd (js_dot (JObj c) ''contact_id'') (\<lambda>customer_id.
            bnd (zohoFetch (PostSalesOrder customer_id ref zl)) (\<lambda>res.
              js_dot res ''salesorder'')) w2"
    using l(1) sl by (simp add: bnd_Inr zl_def)
  also have "\<dots> = bnd (zohoFetch (PostSalesOrder cust ref zl)) (\<lambda>res. js_dot res ''salesorder'') w2"
    by (simp only: bnd_js_dot cust_def js_nullish.simps if_False)
  also have "\<dots> = (Inr so, w3)"
    using f by (simp add: bnd_Inr js_dot_def ret_def)
  finally have r: "createZohoSalesOrder (JStr e) name ref (map order_line ls) w = (Inr so, w3)" .
  have a: "js_get so ''line_items'' = JArr zl" by (simp add: so_def)
  have b: "z_salesorders (zoho w3) = z_salesorders (zoho w) @ [so]"
    using l(2) c(5) by (simp add: w3_def)
  have d: "order_calls (calls w3) = order_calls (calls w) @ [Zoho (PostSalesOrder cust ref zl)]"
    using l(6) c(6) by (simp add: w3_def order_calls_def)
  have g: "console w3 = console w" "shopify w3 = shopify w"
    using l(4,5) c(3,4) by (simp_all add: w3_def)
  show ?thesis
    apply (rule exI[of _ so], rule exI[of _ cust], rule exI[of _ w3])
    using r a b d g unfolding zl_def apply simp
    done
qed

lemma js_or_JArr: "js_or (JArr xs) b = JArr xs"
  by (simp add: js_or_def)

text \<open>
  Claim C2, as amended. Let the backend be reachable, let the order carry an email (its
  own or its customer's, a non-empty string) and an array of lines of which at least one
  is mapped, that is, has a SKU, a numeric quantity and a backend item with exactly
  that SKU. Then the order push returns the sales order it has created: exactly one
  sales order is posted and stored, its line items are the lines made from the mapped
  lines of the order, in order, and nothing else; and each line with a SKU and a
  quantity but no backend item is skipped with one console entry naming its SKU.
\<close>

theorem order_push_creates_one_sales_order:
  assumes "zoho_ok w"
    and "js_or (js_get order ''email'') (js_get (js_get order ''customer'') ''email'') = JStr e"
    and "e \<noteq> []"
    and "js_get order ''line_items'' = JArr xs"
    and "\<exists>li\<in>set xs. mapped_line (zoho w) li"
  shows "\<exists>so cust ref w'. pushShopifyOrderToZoho P order w = (Inr so, w')
           \<and> js_get so ''line_items'' = JArr (map (sales_line (zoho w)) (filter (mapped_line (zoho w)) xs))
           \<and> z_salesorders (zoho w') = z_salesorders (zoho w) @ [so]
           \<and> order_calls (calls w') =
               order_calls (calls w)
               @ [Zoho (PostSalesOrder cust ref (map (sales_line (zoho w)) (filter (mapped_line (zoho w)) xs)))]
           \<and> unresolved_reports (console w') =
               unresolved_reports (console w) @ map skip_report (filter (unresolved_line (zoho w)) xs)"
proof -
  define ms where "ms = filter (mapped_line (zoho w)) xs"
  have ne: "ms \<noteq> []" using assms(5) by (auto simp: ms_def filter_empty_conv)
  obtain w1 where p: "push_lines xs w = (Inr (map order_line ms), w1)"
    "zoho w1 = zoho w" "env w1 = env w" "shopify w1 = shopify w"
    "order_calls (calls w1) = order_calls (calls w)"
    "unresolved_reports (console w1) =
       unresolved_reports (console w) @ map skip_report (filter (unresolved_line (zoho w)) xs)"
    using push_lines_ok[OF assms(1), of xs] unfolding ms_def by blast
  have ok1: "zoho_ok w1" using assms(1) p(2,3) by (simp add: zoho_ok_def)
  have all: "\<forall>li\<in>set ms. mapped_line (zoho w1) li" using p(2) by (simp add: ms_def)
  define name where "name = js_or (JStr (join_space P (filter js_truthy
                              [js_get (js_get order ''customer'') ''first_name'',
                               js_get (js_get order ''customer'') ''last_name''])))
                          (js_get (js_get order ''billing_address'') ''name'')"
  define ref where "ref = JStr (js_String P (js_get order ''id''))"
  obtain so cust w2 where c:
    "createZohoSalesOrder (JStr e) name ref (map order_line ms) w1 = (Inr so, w2)"
    "js_get so ''line_items'' = JArr (map (sales_line (zoho w1)) ms)"
    "z_salesorders (zoho w2) = z_salesorders (zoho w1) @ [so]"
    "order_calls (calls w2) =
       order_calls (calls w1) @ [Zoho (PostSalesOrder cust ref (map (sales_line (zoho w1)) ms))]"
    "console w2 = console w1" "shopify w2 = shopify w1"
    using createZohoSalesOrder_ok[OF ok1 assms(3) all, of name ref] by blast
  define w3 where "w3 = w2\<lparr>console := console w2 @ [(LOG, ''SO created'',
                   [JObj [(''orderId'', js_get order ''id''),
                          (''salesorder_id'', js_get so ''salesorder_id''),
                          (''salesorder_number'', js_get so ''salesorder_number'')]])]\<rparr>"
  have r: "pushShopifyOrderToZoho P order w = (Inr so, w3)"
    using assms(2,3,4) p(1) ne c(1)
    by (simp add: pushShopifyOrderToZoho_def Let_def bnd_Inr exec name_def ref_def w3_def
          js_or_JArr)
  show ?thesis
    apply (rule exI[of _ so], rule exI[of _ cust], rule exI[of _ ref], rule exI[of _ w3])
    using r c p unfolding ms_def w3_def apply (simp add: unresolved_reports_def)
    done
qed

lemma demo_lines:
  "mapped_line demo_zoho (JObj [(''sku'', JStr ''A''), (''quantity'', JNum (Fin 2))])"
  "\<not> unresolved_line demo_zoho (JObj [(''sku'', JStr ''A''), (''quantity'', JNum (Fin 2))])"
  "\<not> mapped_line demo_zoho (JObj [(''sku'', JStr ''B''), (''quantity'', JNum (Fin 1))])"
  "unresolved_line demo_zoho (JObj [(''sku'', JStr ''B''), (''quantity'', JNum (Fin 1))])"
  by (simp_all add: mapped_line_def unresolved_line_def found_item_def exact_match_def js_or_def
        demo_zoho_def item_A_def)

theorem order_push_creates_one_sales_order_witness:
  "\<exists>so cust ref w'. pushShopifyOrderToZoho demo_platform order_AB demo_world = (Inr so, w')
     \<and> js_get so ''line_items'' =
         JArr [JObj [(''item_id'', JStr ''i1''), (''name'', JStr ''Item A''),
                     (''rate'', JNum (Fin 12)), (''quantity'', JNum (Fin 2))]]
     \<and> z_salesorders (zoho w') = [so]
     \<and> order_calls (calls w') =
         [Zoho (PostSalesOrder cust ref
            [JObj [(''item_id'', JStr ''i1''), (''name'', JStr ''Item A''),
                   (''rate'', JNum (Fin 12)), (''quantity'', JNum (Fin 2))]])]
     \<and> unresolved_reports (console w') = [(ERROR, ''SO skip line: SKU not in Zoho'', [JStr ''B''])]"
proof -
  have h1: "zoho_ok demo_world"
    by (simp add: zoho_ok_def demo_world_def demo_env_def demo_zoho_def zoho_token_required_def
          zoho_required_def absent_def)
  have h2: "js_or (js_get order_AB ''email'') (js_get (js_get order_AB ''customer'') ''email'')
              = JStr ''ann@example.com''"
    by (simp add: order_AB_def js_or_def)
  have h3: "''ann@example.com'' \<noteq> []" by simp
  have h4: "js_get order_AB ''line_items'' =
              JArr [JObj [(''sku'', JStr ''A''), (''quantity'', JNum (Fin 2))],
                    JObj [(''sku'', JStr ''B''), (''quantity'', JNum (Fin 1))]]"
    by (simp add: order_AB_def)
  have z: "zoho demo_world = demo_zoho" by (simp add: demo_world_def)
  have h5: "\<exists>li\<in>set [JObj [(''sku'', JStr ''A''), (''quantity'', JNum (Fin 2))],
                         JObj [(''sku'', JStr ''B''), (''quantity'', JNum (Fin 1))]].
              mapped_line (zoho demo_world) li"
    using demo_lines by (simp add: z)
  have sl: "sales_line demo_zoho (JObj [(''sku'', JStr ''A''), (''quantity'', JNum (Fin 2))])
              = JObj [(''item_id'', JStr ''i1''), (''name'', JStr ''Item A''),
                      (''rate'', JNum (Fin 12)), (''quantity'', JNum (Fin 2))]"
    by (simp add: sales_line_def found_item_def exact_match_def js_or_def demo_zoho_def item_A_def)
  have c: "order_calls (calls demo_world) = []" "unresolved_reports (console demo_world) = []"
    "z_salesorders demo_zoho = []"
    by (simp_all add: demo_world_def order_calls_def unresolved_reports_def demo_zoho_def)
  show ?thesis
    using order_push_creates_one_sales_order[OF h1 h2 h3 h4 h5, of demo_platform]
    by (simp add: z demo_lines sl c skip_report_def)
qed

text \<open>
  The claim as first stated fails: the order for two units of A and one of B, in which A
  resolves and B does not, but which carries no email, is skipped as a whole; no sales
  order is created and the backend is not called.
\<close>

theorem order_push_creates_one_sales_order_counterexample:
  "mapped_line (zoho demo_world) (JObj [(''sku'', JStr ''A''), (''quantity'', JNum (Fin 2))])
   \<and> unresolved_line (zoho demo_world) (JObj [(''sku'', JStr ''B''), (''quantity'', JNum (Fin 1))])
   \<and> fst (pushShopifyOrderToZoho demo_platform order_AB_no_email demo_world) = Inr JUndef
   \<and> z_salesorders (zoho (snd (pushShopifyOrderToZoho demo_platform order_AB_no_email demo_world))) = []
   \<and> calls (snd (pushShopifyOrderToZoho demo_platform order_AB_no_email demo_world)) = []"
proof -
  have "pushShopifyOrderToZoho demo_platform order_AB_no_email demo_world
          = (Inr JUndef,
             demo_world\<lparr>console := [(WARN, ''SO skip: no email'', [JObj [(''orderId'', JNum (Fin 1001))]])]\<rparr>)"
    by (simp add: pushShopifyOrderToZoho_def order_AB_no_email_def js_or_def Let_def exec
          demo_world_def)
  then show ?thesis
    using demo_lines by (simp add: demo_world_def demo_zoho_def)
qed

section \<open>What an authenticated webhook is answered\<close>

named_theorems yields_intros
named_theorems nothrow_intros

lemma yields_ret [yields_intros]: "Q x \<Longrightarrow> yields Q (ret x)"
  by (simp add: yields_def ret_def)

lemma yields_raise [yields_intros]: "yields Q (raise e)"
  by (simp add: yields_def raise_def)

lemma yields_bnd [yields_intros]: "(\<And>x. yields Q (f x)) \<Longrightarrow> yields Q (bnd m f)"
  by (auto simp: yields_def bnd_def split: prod.splits sum.splits)

lemma yieldsD: "yields Q m \<Longrightarrow> m w = (Inr r, w') \<Longrightarrow> Q r"
  by (auto simp: yields_def)

lemma nothrow_ret [nothrow_intros]: "nothrow (ret x)"
  by (simp add: nothrow_def ret_def)

lemma nothrow_log [nothrow_intros]: "nothrow (log l m a)"
  by (simp add: nothrow_def log_def)

lemma nothrowD: "nothrow m \<Longrightarrow> \<exists>r w'. m w = (Inr r, w')"
  by (simp add: nothrow_def)

lemma nothrow_bnd [nothrow_intros]:
  assumes "nothrow m" "\<And>x. nothrow (f x)"
  shows "nothrow (bnd m f)"
  unfolding nothrow_def
proof
  fix w
  obtain r w1 where m: "m w = (Inr r, w1)" using nothrowD[OF assms(1), of w] by blast
  obtain r' w' where "f r w1 = (Inr r', w')" using nothrowD[OF assms(2), of r w1] by blast
  then show "\<exists>r w'. bnd m f w = (Inr r, w')" using m by (simp add: bnd_Inr)
qed

lemma nothrow_try_catch [nothrow_intros]: "(\<And>e. nothrow (h e)) \<Longrightarrow> nothrow (try_catch m h)"
  by (auto simp: nothrow_def try_catch_def split: prod.splits sum.splits)

lemma yields_item_apply: "yields (\<lambda>r. rp_status r = 200) (item_apply P sku price available v)"
  unfolding item_apply_def
  by (auto intro!: yields_intros)

lemma yields_zoho_item_update: "yields (\<lambda>r. rp_status r = 200) (zoho_item_update P b)"
  unfolding zoho_item_update_def Let_def
  by (auto intro!: yields_intros yields_item_apply)

lemma yields_zoho_adjustment: "yields (\<lambda>r. rp_status r = 200) (zoho_adjustment P b)"
  unfolding zoho_adjustment_def Let_def
  by (auto intro!: yields_intros)

lemma yields_zoho_process: "yields (\<lambda>r. rp_status r = 200) (zoho_process P req)"
  unfolding zoho_process_def
  by (auto intro!: yields_intros yields_zoho_item_update yields_zoho_adjustment)

lemma nothrow_adjust_lines: "nothrow (adjust_lines P adj ls)"
  by (induction ls) (auto intro!: nothrow_intros)

lemma nothrow_zoho_adjustment: "nothrow (zoho_adjustment P b)"
  unfolding zoho_adjustment_def Let_def
  by (auto intro!: nothrow_intros nothrow_adjust_lines)

lemma nothrow_item_apply: "nothrow (item_apply P sku price available v)"
  unfolding item_apply_def
  by (auto intro!: nothrow_intros split: json.splits)

lemma zoho_item_update_returns:
  assumes "\<not> js_truthy (pickSKU b) \<or> (\<exists>v w1. findVariantBySKU (pickSKU b) w = (Inr v, w1))"
  shows "\<exists>r w'. zoho_item_update P b w = (Inr r, w')"
proof (cases "js_truthy (pickSKU b)")
  case False
  then show ?thesis by (simp add: zoho_item_update_def ret_def)
next
  case True
  then obtain v w1 where f: "findVariantBySKU (pickSKU b) w = (Inr v, w1)" using assms by blast
  show ?thesis
  proof (cases "js_truthy v")
    case False
    then show ?thesis using True f by (simp add: zoho_item_update_def bnd_Inr ret_def Let_def)
  next
    case v: True
    show ?thesis
      using True f v nothrowD[OF nothrow_item_apply, of P "pickSKU b" "pickPrice P b" "pickAvailableStock P b" v w1]
      by (simp add: zoho_item_update_def bnd_Inr Let_def)
  qed
qed

lemma zoho_item_update_throws:
  assumes "js_truthy (pickSKU b)" "findVariantBySKU (pickSKU b) w = (Inl e, w1)"
  shows "zoho_item_update P b w = (Inl e, w1)"
  using assms by (simp add: zoho_item_update_def bnd_Inl Let_def)

lemma parse_body_pure: "snd (parse_body P b w) = w"
  by (auto simp: parse_body_def ret_def raise_def split: json.splits option.splits)

lemma zoho_process_returns:
  assumes "parse_body P (rq_body req) w = (Inr b, w0)"
    and "js_truthy (js_get b ''inventory_adjustment'') \<or> \<not> js_truthy (pickSKU b)
         \<or> (\<exists>v w1. findVariantBySKU (pickSKU b) w = (Inr v, w1))"
  shows "\<exists>r w'. zoho_process P req w = (Inr r, w') \<and> rp_status r = 200"
proof -
  have w0: "w0 = w" using parse_body_pure[of P "rq_body req" w] assms(1) by simp
  have "\<exists>r w'. zoho_process P req w = (Inr r, w')"
  proof (cases "js_truthy (js_get b ''inventory_adjustment'')")
    case True
    then show ?thesis
      using assms(1) w0 nothrowD[OF nothrow_zoho_adjustment, of P b w]
      by (simp add: zoho_process_def bnd_Inr)
  next
    case False
    then show ?thesis
      using assms w0 zoho_item_update_returns[of b w P]
      by (simp add: zoho_process_def bnd_Inr)
  qed
  then show ?thesis using yieldsD[OF yields_zoho_process] by blast
qed

lemma zohoWebhook_authorized:
  assumes "env w ''ZOHO_WEBHOOK_SECRET'' = Some secret" "secret \<noteq> []"
    "zoho_authorized P secret req"
  shows "zohoWebhook P req w = try_catch (zoho_process P req) (zoho_failed P) w"
  using assms
  by (cases secret) (simp_all add: zohoWebhook_def try_catch_def bnd_getenv)

lemma zoho_failed_status: "\<exists>r w'. zoho_failed P e w = (Inr r, w') \<and> rp_status r = 500"
  by (simp add: zoho_failed_def exec)

lemma zohoWebhook_authorized_status:
  assumes "env w ''ZOHO_WEBHOOK_SECRET'' = Some secret" "secret \<noteq> []"
    "zoho_authorized P secret req"
  shows "\<exists>r w'. zohoWebhook P req w = (Inr r, w')
           \<and> rp_status r = (if \<exists>x w1. zoho_process P req w = (Inr x, w1) then 200 else 500)"
proof (cases "zoho_process P req w")
  case (Pair res w1)
  show ?thesis
  proof (cases res)
    case (Inl e)
    then show ?thesis
      using Pair zoho_failed_status[of P e w1]
      by (simp add: zohoWebhook_authorized[OF assms] try_catch_Inl)
  next
    case (Inr x)
    then show ?thesis
      using Pair yieldsD[OF yields_zoho_process, of P req w x w1]
      by (simp add: zohoWebhook_authorized[OF assms] try_catch_Inr)
  qed
qed

lemma zohoWebhook_401:
  assumes "zohoWebhook P req w = (Inr r, w')" "rp_status r = 401"
  shows "absent (env w ''ZOHO_WEBHOOK_SECRET'')
         \<or> \<not> zoho_authorized P (the (env w ''ZOHO_WEBHOOK_SECRET'')) req"
proof (rule ccontr)
  assume "\<not> ?thesis"
  then obtain secret where s: "env w ''ZOHO_WEBHOOK_SECRET'' = Some secret" "secret \<noteq> []"
    "zoho_authorized P secret req"
    by (auto simp: absent_def)
  from zohoWebhook_authorized_status[OF s] assms show False by (auto split: if_splits)
qed


lemma order_failed_status: "\<exists>r w'. order_failed P e w = (Inr r, w') \<and> rp_status r = 500"
  by (simp add: order_failed_def exec)

lemma yields_order_process: "yields (\<lambda>r. rp_status r = 200) (order_process P req)"
  unfolding order_process_def Let_def
  by (auto intro!: yields_intros)

lemma orderCreated_gate:
  assumes "order_raw_body P req w = (Inr raw, w1)"
    and "order_gate P (env w ''NODE_ENV'' = Some ''development'')
           (env w ''SHOPIFY_WEBHOOK_SHARED_SECRET'') (rq_headers req ''x-shopify-hmac-sha256'')
           raw w1 = (Inr ok, w2)"
  shows "orderCreated P req w =
           try_catch
             (if \<not> ok then
                bnd (log ERROR ''HMAC verification failed'' []) (\<lambda>_.
                  ret \<lparr>rp_status = 401, rp_payload = JStr ''Invalid HMAC''\<rparr>)
              else order_process P req)
             (order_failed P) w2"
  using assms
  by (simp add: orderCreated_def try_catch_def bnd_getenv Let_def bnd_Inr)

lemma orderCreated_gate_passed:
  assumes "order_raw_body P req w = (Inr raw, w1)"
    and "order_gate P (env w ''NODE_ENV'' = Some ''development'')
           (env w ''SHOPIFY_WEBHOOK_SHARED_SECRET'') (rq_headers req ''x-shopify-hmac-sha256'')
           raw w1 = (Inr True, w2)"
  shows "\<exists>r w'. orderCreated P req w = (Inr r, w')
           \<and> rp_status r = (if \<exists>x w3. order_process P req w2 = (Inr x, w3) then 200 else 500)"
proof (cases "order_process P req w2")
  case (Pair res w3)
  show ?thesis
  proof (cases res)
    case (Inl e)
    then show ?thesis
      using Pair order_failed_status[of P e w3]
      by (simp add: orderCreated_gate[OF assms] try_catch_Inl)
  next
    case (Inr x)
    then show ?thesis
      using Pair yieldsD[OF yields_order_process, of P req w2 x w3]
      by (simp add: orderCreated_gate[OF assms] try_catch_Inr)
  qed
qed

lemma order_raw_body_returns: "\<exists>raw w1. order_raw_body P req w = (Inr raw, w1)"
  by (auto simp: order_raw_body_def exec split: option.splits json.splits)

lemma orderCreated_401:
  assumes "orderCreated P req w = (Inr r, w')" "rp_status r = 401"
  shows "\<exists>raw w1 w2. order_raw_body P req w = (Inr raw, w1)
           \<and> order_gate P (env w ''NODE_ENV'' = Some ''development'')
                (env w ''SHOPIFY_WEBHOOK_SHARED_SECRET'') (rq_headers req ''x-shopify-hmac-sha256'')
                raw w1 = (Inr False, w2)"
proof -
  obtain raw w1 where rb: "order_raw_body P req w = (Inr raw, w1)"
    using order_raw_body_returns by blast
  obtain g w2 where gt: "order_gate P (env w ''NODE_ENV'' = Some ''development'')
           (env w ''SHOPIFY_WEBHOOK_SHARED_SECRET'') (rq_headers req ''x-shopify-hmac-sha256'')
           raw w1 = (g, w2)"
    by (cases "order_gate P (env w ''NODE_ENV'' = Some ''development'')
           (env w ''SHOPIFY_WEBHOOK_SHARED_SECRET'') (rq_headers req ''x-shopify-hmac-sha256'')
           raw w1")
  show ?thesis
  proof (cases g)
    case (Inl e)
    then have "orderCreated P req w = order_failed P e w2"
      using rb gt by (simp add: orderCreated_def try_catch_def bnd_getenv Let_def bnd_Inr bnd_Inl)
    then show ?thesis using assms order_failed_status[of P e w2] by auto
  next
    case (Inr ok)
    show ?thesis
    proof (cases ok)
      case True
      then have "order_gate P (env w ''NODE_ENV'' = Some ''development'')
           (env w ''SHOPIFY_WEBHOOK_SHARED_SECRET'') (rq_headers req ''x-shopify-hmac-sha256'')
           raw w1 = (Inr True, w2)"
        using gt Inr by simp
      from orderCreated_gate_passed[OF rb this] assms show ?thesis
        by (auto split: if_splits)
    next
      case False
      then have "order_gate P (env w ''NODE_ENV'' = Some ''development'')
           (env w ''SHOPIFY_WEBHOOK_SHARED_SECRET'') (rq_headers req ''x-shopify-hmac-sha256'')
           raw w1 = (Inr False, w2)"
        using gt Inr by simp
      then show ?thesis using rb by blast
    qed
  qed
qed

lemma push_returns:
  assumes ok: "zoho_ok w"
    and email: "js_or (js_get order ''email'') (js_get (js_get order ''customer'') ''email'') = JStr e"
               "e \<noteq> []"
    and lines: "js_get order ''line_items'' = JArr xs"
  shows "\<exists>so w'. pushShopifyOrderToZoho P order w = (Inr so, w')"
proof (cases "\<exists>li\<in>set xs. mapped_line (zoho w) li")
  case True
  then show ?thesis
    using order_push_creates_one_sales_order[OF ok email lines, of P] by blast
next
  case False
  then have "filter (mapped_line (zoho w)) xs = []" by (simp add: filter_empty_conv)
  then obtain w1 where "push_lines xs w = (Inr [], w1)"
    using push_lines_ok[OF ok, of xs] by auto
  then show ?thesis
    using email lines
    by (simp add: pushShopifyOrderToZoho_def Let_def bnd_Inr exec js_or_JArr)
qed

lemma order_process_returns:
  assumes ok: "zoho_ok w"
    and body: "parse_body P (rq_body req) w = (Inr order, w0)"
    and email: "\<not> js_truthy (js_or (js_get order ''email'') (js_get (js_get order ''customer'') ''email''))
                \<or> (\<exists>e xs. js_or (js_get order ''email'') (js_get (js_get order ''customer'') ''email'') = JStr e
                      \<and> js_get order ''line_items'' = JArr xs)"
  shows "\<exists>r w'. order_process P req w = (Inr r, w') \<and> rp_status r = 200"
proof -
  have w0: "w0 = w" using parse_body_pure[of P "rq_body req" w] body by simp
  define em where "em = js_or (js_get order ''email'') (js_get (js_get order ''customer'') ''email'')"
  have "\<exists>r w'. order_process P req w = (Inr r, w')"
  proof (cases "js_truthy em")
    case False
    then show ?thesis using body w0
      by (simp add: order_process_def bnd_Inr Let_def bnd_assoc exec em_def log_def)
  next
    case True
    then obtain e xs where e: "em = JStr e" "js_get order ''line_items'' = JArr xs" "e \<noteq> []"
      using email unfolding em_def by auto
    define w1 where "w1 = w\<lparr>console := console w @ [(LOG, ''Processing order'',
                        [JObj [(''id'', js_get order ''id''), (''email'', em)]])]\<rparr>"
    have ok1: "zoho_ok w1" using ok by (simp add: zoho_ok_def w1_def)
    obtain so w2 where "pushShopifyOrderToZoho P order w1 = (Inr so, w2)"
      using push_returns[OF ok1 e(1)[unfolded em_def] e(3) e(2), of P] by blast
    then show ?thesis using body w0 True
      by (simp add: order_process_def bnd_Inr Let_def bnd_assoc exec em_def[symmetric] w1_def
            log_def)
  qed
  then show ?thesis using yieldsD[OF yields_order_process] by blast
qed

text \<open>
  Claim C6, as amended. Once a webhook request has passed authentication the handler
  always replies, and the status is 200 exactly when the processing returns and 500 when
  it throws; it is never 401.
  \<^item> Backend webhook: with the secret configured and the request authorised, the status
    is 200 if \<open>zoho_process\<close> returns and 500 otherwise. It returns whenever the body
    is parsed and either the payload is an adjustment batch (each line's failure is
    caught and logged), or it has no SKU, or the variant lookup for its SKU answers,
    whether a variant is found or not.
  \<^item> Storefront webhook: when the gate lets the request through, the status is 200 if
    \<open>order_process\<close> returns and 500 otherwise. With a configured, answering backend it
    returns for every parsed order that has no email, or a string email and a list of
    line items, whichever SKUs resolve.
  \<^item> A 401 reply means that the authentication failed: the backend secret is absent or
    the request is not authorised; the storefront gate returned false.
\<close>

theorem authenticated_webhook_status:
  "(env w ''ZOHO_WEBHOOK_SECRET'' = Some secret \<and> secret \<noteq> [] \<and> zoho_authorized P secret req
      \<longrightarrow> (\<exists>r w'. zohoWebhook P req w = (Inr r, w')
             \<and> rp_status r = (if \<exists>x w1. zoho_process P req w = (Inr x, w1) then 200 else 500)))
   \<and> (parse_body P (rq_body req) w = (Inr b, w0)
        \<and> (js_truthy (js_get b ''inventory_adjustment'') \<or> \<not> js_truthy (pickSKU b)
           \<or> (\<exists>v w1. findVariantBySKU (pickSKU b) w = (Inr v, w1)))
      \<longrightarrow> (\<exists>x w1. zoho_process P req w = (Inr x, w1)))
   \<and> (order_raw_body P oreq u = (Inr raw, u1)
        \<and> order_gate P (env u ''NODE_ENV'' = Some ''development'')
             (env u ''SHOPIFY_WEBHOOK_SHARED_SECRET'') (rq_headers oreq ''x-shopify-hmac-sha256'')
             raw u1 = (Inr True, u2)
      \<longrightarrow> (\<exists>r u'. orderCreated P oreq u = (Inr r, u')
             \<and> rp_status r = (if \<exists>x u3. order_process P oreq u2 = (Inr x, u3) then 200 else 500)))
   \<and> (zoho_ok u2 \<and> parse_body P (rq_body oreq) u2 = (Inr order, u0)
        \<and> (\<not> js_truthy (js_or (js_get order ''email'') (js_get (js_get order ''customer'') ''email''))
           \<or> (\<exists>e xs. js_or (js_get order ''email'') (js_get (js_get order ''customer'') ''email'') = JStr e
                 \<and> js_get order ''line_items'' = JArr xs))
      \<longrightarrow> (\<exists>x u3. order_process P oreq u2 = (Inr x, u3)))
   \<and> (zohoWebhook P req w = (Inr r1, w1') \<and> rp_status r1 = 401
      \<longrightarrow> absent (env w ''ZOHO_WEBHOOK_SECRET'')
          \<or> \<not> zoho_authorized P (the (env w ''ZOHO_WEBHOOK_SECRET'')) req)
   \<and> (orderCreated P oreq u = (Inr r2, u1') \<and> rp_status r2 = 401
      \<longrightarrow> (\<exists>raw u1 u2. order_raw_body P oreq u = (Inr raw, u1)
             \<and> order_gate P (env u ''NODE_ENV'' = Some ''development'')
                  (env u ''SHOPIFY_WEBHOOK_SHARED_SECRET'') (rq_headers oreq ''x-shopify-hmac-sha256'')
                  raw u1 = (Inr False, u2)))"
proof (intro conjI impI)
  assume "env w ''ZOHO_WEBHOOK_SECRET'' = Some secret \<and> secret \<noteq> [] \<and> zoho_authorized P secret req"
  then show "\<exists>r w'. zohoWebhook P req w = (Inr r, w')
             \<and> rp_status r = (if \<exists>x w1. zoho_process P req w = (Inr x, w1) then 200 else 500)"
    using zohoWebhook_authorized_status[of w secret P req] by blast
next
  assume "parse_body P (rq_body req) w = (Inr b, w0)
        \<and> (js_truthy (js_get b ''inventory_adjustment'') \<or> \<not> js_truthy (pickSKU b)
           \<or> (\<exists>v w1. findVariantBySKU (pickSKU b) w = (Inr v, w1)))"
  then show "\<exists>x w1. zoho_process P req w = (Inr x, w1)"
    using zoho_process_returns[of P req w b w0] by blast
next
  assume "order_raw_body P oreq u = (Inr raw, u1)
        \<and> order_gate P (env u ''NODE_ENV'' = Some ''development'')
             (env u ''SHOPIFY_WEBHOOK_SHARED_SECRET'') (rq_headers oreq ''x-shopify-hmac-sha256'')
             raw u1 = (Inr True, u2)"
  then show "\<exists>r u'. orderCreated P oreq u = (Inr r, u')
             \<and> rp_status r = (if \<exists>x u3. order_process P oreq u2 = (Inr x, u3) then 200 else 500)"
    using orderCreated_gate_passed[of P oreq u raw u1 u2] by blast
next
  assume "zoho_ok u2 \<and> parse_body P (rq_body oreq) u2 = (Inr order, u0)
        \<and> (\<not> js_truthy (js_or (js_get order ''email'') (js_get (js_get order ''customer'') ''email''))
           \<or> (\<exists>e xs. js_or (js_get order ''email'') (js_get (js_get order ''customer'') ''email'') = JStr e
                 \<and> js_get order ''line_items'' = JArr xs))"
  then show "\<exists>x u3. order_process P oreq u2 = (Inr x, u3)"
    using order_process_returns[of u2 P oreq order u0] by blast
next
  assume "zohoWebhook P req w = (Inr r1, w1') \<and> rp_status r1 = 401"
  then show "absent (env w ''ZOHO_WEBHOOK_SECRET'')
          \<or> \<not> zoho_authorized P (the (env w ''ZOHO_WEBHOOK_SECRET'')) req"
    using zohoWebhook_401[of P req w r1 w1'] by blast
next
  assume "orderCreated P oreq u = (Inr r2, u1') \<and> rp_status r2 = 401"
  then show "\<exists>raw u1 u2. order_raw_body P oreq u = (Inr raw, u1)
             \<and> order_gate P (env u ''NODE_ENV'' = Some ''development'')
                  (env u ''SHOPIFY_WEBHOOK_SHARED_SECRET'') (rq_headers oreq ''x-shopify-hmac-sha256'')
                  raw u1 = (Inr False, u2)"
    using orderCreated_401[of P oreq u r2 u1'] by blast
qed

text \<open>
  Claim C6 as the specification states it does not hold: the request for item A carries
  the shared secret, the storefront answers 503 to the variant lookup, and the reply is
  500.
\<close>

theorem authenticated_webhook_status_counterexample:
  "env world_storefront_down ''ZOHO_WEBHOOK_SECRET'' = Some ''s3cret''
   \<and> zoho_authorized demo_platform ''s3cret'' item_request
   \<and> map_sum id rp_status (fst (zohoWebhook demo_platform item_request world_storefront_down)) = Inr 500"
  by (simp add: world_storefront_down_def demo_defs item_request_def zoho_authorized_def
        zoho_signature_ok_def zoho_header_secret_def zohoWebhook_def zoho_process_def
        parse_body_def zoho_item_update_def pickSKU_def extractString_def zoho_failed_def
        run_defs shopify_defs Let_def)


theorem authenticated_webhook_status_witness:
  "zoho_authorized demo_platform ''s3cret'' item_request
   \<and> (\<exists>r w'. zohoWebhook demo_platform item_request demo_world = (Inr r, w') \<and> rp_status r = 200)
   \<and> (\<exists>r u'. orderCreated demo_platform unsigned_order_request dev_world = (Inr r, u')
              \<and> rp_status r = 200)
   \<and> zohoWebhook demo_platform forged_request demo_world = (Inr unauthorized, demo_world)
   \<and> \<not> zoho_authorized demo_platform ''s3cret'' forged_request
   \<and> (\<exists>u'. orderCreated demo_platform missigned_order_request demo_world =
              (Inr \<lparr>rp_status = 401, rp_payload = JStr ''Invalid HMAC''\<rparr>, u'))
   \<and> (\<exists>raw u1 u2. order_raw_body demo_platform missigned_order_request demo_world = (Inr raw, u1)
         \<and> order_gate demo_platform False (Some ''shh'') (Some ''bad'') raw u1 = (Inr False, u2))"
proof -
  let ?P = demo_platform
  have e1: "env demo_world ''ZOHO_WEBHOOK_SECRET'' = Some ''s3cret''"
    by (simp add: demo_defs)
  have a1: "zoho_authorized ?P ''s3cret'' item_request"
    by (simp add: zoho_authorized_def zoho_header_secret_def item_request_def)
  have p1: "parse_body ?P (rq_body item_request) demo_world = (Inr (rq_body item_request), demo_world)"
    by (simp add: parse_body_def item_request_def ret_def)
  have s1: "pickSKU (rq_body item_request) = JStr ''A''"
    by (simp add: item_request_def pickSKU_def extractString_def js_or_def)
  have f1: "\<exists>v w1. findVariantBySKU (JStr ''A'') demo_world = (Inr v, w1)"
    by (simp add: findVariantBySKU_eq demo_defs shopify_defs run_defs)
  note z = authenticated_webhook_status[where P="?P" and req=item_request and w=demo_world
      and secret="''s3cret''" and b="rq_body item_request" and ?w0.0=demo_world]
  have z2: "\<exists>x w1. zoho_process ?P item_request demo_world = (Inr x, w1)"
    using z p1 s1 f1 by simp
  have z1: "\<exists>r w'. zohoWebhook ?P item_request demo_world = (Inr r, w') \<and> rp_status r = 200"
    using z e1 a1 z2 by simp
  define u1 where "u1 = snd (log LOG ''Using request.rawBody for HMAC'' [] dev_world)"
  define u2 where
    "u2 = snd (log WARN ''Development mode: Bypassing HMAC verification (no header)'' [] u1)"
  have r1: "order_raw_body ?P unsigned_order_request dev_world = (Inr (Some ''{}''), u1)"
    by (simp add: order_raw_body_def unsigned_order_request_def bnd_log ret_def u1_def log_def)
  have d1: "(env dev_world ''NODE_ENV'' = Some ''development'') = True"
    by (simp add: dev_world_def demo_world_def)
  have hd: "rq_headers unsigned_order_request ''x-shopify-hmac-sha256'' = None"
    by (simp add: unsigned_order_request_def)
  have g1: "order_gate ?P (env dev_world ''NODE_ENV'' = Some ''development'')
              (env dev_world ''SHOPIFY_WEBHOOK_SHARED_SECRET'')
              (rq_headers unsigned_order_request ''x-shopify-hmac-sha256'') (Some ''{}'') u1
            = (Inr True, u2)"
    unfolding d1 hd by (simp add: order_gate_def bnd_log ret_def u2_def log_def)
  have fx: "fixed_part u2 = fixed_part dev_world"
    by (simp add: u2_def u1_def log_def fixed_part_def)
  have okd: "zoho_ok dev_world"
    by (simp add: zoho_ok_def dev_world_def demo_defs zoho_token_required_def zoho_required_def
          absent_def)
  have ok2: "zoho_ok u2" using zoho_ok_fixed[OF fx] okd by simp
  have p2: "parse_body ?P (rq_body unsigned_order_request) u2 = (Inr order_AB, u2)"
    by (simp add: parse_body_def unsigned_order_request_def order_AB_def ret_def)
  have em: "js_or (js_get order_AB ''email'') (js_get (js_get order_AB ''customer'') ''email'')
              = JStr ''ann@example.com''
            \<and> (\<exists>xs. js_get order_AB ''line_items'' = JArr xs)"
    by (simp add: order_AB_def js_or_def)
  note o = authenticated_webhook_status[where P="?P" and oreq=unsigned_order_request
      and u=dev_world and raw="Some ''{}''" and ?u1.0=u1 and ?u2.0=u2 and order=order_AB
      and ?u0.0=u2]
  have o2: "\<exists>x u3. order_process ?P unsigned_order_request u2 = (Inr x, u3)"
    using o ok2 p2 em by simp
  have o1: "\<exists>r u'. orderCreated ?P unsigned_order_request dev_world = (Inr r, u')
              \<and> rp_status r = 200"
    using o r1 g1 o2 by simp
  have c1: "zohoWebhook ?P forged_request demo_world = (Inr unauthorized, demo_world)"
    by (simp add: zohoWebhook_def forged_request_def demo_defs zoho_authorized_def
          zoho_signature_ok_def zoho_header_secret_def zoho_raw_body_def unauthorized_def
          try_catch_def run_defs Let_def js_trim_def is_space_def toLowerCase_def
          lower_char_def upper_latin1_def lower_latin1_def strip_bearer_def)
  have c2: "\<not> zoho_authorized ?P ''s3cret'' forged_request"
    using authenticated_webhook_status[where P="?P" and req=forged_request and w=demo_world
        and ?r1.0=unauthorized and ?w1'.0=demo_world] c1 e1
    by (simp add: unauthorized_def absent_def)
  have c3: "\<exists>u'. orderCreated ?P missigned_order_request demo_world =
              (Inr \<lparr>rp_status = 401, rp_payload = JStr ''Invalid HMAC''\<rparr>, u')"
    by (simp add: orderCreated_def missigned_order_request_def demo_defs order_raw_body_def
          order_gate_def verifyHmac_def try_catch_def run_defs Let_def)
  then obtain u' where c3': "orderCreated ?P missigned_order_request demo_world =
              (Inr \<lparr>rp_status = 401, rp_payload = JStr ''Invalid HMAC''\<rparr>, u')" by blast
  have ev: "env demo_world ''NODE_ENV'' = None"
      "env demo_world ''SHOPIFY_WEBHOOK_SHARED_SECRET'' = Some ''shh''"
      "rq_headers missigned_order_request ''x-shopify-hmac-sha256'' = Some ''bad''"
    by (simp_all add: demo_defs missigned_order_request_def)
  have c4: "\<exists>raw u1 u2. order_raw_body ?P missigned_order_request demo_world = (Inr raw, u1)
         \<and> order_gate ?P False (Some ''shh'') (Some ''bad'') raw u1 = (Inr False, u2)"
    using authenticated_webhook_status[where P="?P" and oreq=missigned_order_request
        and u=demo_world and ?r2.0="\<lparr>rp_status = 401, rp_payload = JStr ''Invalid HMAC''\<rparr>"
        and ?u1'.0=u'] c3'
    by (simp add: ev)
  show ?thesis using a1 z1 o1 c1 c2 c3 c4 by blast
qed

section \<open>A sync run on ready vendors\<close>

lemma chosen_variant_in:
  assumes "js_truthy (chosen_variant S sku)"
  shows "\<exists>d\<in>set (sh_variants S). chosen_variant S sku = JObj d"
proof -
  have docs: "\<forall>v\<in>set (variant_docs S sku). \<exists>d\<in>set (sh_variants S). v = JObj d"
    by (auto simp: variant_docs_def)
  have em: "exact_match sku (variant_docs S sku) = JUndef
            \<or> exact_match sku (variant_docs S sku) \<in> set (variant_docs S sku)"
    by (auto simp: exact_match_def split: option.splits dest: find_Some_iff[THEN iffD1])
  have fi: "js_first (JArr (variant_docs S sku)) = JUndef
            \<or> js_first (JArr (variant_docs S sku)) \<in> set (variant_docs S sku)"
    by (cases "variant_docs S sku") auto
  have "chosen_variant S sku \<in> set (variant_docs S sku)"
    using assms em fi by (auto simp: chosen_variant_def js_or_def split: if_splits)
  then show ?thesis using docs by blast
qed

lemma storefront_ready_put:
  assumes "storefront_ready w" and "js_truthy (chosen_variant (shopify w) sku)"
  shows "shopifyFetch (PutVariantPrice (js_get (chosen_variant (shopify w) sku) ''id'') p) w =
           (Inr (JObj [(''variant'',
                   JObj [(''id'', js_get (chosen_variant (shopify w) sku) ''id''),
                         (''price'', JStr (sh_price_text (shopify w) p))])]),
            w\<lparr>shopify := (shopify w)\<lparr>sh_variants :=
                  map (set_price (js_get (chosen_variant (shopify w) sku) ''id'')
                         (sh_price_text (shopify w) p)) (sh_variants (shopify w))\<rparr>,
              calls := calls w @ [Shopify (PutVariantPrice (js_get (chosen_variant (shopify w) sku) ''id'') p)]\<rparr>)"
proof -
  obtain d where d: "d \<in> set (sh_variants (shopify w))" "chosen_variant (shopify w) sku = JObj d"
    using chosen_variant_in[OF assms(2)] by blast
  have id: "js_get (JObj d) ''id'' \<noteq> JUndef"
    using assms(1) d(1) by (auto simp: storefront_ready_def list_all_iff has_id_def)
  have ex: "list_ex (\<lambda>d'. js_get (JObj d') ''id'' = js_get (JObj d) ''id'') (sh_variants (shopify w))"
    using d(1) by (auto simp: list_ex_iff)
  show ?thesis
    using assms(1) id ex unfolding d(2)
    by (simp add: shopifyFetch_eq shopify_respond_def storefront_ready_def)
qed

lemma price_calls_simps [simp]:
  "price_calls [] = []"
  "price_calls (Shopify (PutVariantPrice i p) # cs) = Shopify (PutVariantPrice i p) # price_calls cs"
  "price_calls (Shopify (GetVariantsBySku q) # cs) = price_calls cs"
  "price_calls (Shopify GetShop # cs) = price_calls cs"
  "price_calls (Shopify (GetInventoryLevels i) # cs) = price_calls cs"
  "price_calls (Shopify (PostInventorySet l i a) # cs) = price_calls cs"
  "price_calls (Zoho z # cs) = price_calls cs"
  by (simp_all add: price_calls_def)

lemma page_requests_shopify [simp]: "page_requests (Shopify r # cs) = page_requests cs"
  by (simp add: page_requests_def)

lemma price_calls_price_due [simp]: "price_calls (price_due P S item) = price_due P S item"
  by (simp add: price_due_def)

lemma page_requests_price_due [simp]: "page_requests (price_due P S item) = []"
  by (simp add: price_due_def)

lemma sync_price_ready:
  assumes "storefront_ready w" and "js_truthy (js_get item ''sku'')"
    and "js_truthy (chosen_variant (shopify w) (js_get item ''sku''))"
  shows "sync_price P item (chosen_variant (shopify w) (js_get item ''sku'')) w =
           (Inr (), w\<lparr>shopify := after_item P (shopify w) item,
                      calls := calls w @ price_due P (shopify w) item\<rparr>)"
proof (cases "price_due P (shopify w) item = []")
  case True
  then show ?thesis using assms(2,3)
    by (auto simp: sync_price_eq price_due_def after_item_def resolvable_def split: if_splits)
next
  case False
  then have due: "zohoPrice P item \<noteq> []"
    "\<not> js_strict_eq (js_get (chosen_variant (shopify w) (js_get item ''sku'')) ''price'')
                      (JStr (zohoPrice P item))"
    by (auto simp: price_due_def split: if_splits)
  have pd: "price_due P (shopify w) item =
      [Shopify (PutVariantPrice (variant_id (shopify w) item) (zohoPrice P item))]"
    using due assms(2,3) by (simp add: price_due_def resolvable_def)
  show ?thesis
    using due False
    by (simp add: sync_price_eq storefront_ready_put[OF assms(1,3)] after_item_def pd
          variant_id_def)
qed

lemma setInventoryLevel_ready:
  assumes "storefront_ready w"
  shows "setInventoryLevel P item a JUndef w =
           (Inr (JObj [(''inventory_level'',
                   JObj [(''location_id'', js_get (js_get (sh_shop (shopify w)) ''shop'') ''primary_location_id''),
                         (''inventory_item_id'', item), (''available'', JNum a)])]),
            w\<lparr>shopify := (shopify w)\<lparr>sh_levels :=
                  AList.update (js_get (js_get (sh_shop (shopify w)) ''shop'') ''primary_location_id'', item) a
                    (sh_levels (shopify w))\<rparr>,
              calls := calls w @ [Shopify GetShop,
                 Shopify (PostInventorySet
                   (js_get (js_get (sh_shop (shopify w)) ''shop'') ''primary_location_id'') item a)]\<rparr>)"
proof -
  have p: "getPrimaryLocationId P w =
      (Inr (js_get (js_get (sh_shop (shopify w)) ''shop'') ''primary_location_id''),
       w\<lparr>calls := calls w @ [Shopify GetShop]\<rparr>)"
    using assms
    by (simp add: getPrimaryLocationId_def bnd_def shopifyFetch_eq shopify_respond_def
          storefront_ready_def Let_def ret_def)
  have l: "getLocationIdForItem P item w =
      (Inr (js_get (js_get (sh_shop (shopify w)) ''shop'') ''primary_location_id''),
       w\<lparr>calls := calls w @ [Shopify GetShop]\<rparr>)"
    using p by (simp add: getLocationIdForItem_def try_catch_def)
  show ?thesis
    using assms l
    by (simp add: setInventoryLevel_def bnd_def shopifyFetch_eq shopify_respond_def
          storefront_ready_def)
qed

lemma sync_stock_ready:
  assumes "storefront_ready w"
  shows "\<exists>L cs. sync_stock P item v w =
                  (Inr (), w\<lparr>shopify := (shopify w)\<lparr>sh_levels := L\<rparr>, calls := calls w @ cs\<rparr>)
                \<and> price_calls cs = [] \<and> page_requests cs = []"
proof (cases "available_of item")
  case (JNum a)
  note s = setInventoryLevel_ready[OF assms, of P "js_get v ''inventory_item_id''" a]
  have "sync_stock P item v w =
      (Inr (), w\<lparr>shopify := (shopify w)\<lparr>sh_levels :=
                  AList.update (js_get (js_get (sh_shop (shopify w)) ''shop'') ''primary_location_id'',
                                js_get v ''inventory_item_id'') a (sh_levels (shopify w))\<rparr>,
              calls := calls w @ [Shopify GetShop,
                 Shopify (PostInventorySet
                   (js_get (js_get (sh_shop (shopify w)) ''shop'') ''primary_location_id'')
                   (js_get v ''inventory_item_id'') a)]\<rparr>)"
    using s by (simp add: sync_stock_def JNum bnd_def ret_def)
  then show ?thesis
    by (intro exI[of _ "AList.update (js_get (js_get (sh_shop (shopify w)) ''shop'') ''primary_location_id'',
                                js_get v ''inventory_item_id'') a (sh_levels (shopify w))"]
              exI[of _ "[Shopify GetShop,
                 Shopify (PostInventorySet
                   (js_get (js_get (sh_shop (shopify w)) ''shop'') ''primary_location_id'')
                   (js_get v ''inventory_item_id'') a)]"]) simp
next
  case JUndef
  have "sync_stock P item v w = (Inr (), w\<lparr>shopify := (shopify w)\<lparr>sh_levels := sh_levels (shopify w)\<rparr>,
          calls := calls w @ []\<rparr>)"
    by (simp add: sync_stock_def JUndef ret_def)
  then show ?thesis by (intro exI[of _ "sh_levels (shopify w)"] exI[of _ "[]"]) simp
next
  case JNull
  have "sync_stock P item v w = (Inr (), w\<lparr>shopify := (shopify w)\<lparr>sh_levels := sh_levels (shopify w)\<rparr>,
          calls := calls w @ []\<rparr>)"
    by (simp add: sync_stock_def JNull ret_def)
  then show ?thesis by (intro exI[of _ "sh_levels (shopify w)"] exI[of _ "[]"]) simp
next
  case (JBool b)
  have "sync_stock P item v w = (Inr (), w\<lparr>shopify := (shopify w)\<lparr>sh_levels := sh_levels (shopify w)\<rparr>,
          calls := calls w @ []\<rparr>)"
    by (simp add: sync_stock_def JBool ret_def)
  then show ?thesis by (intro exI[of _ "sh_levels (shopify w)"] exI[of _ "[]"]) simp
next
  case (JStr s)
  have "sync_stock P item v w = (Inr (), w\<lparr>shopify := (shopify w)\<lparr>sh_levels := sh_levels (shopify w)\<rparr>,
          calls := calls w @ []\<rparr>)"
    by (simp add: sync_stock_def JStr ret_def)
  then show ?thesis by (intro exI[of _ "sh_levels (shopify w)"] exI[of _ "[]"]) simp
next
  case (JArr xs)
  have "sync_stock P item v w = (Inr (), w\<lparr>shopify := (shopify w)\<lparr>sh_levels := sh_levels (shopify w)\<rparr>,
          calls := calls w @ []\<rparr>)"
    by (simp add: sync_stock_def JArr ret_def)
  then show ?thesis by (intro exI[of _ "sh_levels (shopify w)"] exI[of _ "[]"]) simp
next
  case (JObj kvs)
  have "sync_stock P item v w = (Inr (), w\<lparr>shopify := (shopify w)\<lparr>sh_levels := sh_levels (shopify w)\<rparr>,
          calls := calls w @ []\<rparr>)"
    by (simp add: sync_stock_def JObj ret_def)
  then show ?thesis by (intro exI[of _ "sh_levels (shopify w)"] exI[of _ "[]"]) simp
qed

lemma chosen_variant_levels [simp]:
  "chosen_variant (S\<lparr>sh_levels := L\<rparr>) sku = chosen_variant S sku"
  by (simp add: chosen_variant_def variant_docs_def)

lemma price_due_levels [simp]: "price_due P (S\<lparr>sh_levels := L\<rparr>) item = price_due P S item"
  by (simp add: price_due_def resolvable_def variant_id_def)

lemma after_item_levels [simp]:
  "after_item P (S\<lparr>sh_levels := L\<rparr>) item = (after_item P S item)\<lparr>sh_levels := L\<rparr>"
  by (simp add: after_item_def variant_id_def)

lemma after_items_levels [simp]:
  "after_items P (S\<lparr>sh_levels := L\<rparr>) xs = (after_items P S xs)\<lparr>sh_levels := L\<rparr>"
  by (induction xs arbitrary: S) simp_all

lemma price_run_levels [simp]: "price_run P (S\<lparr>sh_levels := L\<rparr>) xs = price_run P S xs"
  by (induction xs arbitrary: S) simp_all

lemma after_item_fixed [simp]:
  "sh_search (after_item P S item) = sh_search S"
  "sh_shop (after_item P S item) = sh_shop S"
  "sh_fault (after_item P S item) = sh_fault S"
  "sh_price_text (after_item P S item) = sh_price_text S"
  "sh_levels (after_item P S item) = sh_levels S"
  by (simp_all add: after_item_def)

lemma after_items_fixed [simp]:
  "sh_search (after_items P S xs) = sh_search S"
  "sh_shop (after_items P S xs) = sh_shop S"
  "sh_fault (after_items P S xs) = sh_fault S"
  "sh_price_text (after_items P S xs) = sh_price_text S"
  "sh_levels (after_items P S xs) = sh_levels S"
  by (induction xs arbitrary: S) simp_all

lemma ids_set_price:
  "list_all has_id (map (set_price i p) V)
     = list_all has_id V"
  by (simp add: list_all_iff has_id_def js_get_set_price_other del: js_get.simps)

lemma ids_after_item:
  "list_all has_id (sh_variants (after_item P S item))
     = list_all has_id (sh_variants S)"
  by (simp add: after_item_def ids_set_price)

lemma ids_after_items:
  "list_all has_id (sh_variants (after_items P S xs))
     = list_all has_id (sh_variants S)"
  by (induction xs arbitrary: S) (simp_all add: ids_after_item)

lemma storefront_ready_after:
  assumes "storefront_ready w"
  shows "storefront_ready (w\<lparr>shopify := (after_items P (shopify w) xs)\<lparr>sh_levels := L\<rparr>, calls := c\<rparr>)"
  using assms by (simp add: storefront_ready_def ids_after_items)

lemma zoho_ok_after:
  "zoho_ok (w\<lparr>shopify := S, calls := c\<rparr>) = zoho_ok w"
  by (simp add: zoho_ok_def)

lemma syncItem_ready:
  assumes "storefront_ready w" and "\<not> js_nullish item"
  shows "\<exists>L cs. syncItem P item w =
             (Inr (), w\<lparr>shopify := (after_item P (shopify w) item)\<lparr>sh_levels := L\<rparr>,
                        calls := calls w @ cs\<rparr>)
           \<and> price_calls cs = price_due P (shopify w) item \<and> page_requests cs = []"
proof -
  let ?S = "shopify w"
  let ?sku = "js_get item ''sku''"
  let ?v = "chosen_variant ?S ?sku"
  have quiet: "\<exists>L cs. (Inr (), w\<lparr>calls := calls w @ k\<rparr>) =
             (Inr (), w\<lparr>shopify := (after_item P ?S item)\<lparr>sh_levels := L\<rparr>,
                        calls := calls w @ cs\<rparr>)
           \<and> price_calls cs = price_due P ?S item \<and> page_requests cs = []"
    if "price_due P ?S item = []" "price_calls k = []" "page_requests k = []" for k
    using that
    by (intro exI[of _ "sh_levels ?S"] exI[of _ k]) (simp add: after_item_def)
  show ?thesis
  proof (cases "js_truthy ?sku")
    case False
    have "syncItem P item w = (Inr (), w\<lparr>calls := calls w @ []\<rparr>)"
      using False assms(2) by (simp add: syncItem_def exec)
    moreover have "price_due P ?S item = []" using False by (simp add: price_due_def resolvable_def)
    ultimately show ?thesis using quiet[of "[]"] by simp
  next
    case sku: True
    have fv: "findVariantBySKU ?sku w = (Inr ?v, w\<lparr>calls := calls w @ [Shopify (GetVariantsBySku ?sku)]\<rparr>)"
      using assms(1) by (simp add: findVariantBySKU_eq storefront_ready_def)
    show ?thesis
    proof (cases "js_truthy ?v")
      case False
      have "syncItem P item w = (Inr (), w\<lparr>calls := calls w @ [Shopify (GetVariantsBySku ?sku)]\<rparr>)"
        using False sku assms(2) fv by (simp add: syncItem_def exec bnd_Inr)
      moreover have "price_due P ?S item = []" using False by (simp add: price_due_def resolvable_def)
      ultimately show ?thesis using quiet[of "[Shopify (GetVariantsBySku ?sku)]"] by simp
    next
      case v: True
      let ?w1 = "w\<lparr>calls := calls w @ [Shopify (GetVariantsBySku ?sku)]\<rparr>"
      have r1: "storefront_ready ?w1" using assms(1) by (simp add: storefront_ready_def)
      have sp: "sync_price P item ?v ?w1 =
          (Inr (), ?w1\<lparr>shopify := after_item P ?S item,
                      calls := calls ?w1 @ price_due P ?S item\<rparr>)"
        using sync_price_ready[OF r1, of item P] sku v by simp
      let ?w2 = "?w1\<lparr>shopify := after_item P ?S item, calls := calls ?w1 @ price_due P ?S item\<rparr>"
      have r2: "storefront_ready ?w2"
        using assms(1) by (simp add: storefront_ready_def ids_after_item)
      obtain L cs where ss: "sync_stock P item ?v ?w2 =
            (Inr (), ?w2\<lparr>shopify := (shopify ?w2)\<lparr>sh_levels := L\<rparr>, calls := calls ?w2 @ cs\<rparr>)"
          and cs: "price_calls cs = []" "page_requests cs = []"
        using sync_stock_ready[OF r2, of P item ?v] by blast
      have "syncItem P item w = bnd (sync_price P item ?v) (\<lambda>_. sync_stock P item ?v) ?w1"
        by (rule syncItem_resolved[OF sku fv v])
      also have "\<dots> = sync_stock P item ?v ?w2"
        using sp by (simp add: bnd_def)
      finally have "syncItem P item w =
          (Inr (), w\<lparr>shopify := (after_item P ?S item)\<lparr>sh_levels := L\<rparr>,
                     calls := calls w @ ([Shopify (GetVariantsBySku ?sku)] @ price_due P ?S item @ cs)\<rparr>)"
        using ss by simp
      then show ?thesis using cs
        by (intro exI[of _ L] exI[of _ "[Shopify (GetVariantsBySku ?sku)] @ price_due P ?S item @ cs"])
           simp
    qed
  qed
qed

lemma for_each_ready:
  assumes "storefront_ready w" and "list_all (\<lambda>x. \<not> js_nullish x) xs"
  shows "\<exists>L cs. for_each (syncItem P) xs w =
             (Inr (), w\<lparr>shopify := (after_items P (shopify w) xs)\<lparr>sh_levels := L\<rparr>,
                        calls := calls w @ cs\<rparr>)
           \<and> price_calls cs = price_run P (shopify w) xs \<and> page_requests cs = []"
  using assms
proof (induction xs arbitrary: w)
  case Nil
  show ?case
    by (intro exI[of _ "sh_levels (shopify w)"] exI[of _ "[]"]) (simp add: ret_def)
next
  case (Cons x xs)
  from Cons.prems have nn: "\<not> js_nullish x" and rest: "list_all (\<lambda>x. \<not> js_nullish x) xs"
    by simp_all
  obtain L1 cs1 where s1: "syncItem P x w =
             (Inr (), w\<lparr>shopify := (after_item P (shopify w) x)\<lparr>sh_levels := L1\<rparr>,
                        calls := calls w @ cs1\<rparr>)"
      and c1: "price_calls cs1 = price_due P (shopify w) x" "page_requests cs1 = []"
    using syncItem_ready[OF Cons.prems(1) nn, where P=P] by blast
  let ?w1 = "w\<lparr>shopify := (after_item P (shopify w) x)\<lparr>sh_levels := L1\<rparr>, calls := calls w @ cs1\<rparr>"
  have r1: "storefront_ready ?w1"
    using storefront_ready_after[OF Cons.prems(1), where P=P and xs="[x]" and L=L1
        and c="calls w @ cs1"] by simp
  obtain L2 cs2 where s2: "for_each (syncItem P) xs ?w1 =
             (Inr (), ?w1\<lparr>shopify := (after_items P (shopify ?w1) xs)\<lparr>sh_levels := L2\<rparr>,
                        calls := calls ?w1 @ cs2\<rparr>)"
      and c2: "price_calls cs2 = price_run P (shopify ?w1) xs" "page_requests cs2 = []"
    using Cons.IH[OF r1 rest] by blast
  have "for_each (syncItem P) (x # xs) w = for_each (syncItem P) xs ?w1"
    using s1 by (simp add: bnd_def)
  then have "for_each (syncItem P) (x # xs) w =
      (Inr (), w\<lparr>shopify := (after_items P (shopify w) (x # xs))\<lparr>sh_levels := L2\<rparr>,
                 calls := calls w @ (cs1 @ cs2)\<rparr>)"
    using s2 by simp
  then show ?case using c1 c2
    by (intro exI[of _ L2] exI[of _ "cs1 @ cs2"]) simp
qed

lemma catalog_page_cases:
  assumes "well_formed_page data" and "\<not> no_items data"
  shows "(case page_items data of
            JArr xs \<Rightarrow> for_each (syncItem P) xs
          | JStr str \<Rightarrow> for_each (syncItem P) (js_elements (JStr str))
          | _ \<Rightarrow> raise TypeError) = for_each (syncItem P) (catalog_page data)"
  using assms by (auto simp: well_formed_page_def catalog_page_def split: json.splits)

lemma sync_page_body_ready:
  assumes "storefront_ready w" and "well_formed_page data"
  shows "\<exists>L cs. sync_page_body P data w =
             (Inr (\<not> stops_at data),
              w\<lparr>shopify := (after_items P (shopify w) (catalog_page data))\<lparr>sh_levels := L\<rparr>,
                calls := calls w @ cs\<rparr>)
           \<and> price_calls cs = price_run P (shopify w) (catalog_page data) \<and> page_requests cs = []"
proof (cases "no_items data")
  case True
  have nn: "\<not> js_nullish data" using assms(2) by (simp add: well_formed_page_def)
  have "sync_page_body P data w = (Inr False, w)"
    using True nn by (simp add: sync_page_body_def exec)
  then show ?thesis using True
    by (intro exI[of _ "sh_levels (shopify w)"] exI[of _ "[]"])
       (simp add: stops_at_def catalog_page_def)
next
  case False
  have nn: "\<not> js_nullish data" using assms(2) by (simp add: well_formed_page_def)
  have items: "list_all (\<lambda>x. \<not> js_nullish x) (catalog_page data)"
    using assms(2) by (simp add: well_formed_page_def)
  obtain L cs where f: "for_each (syncItem P) (catalog_page data) w =
             (Inr (), w\<lparr>shopify := (after_items P (shopify w) (catalog_page data))\<lparr>sh_levels := L\<rparr>,
                        calls := calls w @ cs\<rparr>)"
      and c: "price_calls cs = price_run P (shopify w) (catalog_page data)" "page_requests cs = []"
    using for_each_ready[OF assms(1) items, where P=P] by blast
  have "sync_page_body P data w =
      bnd (for_each (syncItem P) (catalog_page data)) (\<lambda>_. ret (has_more_page data)) w"
    using False nn by (simp add: sync_page_body_def exec catalog_page_cases[OF assms(2) False])
  then have "sync_page_body P data w =
      (Inr (has_more_page data),
       w\<lparr>shopify := (after_items P (shopify w) (catalog_page data))\<lparr>sh_levels := L\<rparr>,
         calls := calls w @ cs\<rparr>)"
    using f by (simp add: bnd_def ret_def)
  then show ?thesis using c False
    by (intro exI[of _ L] exI[of _ cs]) (simp add: stops_at_def)
qed

lemma after_items_append [simp]:
  "after_items P S (xs @ ys) = after_items P (after_items P S xs) ys"
  by (induction xs arbitrary: S) simp_all

lemma price_run_append [simp]:
  "price_run P S (xs @ ys) = price_run P S xs @ price_run P (after_items P S xs) ys"
  by (induction xs arbitrary: S) simp_all

lemma sync_ready_after:
  assumes "sync_ready w" "env w' = env w" "zoho w' = zoho w"
    and "shopify w' = (after_items P (shopify w) xs)\<lparr>sh_levels := L\<rparr>"
  shows "sync_ready w'"
  using assms by (simp add: sync_ready_def zoho_ok_def storefront_ready_def ids_after_items)

lemma listZohoItemsPaged_ok:
  "zoho_ok w \<Longrightarrow>
   listZohoItemsPaged page w =
     (Inr (z_items_page (zoho w) page),
      w\<lparr>calls := calls w @ [Zoho PostToken, Zoho (GetItemsPage page)]\<rparr>)"
  by (simp add: listZohoItemsPaged_def zohoFetch_ok)

lemma page_requests_page [simp]:
  "page_requests [Zoho PostToken, Zoho (GetItemsPage n)] = [n]"
  by (simp add: page_requests_def)

lemma sync_page_ready:
  assumes "sync_ready w" and "well_formed_page (z_items_page (zoho w) n)"
  shows "\<exists>w' L. sync_page P n w = (Inr (\<not> stops_at (z_items_page (zoho w) n)), w')
           \<and> env w' = env w \<and> zoho w' = zoho w
           \<and> shopify w' = (after_items P (shopify w) (catalog_page (z_items_page (zoho w) n)))\<lparr>sh_levels := L\<rparr>
           \<and> price_calls (calls w') =
                price_calls (calls w) @ price_run P (shopify w) (catalog_page (z_items_page (zoho w) n))
           \<and> page_requests (calls w') = page_requests (calls w) @ [n]"
proof -
  let ?data = "z_items_page (zoho w) n"
  let ?w0 = "w\<lparr>console := console w @ [(LOG, ''Zoho sync: fetching page'', [JNum (Fin (of_nat n))])]\<rparr>"
  let ?w1 = "?w0\<lparr>calls := calls ?w0 @ [Zoho PostToken, Zoho (GetItemsPage n)]\<rparr>"
  have ok0: "zoho_ok ?w0" using assms(1) by (simp add: sync_ready_def zoho_ok_def)
  have l: "listZohoItemsPaged n ?w0 = (Inr ?data, ?w1)"
    using listZohoItemsPaged_ok[OF ok0, of n] by simp
  have r1: "storefront_ready ?w1" using assms(1) by (simp add: sync_ready_def storefront_ready_def)
  obtain L cs where b: "sync_page_body P ?data ?w1 =
             (Inr (\<not> stops_at ?data),
              ?w1\<lparr>shopify := (after_items P (shopify ?w1) (catalog_page ?data))\<lparr>sh_levels := L\<rparr>,
                  calls := calls ?w1 @ cs\<rparr>)"
      and c: "price_calls cs = price_run P (shopify ?w1) (catalog_page ?data)" "page_requests cs = []"
    using sync_page_body_ready[OF r1 assms(2), where P=P] by blast
  have "sync_page P n w = sync_page_body P ?data ?w1"
    using l by (simp add: sync_page_eq bnd_def)
  then have run: "sync_page P n w = (Inr (\<not> stops_at ?data),
              ?w1\<lparr>shopify := (after_items P (shopify ?w1) (catalog_page ?data))\<lparr>sh_levels := L\<rparr>,
                  calls := calls ?w1 @ cs\<rparr>)"
    using b by simp
  let ?w' = "?w1\<lparr>shopify := (after_items P (shopify ?w1) (catalog_page ?data))\<lparr>sh_levels := L\<rparr>,
                  calls := calls ?w1 @ cs\<rparr>"
  have "sync_page P n w = (Inr (\<not> stops_at ?data), ?w')
           \<and> env ?w' = env w \<and> zoho ?w' = zoho w
           \<and> shopify ?w' = (after_items P (shopify w) (catalog_page ?data))\<lparr>sh_levels := L\<rparr>
           \<and> price_calls (calls ?w') = price_calls (calls w) @ price_run P (shopify w) (catalog_page ?data)
           \<and> page_requests (calls ?w') = page_requests (calls w) @ [n]"
    using run c by simp
  then show ?thesis by blast
qed

lemma sync_pages_ready:
  assumes "sync_ready w"
    and "stops_at (z_items_page (zoho w) N)"
    and "\<forall>n. page \<le> n \<and> n < N \<longrightarrow> \<not> stops_at (z_items_page (zoho w) n)"
    and "\<forall>n. page \<le> n \<and> n \<le> N \<longrightarrow> well_formed_page (z_items_page (zoho w) n)"
    and "page \<le> N"
  shows "\<exists>w' L. sync_pages P page w = Some (Inr (), w')
           \<and> env w' = env w \<and> zoho w' = zoho w
           \<and> shopify w' =
               (after_items P (shopify w)
                  (concat (map (\<lambda>n. catalog_page (z_items_page (zoho w) n)) [page..<Suc N])))\<lparr>sh_levels := L\<rparr>
           \<and> price_calls (calls w') =
               price_calls (calls w)
               @ price_run P (shopify w)
                   (concat (map (\<lambda>n. catalog_page (z_items_page (zoho w) n)) [page..<Suc N]))
           \<and> page_requests (calls w') = page_requests (calls w) @ [page..<Suc N]"
  using assms
proof (induction "N - page" arbitrary: page w)
  case 0
  then have pN: "page = N" by simp
  have wf: "well_formed_page (z_items_page (zoho w) page)" using 0 by simp
  obtain w1 L where sp: "sync_page P page w = (Inr (\<not> stops_at (z_items_page (zoho w) page)), w1)"
    and f: "env w1 = env w" "zoho w1 = zoho w"
      "shopify w1 = (after_items P (shopify w) (catalog_page (z_items_page (zoho w) page)))\<lparr>sh_levels := L\<rparr>"
      "price_calls (calls w1) =
         price_calls (calls w) @ price_run P (shopify w) (catalog_page (z_items_page (zoho w) page))"
      "page_requests (calls w1) = page_requests (calls w) @ [page]"
    using sync_page_ready[OF "0.prems"(1) wf, where P=P] by blast
  have s: "sync_pages P page w = Some (Inr (), w1)"
    using sp "0.prems"(2) pN by (subst sync_pages.simps) simp
  show ?case using s f pN by (intro exI[of _ w1] exI[of _ L]) simp
next
  case (Suc d)
  then have lt: "page < N" by simp
  have wf: "well_formed_page (z_items_page (zoho w) page)" using Suc.prems lt by simp
  have go: "\<not> stops_at (z_items_page (zoho w) page)" using Suc.prems lt by simp
  obtain w1 L where sp: "sync_page P page w = (Inr (\<not> stops_at (z_items_page (zoho w) page)), w1)"
    and f: "env w1 = env w" "zoho w1 = zoho w"
      "shopify w1 = (after_items P (shopify w) (catalog_page (z_items_page (zoho w) page)))\<lparr>sh_levels := L\<rparr>"
      "price_calls (calls w1) =
         price_calls (calls w) @ price_run P (shopify w) (catalog_page (z_items_page (zoho w) page))"
      "page_requests (calls w1) = page_requests (calls w) @ [page]"
    using sync_page_ready[OF Suc.prems(1) wf, where P=P] by blast
  have r1: "sync_ready w1" by (rule sync_ready_after[OF Suc.prems(1) f(1,2,3)])
  have s: "sync_pages P page w = sync_pages P (Suc page) w1"
    using sp go by (subst sync_pages.simps) simp
  have d: "d = N - Suc page" using Suc.hyps(2) by simp
  have p2: "stops_at (z_items_page (zoho w1) N)" using Suc.prems(2) f(2) by simp
  have p3: "\<forall>n. Suc page \<le> n \<and> n < N \<longrightarrow> \<not> stops_at (z_items_page (zoho w1) n)"
    using Suc.prems(3) f(2) by simp
  have p4: "\<forall>n. Suc page \<le> n \<and> n \<le> N \<longrightarrow> well_formed_page (z_items_page (zoho w1) n)"
    using Suc.prems(4) f(2) by simp
  have p5: "Suc page \<le> N" using lt by simp
  obtain w' L' where ih: "sync_pages P (Suc page) w1 = Some (Inr (), w')"
    "env w' = env w1" "zoho w' = zoho w1"
    "shopify w' =
       (after_items P (shopify w1)
          (concat (map (\<lambda>n. catalog_page (z_items_page (zoho w1) n)) [Suc page..<Suc N])))\<lparr>sh_levels := L'\<rparr>"
    "price_calls (calls w') =
       price_calls (calls w1)
       @ price_run P (shopify w1)
           (concat (map (\<lambda>n. catalog_page (z_items_page (zoho w1) n)) [Suc page..<Suc N]))"
    "page_requests (calls w') = page_requests (calls w1) @ [Suc page..<Suc N]"
    using Suc.hyps(1)[OF d r1 p2 p3 p4 p5] by blast
  have up: "[page..<Suc N] = page # [Suc page..<Suc N]"
    using lt by (simp add: upt_conv_Cons)
  show ?case
    unfolding s up using ih f
    by (intro exI[of _ w'] exI[of _ L']) simp
qed

lemma syncZohoToShopify_ready:
  assumes "sync_ready w"
    and "1 \<le> N" and "stops_at (z_items_page (zoho w) N)"
    and "\<forall>n. 1 \<le> n \<and> n < N \<longrightarrow> \<not> stops_at (z_items_page (zoho w) n)"
    and "\<forall>n. 1 \<le> n \<and> n \<le> N \<longrightarrow> well_formed_page (z_items_page (zoho w) n)"
  shows "\<exists>w' L. syncZohoToShopify P w = Some (Inr sync_complete, w')
           \<and> env w' = env w \<and> zoho w' = zoho w
           \<and> shopify w' = (after_items P (shopify w) (catalog_upto (zoho w) N))\<lparr>sh_levels := L\<rparr>
           \<and> price_calls (calls w') =
               price_calls (calls w) @ price_run P (shopify w) (catalog_upto (zoho w) N)
           \<and> page_requests (calls w') = page_requests (calls w) @ [1..<Suc N]"
proof -
  obtain w' L where r: "sync_pages P 1 w = Some (Inr (), w')"
    and f: "env w' = env w" "zoho w' = zoho w"
      "shopify w' = (after_items P (shopify w) (catalog_upto (zoho w) N))\<lparr>sh_levels := L\<rparr>"
      "price_calls (calls w') =
         price_calls (calls w) @ price_run P (shopify w) (catalog_upto (zoho w) N)"
      "page_requests (calls w') = page_requests (calls w) @ [1..<Suc N]"
    using sync_pages_ready[OF assms(1,3,4,5,2), where P=P] unfolding catalog_upto_def by blast
  have "syncZohoToShopify P w = Some (Inr sync_complete, w')"
    using r by (simp add: syncZohoToShopify_def sync_complete_def)
  then show ?thesis using f by blast
qed


lemma chosen_variant_after_item:
  "chosen_variant (after_item P S x) sku =
     (if price_due P S x = [] then chosen_variant S sku
      else reprice (variant_id S x) (sh_price_text S (zohoPrice P x)) (chosen_variant S sku))"
  by (simp add: after_item_def chosen_variant_reprice)

lemma resolvable_after_item [simp]: "resolvable (after_item P S x) y = resolvable S y"
  by (simp add: resolvable_def chosen_variant_after_item)

lemma variant_id_after_item [simp]: "variant_id (after_item P S x) y = variant_id S y"
  by (simp add: variant_id_def chosen_variant_after_item js_get_reprice_other)

lemma resolvable_after_items [simp]: "resolvable (after_items P S xs) y = resolvable S y"
  by (induction xs arbitrary: S) simp_all

lemma variant_id_after_items [simp]: "variant_id (after_items P S xs) y = variant_id S y"
  by (induction xs arbitrary: S) simp_all

lemma resolvable_after_fun [simp]:
  "resolvable (after_item P S x) = resolvable S"
  "resolvable (after_items P S xs) = resolvable S"
  "variant_id (after_item P S x) = variant_id S"
  "variant_id (after_items P S xs) = variant_id S"
  by (simp_all add: fun_eq_iff)








lemma sync_page_requests_sent:
  assumes "zoho_ok w"
  shows "page_requests (calls (snd (sync_page P n w))) = page_requests (calls w) @ [n]"
proof -
  let ?w0 = "w\<lparr>console := console w @ [(LOG, ''Zoho sync: fetching page'', [JNum (Fin (of_nat n))])]\<rparr>"
  let ?w1 = "?w0\<lparr>calls := calls ?w0 @ [Zoho PostToken, Zoho (GetItemsPage n)]\<rparr>"
  have ok0: "zoho_ok ?w0" using assms by (simp add: zoho_ok_def)
  have l: "listZohoItemsPaged n ?w0 = (Inr (z_items_page (zoho w) n), ?w1)"
    using listZohoItemsPaged_ok[OF ok0, of n] by simp
  have "sync_page P n w = sync_page_body P (z_items_page (zoho w) n) ?w1"
    using l by (simp add: sync_page_eq bnd_def)
  then have "page_requests (calls (snd (sync_page P n w))) = page_requests (calls ?w1)"
    using keepsD[OF keeps_sync_page_body[where f="\<lambda>w. page_requests (calls w)", OF keeps_pages_shopifyFetch]]
    by simp
  then show ?thesis by simp
qed

lemma sync_pages_stops:
  assumes "stops_at (z_items_page Z N)"
    and "\<forall>n. page \<le> n \<and> n < N \<longrightarrow> \<not> stops_at (z_items_page Z n)"
    and "page \<le> N" and "zoho w = Z"
  shows "\<exists>r w' k. sync_pages P page w = Some (r, w')
           \<and> page_requests (calls w') = page_requests (calls w) @ [page..<k]
           \<and> page \<le> k \<and> k \<le> Suc N \<and> ((\<exists>u. r = Inr u) \<longrightarrow> k = Suc N)
           \<and> (zoho_ok w \<longrightarrow> page < k)"
  using assms
proof (induction "N - page" arbitrary: page w)
  case 0
  then have pN: "page = N" by simp
  obtain res w1 where sp: "sync_page P page w = (res, w1)" by (cases "sync_page P page w")
  note c = sync_page_cases[OF sp]
  show ?case
  proof (cases res)
    case (Inl e)
    then have s: "sync_pages P page w = Some (Inl e, w1)"
      using sp by (subst sync_pages.simps) simp
    from c Inl have "page_requests (calls w1) = page_requests (calls w) @ [page..<page]
                   \<or> page_requests (calls w1) = page_requests (calls w) @ [page..<Suc page]"
      by auto
    moreover have "zoho_ok w \<longrightarrow> page_requests (calls w1) = page_requests (calls w) @ [page..<Suc page]"
      using sync_page_requests_sent[of w P page] sp by simp
    ultimately have "\<exists>k. page_requests (calls w1) = page_requests (calls w) @ [page..<k]
                  \<and> page \<le> k \<and> k \<le> Suc page \<and> (zoho_ok w \<longrightarrow> page < k)"
      by (metis le_refl le_Suc_eq lessI)
    then show ?thesis using s pN Inl by auto
  next
    case (Inr b)
    then have "\<not> b" using c 0 pN by simp
    then have s: "sync_pages P page w = Some (Inr (), w1)"
      using sp Inr by (subst sync_pages.simps) simp
    have "page_requests (calls w1) = page_requests (calls w) @ [page..<Suc N]"
      using c Inr pN by simp
    then show ?thesis using s pN by auto
  qed
next
  case (Suc d)
  then have lt: "page < N" by simp
  obtain res w1 where sp: "sync_page P page w = (res, w1)" by (cases "sync_page P page w")
  note c = sync_page_cases[OF sp]
  show ?case
  proof (cases res)
    case (Inl e)
    then have s: "sync_pages P page w = Some (Inl e, w1)"
      using sp by (subst sync_pages.simps) simp
    from c Inl have "page_requests (calls w1) = page_requests (calls w) @ [page..<page]
                   \<or> page_requests (calls w1) = page_requests (calls w) @ [page..<Suc page]"
      by auto
    moreover have "zoho_ok w \<longrightarrow> page_requests (calls w1) = page_requests (calls w) @ [page..<Suc page]"
      using sync_page_requests_sent[of w P page] sp by simp
    ultimately have "\<exists>k. page_requests (calls w1) = page_requests (calls w) @ [page..<k]
                  \<and> page \<le> k \<and> k \<le> Suc page \<and> (zoho_ok w \<longrightarrow> page < k)"
      by (metis le_refl le_Suc_eq lessI)
    then show ?thesis using s lt Inl by auto
  next
    case (Inr b)
    then have b using c Suc.prems lt by simp
    then have s: "sync_pages P page w = sync_pages P (Suc page) w1"
      using sp Inr by (subst sync_pages.simps) simp
    have "\<exists>r w' k. sync_pages P (Suc page) w1 = Some (r, w')
           \<and> page_requests (calls w') = page_requests (calls w1) @ [Suc page..<k]
           \<and> Suc page \<le> k \<and> k \<le> Suc N \<and> ((\<exists>u. r = Inr u) \<longrightarrow> k = Suc N)
           \<and> (zoho_ok w1 \<longrightarrow> Suc page < k)"
      using Suc.hyps(2) Suc.prems lt c by (intro Suc.hyps(1)) auto
    then obtain r w' k where k: "sync_pages P (Suc page) w1 = Some (r, w')"
       "page_requests (calls w') = page_requests (calls w1) @ [Suc page..<k]"
       "Suc page \<le> k" "k \<le> Suc N" "(\<exists>u. r = Inr u) \<longrightarrow> k = Suc N"
      by blast
    have "page_requests (calls w') = page_requests (calls w) @ [page..<k]"
      using k(2,3) c Inr by (simp add: upt_conv_Cons)
    then show ?thesis using s k by auto
  qed
qed

text \<open>
  Claim C7, as amended. Suppose some page, numbered from 1, has no items or says that
  there is no more page, and let \<open>N\<close> be the first such page. Then the sync run returns
  (with its result or with the error that aborted it), and the pages it has requested
  are exactly 1, 2, ..., \<open>k\<close> for some \<open>k\<close> up to \<open>N\<close>: it never asks for a page beyond
  \<open>N\<close>. When it returns without an error, \<open>k\<close> is \<open>N\<close>; when the backend is reachable,
  page 1 is requested. When both vendors are ready and the pages up to \<open>N\<close> can be
  processed, the run does return without an error: its reply is \<open>Sync complete\<close> and the
  pages it has requested are exactly 1 to \<open>N\<close>. A page with no items stops the loop
  whatever it says about further pages (\<open>stops_at\<close>).
\<close>

theorem sync_pagination_terminates:
  assumes "\<exists>n\<ge>1. stops_at (z_items_page (zoho w) n)"
  shows "\<exists>r w' k. syncZohoToShopify P w = Some (r, w')
           \<and> k \<le> (LEAST n. 1 \<le> n \<and> stops_at (z_items_page (zoho w) n))
           \<and> page_requests (calls w') = page_requests (calls w) @ [1..<Suc k]
           \<and> ((\<exists>j. r = Inr j) \<longrightarrow> k = (LEAST n. 1 \<le> n \<and> stops_at (z_items_page (zoho w) n)))
           \<and> (zoho_ok w \<longrightarrow> 1 \<le> k)
           \<and> (sync_ready w
               \<and> (\<forall>n. 1 \<le> n \<and> n \<le> (LEAST n. 1 \<le> n \<and> stops_at (z_items_page (zoho w) n))
                        \<longrightarrow> well_formed_page (z_items_page (zoho w) n))
               \<longrightarrow> r = Inr sync_complete
                   \<and> k = (LEAST n. 1 \<le> n \<and> stops_at (z_items_page (zoho w) n)))"
proof -
  define N where "N = (LEAST n. 1 \<le> n \<and> stops_at (z_items_page (zoho w) n))"
  have ex: "\<exists>n. 1 \<le> n \<and> stops_at (z_items_page (zoho w) n)"
    using assms by blast
  have N: "1 \<le> N \<and> stops_at (z_items_page (zoho w) N)"
    unfolding N_def by (rule LeastI_ex[OF ex])
  have "\<not> (1 \<le> n \<and> stops_at (z_items_page (zoho w) n))" if "n < N" for n
    using that unfolding N_def by (rule not_less_Least)
  then have least: "\<forall>n. 1 \<le> n \<and> n < N \<longrightarrow> \<not> stops_at (z_items_page (zoho w) n)"
    by blast
  have "\<exists>r w' k. sync_pages P 1 w = Some (r, w')
           \<and> page_requests (calls w') = page_requests (calls w) @ [1..<k]
           \<and> 1 \<le> k \<and> k \<le> Suc N \<and> ((\<exists>u. r = Inr u) \<longrightarrow> k = Suc N)
           \<and> (zoho_ok w \<longrightarrow> 1 < k)"
    using N least by (intro sync_pages_stops[where Z="zoho w"]) simp_all
  then obtain r w' k where run: "sync_pages P 1 w = Some (r, w')"
    and k: "page_requests (calls w') = page_requests (calls w) @ [1..<k]"
      "1 \<le> k" "k \<le> Suc N" "(\<exists>u. r = Inr u) \<longrightarrow> k = Suc N" "zoho_ok w \<longrightarrow> 1 < k"
    by blast
  define r' where "r' = (case r of Inl e \<Rightarrow> Inl e | Inr u \<Rightarrow> Inr sync_complete)"
  have a: "syncZohoToShopify P w = Some (r', w')"
    using run by (simp add: syncZohoToShopify_def r'_def sync_complete_def split: sum.splits)
  have b: "k - 1 \<le> N" using k by simp
  have c: "page_requests (calls w') = page_requests (calls w) @ [1..<Suc (k - 1)]"
    using k by simp
  have d: "(\<exists>j. r' = Inr j) \<longrightarrow> k - 1 = N"
    using k by (cases r) (simp_all add: r'_def)
  have e: "zoho_ok w \<longrightarrow> 1 \<le> k - 1" using k by auto
  have f: "r' = Inr sync_complete \<and> k - 1 = N"
    if "sync_ready w \<and> (\<forall>n. 1 \<le> n \<and> n \<le> N \<longrightarrow> well_formed_page (z_items_page (zoho w) n))"
  proof -
    from that have rd: "sync_ready w"
      and wf: "\<forall>n. 1 \<le> n \<and> n \<le> N \<longrightarrow> well_formed_page (z_items_page (zoho w) n)"
      by blast+
    obtain w'' where "syncZohoToShopify P w = Some (Inr sync_complete, w'')"
      using syncZohoToShopify_ready[OF rd conjunct1[OF N] conjunct2[OF N] least wf, where P=P]
      by blast
    then have "r' = Inr sync_complete" using a by simp
    then show ?thesis using d by simp
  qed
  have "syncZohoToShopify P w = Some (r', w') \<and> k - 1 \<le> N
        \<and> page_requests (calls w') = page_requests (calls w) @ [1..<Suc (k - 1)]
        \<and> ((\<exists>j. r' = Inr j) \<longrightarrow> k - 1 = N)
        \<and> (zoho_ok w \<longrightarrow> 1 \<le> k - 1)
        \<and> (sync_ready w \<and> (\<forall>n. 1 \<le> n \<and> n \<le> N \<longrightarrow> well_formed_page (z_items_page (zoho w) n))
            \<longrightarrow> r' = Inr sync_complete \<and> k - 1 = N)"
    using a b c d e f by blast
  then show ?thesis unfolding N_def by (intro exI)
qed

lemma well_formed_two_pages:
  "well_formed_page (z_items_page (zoho world_two_pages) n)"
  by (simp add: world_two_pages_def demo_world_def demo_zoho_def well_formed_page_def
        catalog_page_def no_items_def page_items_def js_or_def item_A_def)

lemma sync_ready_two_pages: "sync_ready world_two_pages"
  by (simp add: sync_ready_def zoho_ok_def storefront_ready_def world_two_pages_def demo_defs
        zoho_token_required_def zoho_required_def absent_def has_id_def variant_A_def)

theorem sync_pagination_terminates_witness:
  "(\<exists>n\<ge>1. stops_at (z_items_page (zoho world_two_pages) n))
   \<and> (\<exists>w'. syncZohoToShopify demo_platform world_two_pages = Some (Inr sync_complete, w')
         \<and> page_requests (calls w') = [1, 2])"
proof -
  have h: "\<exists>n\<ge>1. stops_at (z_items_page (zoho world_two_pages) n)"
    by (rule exI[of _ 2]) (simp add: stops_two_pages)
  have l: "(LEAST n. 1 \<le> n \<and> stops_at (z_items_page (zoho world_two_pages) n)) = 2"
    by (rule Least_equality) (auto simp: stops_two_pages)
  have c: "page_requests (calls world_two_pages) = []"
    by (simp add: world_two_pages_def demo_world_def)
  have u: "[1..<Suc 2] = [1, 2]" by (simp add: upt_conv_Cons)
  have rd: "sync_ready world_two_pages
            \<and> (\<forall>n. 1 \<le> n \<and> n \<le> 2 \<longrightarrow> well_formed_page (z_items_page (zoho world_two_pages) n))"
    by (simp add: sync_ready_two_pages well_formed_two_pages)
  obtain r w' k where run: "syncZohoToShopify demo_platform world_two_pages = Some (r, w')"
    and p: "page_requests (calls w') = [1..<Suc k]"
    and ok: "r = Inr sync_complete \<and> k = 2"
    using sync_pagination_terminates[OF h, of demo_platform, unfolded l c append_Nil] rd
    by blast
  have "syncZohoToShopify demo_platform world_two_pages = Some (Inr sync_complete, w')
         \<and> page_requests (calls w') = [1, 2]"
    using run p ok u by simp
  then show ?thesis using h by blast
qed

lemma zoho_ok_two_pages_down:
  "zoho_ok (world_two_pages_down\<lparr>console := c\<rparr>)"
  by (simp add: zoho_ok_def world_two_pages_down_def world_two_pages_def demo_defs
        zoho_token_required_def zoho_required_def absent_def)

lemma syncItem_two_pages_down:
  "syncItem P (JObj item_A) (world_two_pages_down\<lparr>console := c, calls := cs\<rparr>) =
     (Inl (ShopifyStatus 503 ''unavailable''),
      world_two_pages_down\<lparr>console := c, calls := cs @ [Shopify (GetVariantsBySku (JStr ''A''))]\<rparr>)"
  by (simp add: syncItem_def findVariantBySKU_eq bnd_def js_dot_def ret_def item_A_def
        world_two_pages_down_def world_two_pages_def demo_defs absent_def)

lemma sync_page_two_pages_down:
  "sync_page P 1 world_two_pages_down =
     (Inl (ShopifyStatus 503 ''unavailable''),
      world_two_pages_down\<lparr>
        calls := [Zoho PostToken, Zoho (GetItemsPage 1), Shopify (GetVariantsBySku (JStr ''A''))],
        console := [(LOG, ''Zoho sync: fetching page'', [JNum (Fin 1)])]\<rparr>)"
proof -
  have c0: "calls world_two_pages_down = []" "console world_two_pages_down = []"
    by (simp_all add: world_two_pages_down_def world_two_pages_def demo_world_def)
  have pg: "z_items_page (zoho world_two_pages_down) (Suc 0) =
      JObj [(''items'', JArr [JObj item_A]),
            (''page_context'', JObj [(''has_more_page'', JBool True)])]"
    by (simp add: world_two_pages_down_def world_two_pages_def)
  have body: "sync_page_body P (JObj [(''items'', JArr [JObj item_A]),
            (''page_context'', JObj [(''has_more_page'', JBool True)])])
         (world_two_pages_down\<lparr>console := c, calls := cs\<rparr>) =
       (Inl (ShopifyStatus 503 ''unavailable''),
        world_two_pages_down\<lparr>console := c, calls := cs @ [Shopify (GetVariantsBySku (JStr ''A''))]\<rparr>)"
    for cs c
    by (simp add: sync_page_body_def no_items_def page_items_def js_or_def bnd_def js_dot_def
          ret_def syncItem_two_pages_down)
  show ?thesis
    by (simp add: sync_page_eq bnd_def listZohoItemsPaged_ok zoho_ok_two_pages_down c0 pg)
       (simp add: body)
qed

text \<open>
  Claim C7 as the specification states it does not hold. Page 1 has the item A and says
  there is one more page, page 2 has no items: page 2 is the first page on which the
  loop stops. The storefront answers 503 to the variant lookup for A, the error leaves
  the loop, and the run ends with it after page 1, without asking for page 2.
\<close>

theorem sync_pagination_terminates_counterexample:
  "stops_at (z_items_page (zoho world_two_pages_down) 2)
   \<and> \<not> stops_at (z_items_page (zoho world_two_pages_down) 1)
   \<and> fst (the (syncZohoToShopify demo_platform world_two_pages_down))
       = Inl (ShopifyStatus 503 ''unavailable'')
   \<and> page_requests (calls (snd (the (syncZohoToShopify demo_platform world_two_pages_down)))) = [1]"
proof -
  have z: "zoho world_two_pages_down = zoho world_two_pages"
    by (simp add: world_two_pages_down_def)
  have "sync_pages demo_platform 1 world_two_pages_down =
     Some (Inl (ShopifyStatus 503 ''unavailable''),
      world_two_pages_down\<lparr>
        calls := [Zoho PostToken, Zoho (GetItemsPage 1), Shopify (GetVariantsBySku (JStr ''A''))],
        console := [(LOG, ''Zoho sync: fetching page'', [JNum (Fin 1)])]\<rparr>)"
    using sync_page_two_pages_down[of demo_platform] by (subst sync_pages.simps) simp
  then show ?thesis
    by (simp add: syncZohoToShopify_def z stops_two_pages page_requests_def)
qed










section \<open>The backend webhook handling a request twice\<close>

lemma put_levels_simps [simp]:
  "put_levels [] L = L"
  "put_levels ((k, a) # ws) L = put_levels ws (AList.update k a L)"
  "put_levels (ws @ ws') L = put_levels ws' (put_levels ws L)"
  by (simp_all add: put_levels_def)

lemma update_swap_present:
  "k \<noteq> k' \<Longrightarrow> k \<in> fst ` set N \<Longrightarrow>
   AList.update k v (AList.update k' v' N) = AList.update k' v' (AList.update k v N)"
  by (induction N) auto

lemma put_levels_absorbs:
  "k \<in> fst ` set ws \<Longrightarrow> k \<in> fst ` set N \<Longrightarrow> put_levels ws (AList.update k v N) = put_levels ws N"
proof (induction ws arbitrary: N)
  case Nil
  then show ?case by simp
next
  case (Cons p ws)
  obtain k' v' where p: "p = (k', v')" by (cases p)
  show ?case
  proof (cases "k' = k")
    case True
    then show ?thesis by (simp add: p)
  next
    case False
    then have kin: "k \<in> fst ` set ws" using Cons.prems(1) p by auto
    have kin': "k \<in> fst ` set (AList.update k' v' N)"
      using Cons.prems(2) by (simp add: AList.dom_update)
    have "put_levels (p # ws) (AList.update k v N)
            = put_levels ws (AList.update k v (AList.update k' v' N))"
      using update_swap_present[OF _ Cons.prems(2), of k' v v'] False by (simp add: p)
    also have "\<dots> = put_levels ws (AList.update k' v' N)"
      by (rule Cons.IH[OF kin kin'])
    finally show ?thesis by (simp add: p)
  qed
qed

lemma map_of_put_levels:
  "map_of (put_levels ws L) k =
     (case map_of (rev ws) k of Some v \<Rightarrow> Some v | None \<Rightarrow> map_of L k)"
proof (induction ws arbitrary: L)
  case Nil
  then show ?case by simp
next
  case (Cons p ws)
  obtain k' v' where p: "p = (k', v')" by (cases p)
  show ?case
    by (simp add: p Cons.IH AList.update_conv' map_add_def split: option.splits)
qed

lemma keys_map_of_rev: "k \<in> fst ` set ws \<longleftrightarrow> map_of (rev ws) k \<noteq> None"
  by (simp add: map_of_eq_None_iff)

lemma put_levels_settled:
  "(\<And>k. k \<in> fst ` set ws \<Longrightarrow> map_of M k = map_of (rev ws) k) \<Longrightarrow> put_levels ws M = M"
proof (induction ws arbitrary: M)
  case Nil
  then show ?case by simp
next
  case (Cons p ws)
  obtain k v where p: "p = (k, v)" by (cases p)
  have rest: "map_of M k' = map_of (rev ws) k'" if k': "k' \<in> fst ` set ws" for k'
  proof -
    have "map_of (rev ws) k' \<noteq> None" using k' by (simp add: keys_map_of_rev)
    moreover have "k' \<in> fst ` set (p # ws)" using k' by simp
    then have "map_of M k' = map_of (rev (p # ws)) k'" by (rule Cons.prems)
    ultimately show ?thesis
      by (auto simp: p map_add_def split: option.splits)
  qed
  have "k \<in> fst ` set (p # ws)" by (simp add: p)
  then have here: "map_of M k = map_of (rev (p # ws)) k" by (rule Cons.prems)
  show ?case
  proof (cases "k \<in> fst ` set ws")
    case True
    then have some: "map_of (rev ws) k \<noteq> None" by (simp add: keys_map_of_rev)
    then have "map_of M k \<noteq> None" using here by (auto simp: p map_add_def split: option.splits)
    then have kM: "k \<in> fst ` set M" by (simp add: map_of_eq_None_iff)
    have "put_levels (p # ws) M = put_levels ws (AList.update k v M)" by (simp add: p)
    also have "\<dots> = put_levels ws M" by (rule put_levels_absorbs[OF True kM])
    also have "\<dots> = M" by (rule Cons.IH[OF rest])
    finally show ?thesis .
  next
    case False
    then have none: "map_of (rev ws) k = None" by (simp add: keys_map_of_rev)
    then have "map_of M k = Some v" using here by (simp add: p map_add_def)
    then have triv: "AList.update k v M = M" by (rule AList.update_triv)
    show ?thesis using Cons.IH[OF rest] triv by (simp add: p)
  qed
qed

lemma put_levels_twice: "put_levels ws (put_levels ws L) = put_levels ws L"
proof (rule put_levels_settled)
  fix k assume "k \<in> fst ` set ws"
  then have "map_of (rev ws) k \<noteq> None" by (simp add: keys_map_of_rev)
  then show "map_of (put_levels ws L) k = map_of (rev ws) k"
    by (auto simp: map_of_put_levels split: option.splits)
qed

lemma shopifyFetch_answer:
  "shopifyFetch r w =
     (shopify_answer (env w) (shopify w) r,
      if absent (env w ''SHOPIFY_ACCESS_TOKEN'') \<or> absent (env w ''SHOPIFY_STORE_DOMAIN'') then w
      else w\<lparr>shopify := snd (shopify_respond r (shopify w)), calls := calls w @ [Shopify r]\<rparr>)"
  by (simp add: shopifyFetch_eq shopify_answer_def)

lemma bnd_shopifyFetch:
  "bnd (shopifyFetch r) f w =
     (case shopify_answer (env w) (shopify w) r of
        Inl e \<Rightarrow> (Inl e,
          if absent (env w ''SHOPIFY_ACCESS_TOKEN'') \<or> absent (env w ''SHOPIFY_STORE_DOMAIN'') then w
          else w\<lparr>shopify := snd (shopify_respond r (shopify w)), calls := calls w @ [Shopify r]\<rparr>)
      | Inr d \<Rightarrow> f d
          (if absent (env w ''SHOPIFY_ACCESS_TOKEN'') \<or> absent (env w ''SHOPIFY_STORE_DOMAIN'') then w
           else w\<lparr>shopify := snd (shopify_respond r (shopify w)), calls := calls w @ [Shopify r]\<rparr>))"
  by (simp add: bnd_def shopifyFetch_answer split: sum.splits)

lemma shopify_respond_reads:
  "snd (shopify_respond GetShop S) = S"
  "snd (shopify_respond (GetInventoryLevels i) S) = S"
  "snd (shopify_respond (GetVariantsBySku q) S) = S"
  by (simp_all add: shopify_respond_def split: option.splits)

lemma shopify_answer_calls [simp]:
  "shopify_answer (env (w\<lparr>calls := c\<rparr>)) (shopify (w\<lparr>calls := c\<rparr>)) r = shopify_answer (env w) (shopify w) r"
  by simp

lemma getPrimaryLocationId_eq:
  "\<exists>cs. getPrimaryLocationId P w = (primary_location P (env w) (shopify w), w\<lparr>calls := calls w @ cs\<rparr>)"
proof (cases "shopify_answer (env w) (shopify w) GetShop")
  case (Inl e)
  then show ?thesis
    by (auto simp: getPrimaryLocationId_def bnd_shopifyFetch primary_location_def
          shopify_respond_reads intro: exI[of _ "[]"] exI[of _ "[Shopify GetShop]"])
next
  case (Inr d)
  then show ?thesis
    by (auto simp: getPrimaryLocationId_def bnd_shopifyFetch primary_location_def
          shopify_respond_reads Let_def default_location_def exec
          split: option.splits list.splits
          intro: exI[of _ "[]"] exI[of _ "[Shopify GetShop]"])
qed

lemma getLocationIdForItem_eq:
  "\<exists>cs. getLocationIdForItem P item w =
          (location_for P (env w) (shopify w) item, w\<lparr>calls := calls w @ cs\<rparr>)"
proof -
  obtain cs where p: "getPrimaryLocationId P w =
      (primary_location P (env w) (shopify w), w\<lparr>calls := calls w @ cs\<rparr>)"
    using getPrimaryLocationId_eq by blast
  show ?thesis
  proof (cases "primary_location P (env w) (shopify w)")
    case (Inr l)
    then show ?thesis using p
      by (auto simp: getLocationIdForItem_def try_catch_def location_for_def)
  next
    case (Inl x)
    let ?w1 = "w\<lparr>calls := calls w @ cs\<rparr>"
    have run: "getLocationIdForItem P item w =
        bnd (shopifyFetch (GetInventoryLevels item)) (\<lambda>levels.
         let loc = js_get (js_first (js_get levels ''inventory_levels'')) ''location_id'' in
         if js_truthy loc then ret loc
         else bnd (getenv ''DEFAULT_LOCATION_ID'') (\<lambda>fb.
           case fb of
             Some (c # cs) \<Rightarrow> ret (JNum (p_Number P (c # cs)))
           | _ \<Rightarrow> raise (Failure ''No location_id available; set DEFAULT_LOCATION_ID in Secrets''))) ?w1"
      using p Inl by (simp add: getLocationIdForItem_def try_catch_def)
    show ?thesis
    proof (cases "shopify_answer (env w) (shopify w) (GetInventoryLevels item)")
      case a: (Inl y)
      show ?thesis unfolding run using a Inl
        by (auto simp: bnd_shopifyFetch location_for_def shopify_respond_reads
              intro: exI[of _ "cs"] exI[of _ "cs @ [Shopify (GetInventoryLevels item)]"])
    next
      case a: (Inr d)
      show ?thesis unfolding run using a Inl
        by (auto simp: bnd_shopifyFetch location_for_def shopify_respond_reads Let_def
              default_location_def exec
              split: option.splits list.splits
              intro: exI[of _ "cs"] exI[of _ "cs @ [Shopify (GetInventoryLevels item)]"])
    qed
  qed
qed

lemma shopify_answer_reads:
  "shopify_answer e S GetShop =
     (if absent (e ''SHOPIFY_ACCESS_TOKEN'') then Inl (NotDefined ''SHOPIFY_ACCESS_TOKEN'')
      else if absent (e ''SHOPIFY_STORE_DOMAIN'') then Inl (NotDefined ''SHOPIFY_STORE_DOMAIN'')
      else (case sh_fault S GetShop of
              Some (st, b) \<Rightarrow> Inl (ShopifyStatus st b)
            | None \<Rightarrow> Inr (sh_shop S)))"
  "shopify_answer e S (GetInventoryLevels item) =
     (if absent (e ''SHOPIFY_ACCESS_TOKEN'') then Inl (NotDefined ''SHOPIFY_ACCESS_TOKEN'')
      else if absent (e ''SHOPIFY_STORE_DOMAIN'') then Inl (NotDefined ''SHOPIFY_STORE_DOMAIN'')
      else (case sh_fault S (GetInventoryLevels item) of
              Some (st, b) \<Rightarrow> Inl (ShopifyStatus st b)
            | None \<Rightarrow> Inr (JObj [(''inventory_levels'', JArr (level_docs S item))])))"
  by (simp_all add: shopify_answer_def shopify_respond_def split: option.splits)

lemma primary_location_levels [simp]:
  "primary_location P e (S\<lparr>sh_levels := L\<rparr>) = primary_location P e S"
  "primary_location P e (S\<lparr>sh_variants := V\<rparr>) = primary_location P e S"
  by (simp_all add: primary_location_def shopify_answer_reads split: option.splits)

lemma location_for_variants [simp]:
  "location_for P e (S\<lparr>sh_variants := V\<rparr>) item = location_for P e S item"
  by (simp add: location_for_def shopify_answer_reads level_docs_def split: sum.splits option.splits)

lemma first_level_location:
  "js_get (js_first (JArr (level_docs S item))) ''location_id'' = first_location (sh_levels S) item"
  by (simp add: level_docs_def first_location_def split: list.splits prod.splits)

lemma first_location_update_other:
  "item' \<noteq> item \<Longrightarrow> first_location (AList.update (loc, item) a L) item' = first_location L item'"
  unfolding first_location_def by (induction L) auto

lemma first_location_update:
  "first_location (AList.update (loc, item) a L) item =
     (if filter (\<lambda>((l, i), a). i = item) L = [] then loc else first_location L item)"
  unfolding first_location_def by (induction L) auto

lemma first_location_none:
  "filter (\<lambda>((l, i), a). i = item) L = [] \<Longrightarrow> first_location L item = JUndef"
  by (simp add: first_location_def)

lemma location_for_eq:
  "location_for P e S item =
     (case primary_location P e S of
        Inr l \<Rightarrow> Inr l
      | Inl x \<Rightarrow>
          if absent (e ''SHOPIFY_ACCESS_TOKEN'') then Inl (NotDefined ''SHOPIFY_ACCESS_TOKEN'')
          else if absent (e ''SHOPIFY_STORE_DOMAIN'') then Inl (NotDefined ''SHOPIFY_STORE_DOMAIN'')
          else (case sh_fault S (GetInventoryLevels item) of
                  Some (st, b) \<Rightarrow> Inl (ShopifyStatus st b)
                | None \<Rightarrow>
                    if js_truthy (first_location (sh_levels S) item)
                    then Inr (first_location (sh_levels S) item)
                    else default_location P e
                           ''No location_id available; set DEFAULT_LOCATION_ID in Secrets''))"
proof (cases "primary_location P e S")
  case (Inr l)
  then show ?thesis by (simp add: location_for_def)
next
  case (Inl x)
  show ?thesis
  proof (cases "sh_fault S (GetInventoryLevels item)")
    case None
    then show ?thesis using Inl
      by (simp add: location_for_def shopify_answer_reads first_level_location Let_def
            del: js_first.simps)
  next
    case (Some f)
    then show ?thesis using Inl
      by (cases f) (simp add: location_for_def shopify_answer_reads)
  qed
qed

lemma location_for_stable:
  assumes "location_for P e S item = Inr loc"
  shows "location_for P e (S\<lparr>sh_levels := AList.update (loc, item) a (sh_levels S)\<rparr>) item'
           = location_for P e S item'"
proof (cases "primary_location P e S")
  case (Inr l)
  then show ?thesis by (simp add: location_for_eq)
next
  case (Inl x)
  show ?thesis
  proof (cases "item' = item")
    case False
    then show ?thesis using Inl
      by (simp add: location_for_eq first_location_update_other split: option.splits)
  next
    case True
    show ?thesis
    proof (cases "filter (\<lambda>((l, i), a). i = item) (sh_levels S) = []")
      case False
      then show ?thesis using True Inl
        by (simp add: location_for_eq first_location_update split: option.splits)
    next
      case none: True
      have u: "first_location (sh_levels S) item = JUndef"
        by (rule first_location_none[OF none])
      show ?thesis using True assms Inl none
        by (auto simp: location_for_eq first_location_update u default_location_def
              split: option.splits list.splits if_splits)
    qed
  qed
qed

lemma same_but_price_refl: "same_but_price d d"
  by (simp add: same_but_price_def)

lemma same_store_refl: "same_store P w w"
  by (simp add: same_store_def list_all2_refl same_but_price_refl)

lemma same_store_sym: "same_store P w w' \<Longrightarrow> same_store P w' w"
  by (auto simp: same_store_def same_but_price_def list_all2_conv_all_nth)

lemma same_store_trans: "same_store P w v \<Longrightarrow> same_store P v u \<Longrightarrow> same_store P w u"
  by (auto simp: same_store_def same_but_price_def list_all2_conv_all_nth)

lemma same_store_after:
  "same_store P w w' \<Longrightarrow> same_store P w v \<Longrightarrow> same_store P w' v' \<Longrightarrow> same_store P v v'"
  by (blast intro: same_store_sym same_store_trans)

lemma same_store_frame:
  "env v = env w \<Longrightarrow> zoho v = zoho w \<Longrightarrow> shopify v = shopify w \<Longrightarrow> same_store P w v"
  by (simp add: same_store_def list_all2_refl same_but_price_refl)

named_theorems replays_intros

lemma replaysI:
  assumes "\<And>w w'. same_store P w w' \<Longrightarrow>
             \<exists>ws. rel_sum (=) Q (fst (m w)) (fst (m' w'))
                  \<and> same_store P w (snd (m w)) \<and> same_store P w' (snd (m' w'))
                  \<and> sh_levels (shopify (snd (m w))) = put_levels ws (sh_levels (shopify w))
                  \<and> sh_levels (shopify (snd (m' w'))) = put_levels ws (sh_levels (shopify w'))"
  shows "replays P Q m m'"
  using assms unfolding replays_def by blast

lemma replaysD:
  assumes "replays P Q m m'" "same_store P w w'"
  obtains ws where "rel_sum (=) Q (fst (m w)) (fst (m' w'))"
    "same_store P w (snd (m w))" "same_store P w' (snd (m' w'))"
    "sh_levels (shopify (snd (m w))) = put_levels ws (sh_levels (shopify w))"
    "sh_levels (shopify (snd (m' w'))) = put_levels ws (sh_levels (shopify w'))"
  using assms unfolding replays_def by blast

lemma replays_quiet:
  assumes "\<And>w w'. same_store P w w' \<Longrightarrow> rel_sum (=) Q (fst (m w)) (fst (m' w'))"
    and "\<And>w. env (snd (m w)) = env w \<and> zoho (snd (m w)) = zoho w \<and> shopify (snd (m w)) = shopify w"
    and "\<And>w. env (snd (m' w)) = env w \<and> zoho (snd (m' w)) = zoho w \<and> shopify (snd (m' w)) = shopify w"
  shows "replays P Q m m'"
proof (rule replaysI)
  fix w w' assume s: "same_store P w w'"
  have "rel_sum (=) Q (fst (m w)) (fst (m' w'))" by (rule assms(1)[OF s])
  moreover have "same_store P w (snd (m w))" using assms(2)[of w] by (simp add: same_store_frame)
  moreover have "same_store P w' (snd (m' w'))" using assms(3)[of w'] by (simp add: same_store_frame)
  moreover have "sh_levels (shopify (snd (m w))) = put_levels [] (sh_levels (shopify w))"
    using assms(2)[of w] by simp
  moreover have "sh_levels (shopify (snd (m' w'))) = put_levels [] (sh_levels (shopify w'))"
    using assms(3)[of w'] by simp
  ultimately show "\<exists>ws. rel_sum (=) Q (fst (m w)) (fst (m' w'))
                  \<and> same_store P w (snd (m w)) \<and> same_store P w' (snd (m' w'))
                  \<and> sh_levels (shopify (snd (m w))) = put_levels ws (sh_levels (shopify w))
                  \<and> sh_levels (shopify (snd (m' w'))) = put_levels ws (sh_levels (shopify w'))"
    by blast
qed

lemma replays_ret [replays_intros]: "Q x x' \<Longrightarrow> replays P Q (ret x) (ret x')"
  by (rule replays_quiet) (simp_all add: ret_def)

lemma replays_raise [replays_intros]: "replays P Q (raise e) (raise e)"
  by (rule replays_quiet) (simp_all add: raise_def)

lemma replays_log [replays_intros]: "replays P (\<lambda>_ _. True) (log l m a) (log l' m' a')"
  by (rule replays_quiet) (simp_all add: log_def)

lemma replays_getenv [replays_intros]: "replays P (=) (getenv n) (getenv n)"
  by (rule replays_quiet) (simp_all add: getenv_def same_store_def)

lemma replays_js_dot [replays_intros]: "replays P (=) (js_dot v k) (js_dot v k)"
  by (rule replays_quiet) (simp_all add: js_dot_def ret_def raise_def)

lemma replays_bnd [replays_intros]:
  assumes m: "replays P Q m m'"
    and f: "\<And>x x'. Q x x' \<Longrightarrow> replays P Q' (f x) (f' x')"
  shows "replays P Q' (bnd m f) (bnd m' f')"
proof (rule replaysI)
  fix w w' assume s: "same_store P w w'"
  obtain r v where mw: "m w = (r, v)" by (cases "m w")
  obtain r' v' where mw': "m' w' = (r', v')" by (cases "m' w'")
  from replaysD[OF m s] mw mw'
  obtain ws where rel: "rel_sum (=) Q r r'" and sv: "same_store P w v"
    and sv': "same_store P w' v'"
    and lv: "sh_levels (shopify v) = put_levels ws (sh_levels (shopify w))"
    and lv': "sh_levels (shopify v') = put_levels ws (sh_levels (shopify w'))"
    by (metis fst_conv snd_conv)
  have vv': "same_store P v v'" by (rule same_store_after[OF s sv sv'])
  show "\<exists>ws. rel_sum (=) Q' (fst (bnd m f w)) (fst (bnd m' f' w'))
              \<and> same_store P w (snd (bnd m f w)) \<and> same_store P w' (snd (bnd m' f' w'))
              \<and> sh_levels (shopify (snd (bnd m f w))) = put_levels ws (sh_levels (shopify w))
              \<and> sh_levels (shopify (snd (bnd m' f' w'))) = put_levels ws (sh_levels (shopify w'))"
  proof (cases r)
    case (Inl e)
    then have r': "r' = Inl e" using rel by (cases r') auto
    show ?thesis using Inl r' mw mw' sv sv' lv lv'
      by (intro exI[of _ ws]) (simp add: bnd_def)
  next
    case (Inr x)
    then obtain x' where r': "r' = Inr x'" and q: "Q x x'" using rel by (cases r') auto
    from replaysD[OF f[OF q] vv']
    obtain ws2 where rel2: "rel_sum (=) Q' (fst (f x v)) (fst (f' x' v'))"
      and s2: "same_store P v (snd (f x v))" and s2': "same_store P v' (snd (f' x' v'))"
      and l2: "sh_levels (shopify (snd (f x v))) = put_levels ws2 (sh_levels (shopify v))"
      and l2': "sh_levels (shopify (snd (f' x' v'))) = put_levels ws2 (sh_levels (shopify v'))"
      by blast
    have b: "bnd m f w = f x v" "bnd m' f' w' = f' x' v'"
      using mw mw' Inr r' by (simp_all add: bnd_def)
    show ?thesis unfolding b
      using rel2 same_store_trans[OF sv s2] same_store_trans[OF sv' s2'] l2 l2' lv lv'
      by (intro exI[of _ "ws @ ws2"]) simp
  qed
qed

lemma replays_try_catch [replays_intros]:
  assumes m: "replays P Q m m'"
    and h: "\<And>e. replays P Q (h e) (h' e)"
  shows "replays P Q (try_catch m h) (try_catch m' h')"
proof (rule replaysI)
  fix w w' assume s: "same_store P w w'"
  obtain r v where mw: "m w = (r, v)" by (cases "m w")
  obtain r' v' where mw': "m' w' = (r', v')" by (cases "m' w'")
  from replaysD[OF m s] mw mw'
  obtain ws where rel: "rel_sum (=) Q r r'" and sv: "same_store P w v"
    and sv': "same_store P w' v'"
    and lv: "sh_levels (shopify v) = put_levels ws (sh_levels (shopify w))"
    and lv': "sh_levels (shopify v') = put_levels ws (sh_levels (shopify w'))"
    by (metis fst_conv snd_conv)
  have vv': "same_store P v v'" by (rule same_store_after[OF s sv sv'])
  show "\<exists>ws. rel_sum (=) Q (fst (try_catch m h w)) (fst (try_catch m' h' w'))
              \<and> same_store P w (snd (try_catch m h w)) \<and> same_store P w' (snd (try_catch m' h' w'))
              \<and> sh_levels (shopify (snd (try_catch m h w))) = put_levels ws (sh_levels (shopify w))
              \<and> sh_levels (shopify (snd (try_catch m' h' w'))) = put_levels ws (sh_levels (shopify w'))"
  proof (cases r)
    case (Inr x)
    then obtain x' where r': "r' = Inr x'" and q: "Q x x'" using rel by (cases r') auto
    show ?thesis using Inr r' q mw mw' sv sv' lv lv'
      by (intro exI[of _ ws]) (simp add: try_catch_def)
  next
    case (Inl e)
    then have r': "r' = Inl e" using rel by (cases r') auto
    from replaysD[OF h[of e] vv']
    obtain ws2 where rel2: "rel_sum (=) Q (fst (h e v)) (fst (h' e v'))"
      and s2: "same_store P v (snd (h e v))" and s2': "same_store P v' (snd (h' e v'))"
      and l2: "sh_levels (shopify (snd (h e v))) = put_levels ws2 (sh_levels (shopify v))"
      and l2': "sh_levels (shopify (snd (h' e v'))) = put_levels ws2 (sh_levels (shopify v'))"
      by blast
    have b: "try_catch m h w = h e v" "try_catch m' h' w' = h' e v'"
      using mw mw' Inl r' by (simp_all add: try_catch_def)
    show ?thesis unfolding b
      using rel2 same_store_trans[OF sv s2] same_store_trans[OF sv' s2'] l2 l2' lv lv'
      by (intro exI[of _ "ws @ ws2"]) simp
  qed
qed

lemma rel_sum_weaken:
  "rel_sum (=) Q a b \<Longrightarrow> (\<And>x y. Q x y \<Longrightarrow> Q' x y) \<Longrightarrow> rel_sum (=) Q' a b"
  by (cases a; cases b) auto

lemma replays_weaken:
  assumes "replays P Q m m'" and "\<And>x y. Q x y \<Longrightarrow> Q' x y"
  shows "replays P Q' m m'"
proof (rule replaysI)
  fix w w' assume s: "same_store P w w'"
  from replaysD[OF assms(1) s] obtain ws where r: "rel_sum (=) Q (fst (m w)) (fst (m' w'))"
    and rest: "same_store P w (snd (m w))" "same_store P w' (snd (m' w'))"
    "sh_levels (shopify (snd (m w))) = put_levels ws (sh_levels (shopify w))"
    "sh_levels (shopify (snd (m' w'))) = put_levels ws (sh_levels (shopify w'))"
    by blast
  have "rel_sum (=) Q' (fst (m w)) (fst (m' w'))"
    by (rule rel_sum_weaken[OF r]) (rule assms(2))
  with rest show "\<exists>ws. rel_sum (=) Q' (fst (m w)) (fst (m' w'))
                  \<and> same_store P w (snd (m w)) \<and> same_store P w' (snd (m' w'))
                  \<and> sh_levels (shopify (snd (m w))) = put_levels ws (sh_levels (shopify w))
                  \<and> sh_levels (shopify (snd (m' w'))) = put_levels ws (sh_levels (shopify w'))"
    by blast
qed

lemma same_but_price_get:
  "same_but_price d d' \<Longrightarrow> k \<noteq> ''price'' \<Longrightarrow> js_get (JObj d') k = js_get (JObj d) k"
  by (simp add: same_but_price_def)

lemma same_variant_refl [simp]: "same_variant v v"
  by (simp add: same_variant_def)

lemma same_variant_docs:
  "same_but_price d d' \<Longrightarrow> same_variant (JObj d) (JObj d')"
  by (simp add: same_variant_def same_but_price_def)

lemma same_variant_or:
  "same_variant a a' \<Longrightarrow> same_variant b b' \<Longrightarrow> same_variant (js_or a b) (js_or a' b')"
  by (simp add: js_or_def same_variant_def)

lemma variant_docs_related:
  assumes "list_all2 same_but_price (sh_variants S) (sh_variants S')"
    and "sh_search S' = sh_search S"
  shows "list_all2 same_variant (variant_docs S q) (variant_docs S' q)"
proof -
  have len: "length (sh_variants S') = length (sh_variants S)"
    using assms(1) by (simp add: list_all2_lengthD)
  have nth: "same_but_price (sh_variants S ! i) (sh_variants S' ! i)" if "i < length (sh_variants S)" for i
    using assms(1) that by (simp add: list_all2_nthD)
  show ?thesis
    unfolding variant_docs_def assms(2) len
    by (rule list_all2_all_nthI) (auto intro!: same_variant_docs nth dest: nth_mem)
qed

lemma exact_match_related:
  assumes "list_all2 same_variant vs vs'"
  shows "same_variant (exact_match sku vs) (exact_match sku vs')"
  using assms
proof (induction rule: list_all2_induct)
  case Nil
  show ?case by (simp add: exact_match_def)
next
  case (Cons v vs v' vs')
  have "js_get v' ''sku'' = js_get v ''sku''" using Cons.hyps(1) by (simp add: same_variant_def)
  then show ?case using Cons by (simp add: exact_match_def)
qed

lemma js_first_related:
  "list_all2 same_variant vs vs' \<Longrightarrow> same_variant (js_first (JArr vs)) (js_first (JArr vs'))"
  by (cases vs; cases vs') simp_all

lemma chosen_variant_related:
  assumes "list_all2 same_but_price (sh_variants S) (sh_variants S')"
    and "sh_search S' = sh_search S"
  shows "same_variant (chosen_variant S sku) (chosen_variant S' sku)"
  unfolding chosen_variant_def
  by (intro same_variant_or exact_match_related js_first_related variant_docs_related[OF assms])
     simp

lemma replays_findVariantBySKU [replays_intros]:
  "replays P same_variant (findVariantBySKU sku) (findVariantBySKU sku)"
proof (rule replays_quiet)
  fix w w' assume s: "same_store P w w'"
  then have "same_variant (chosen_variant (shopify w) sku) (chosen_variant (shopify w') sku)"
    by (intro chosen_variant_related) (simp_all add: same_store_def)
  then show "rel_sum (=) same_variant (fst (findVariantBySKU sku w)) (fst (findVariantBySKU sku w'))"
    using s by (simp add: findVariantBySKU_eq same_store_def split: option.splits)
next
  fix w
  show "env (snd (findVariantBySKU sku w)) = env w \<and> zoho (snd (findVariantBySKU sku w)) = zoho w
        \<and> shopify (snd (findVariantBySKU sku w)) = shopify w"
    by (simp add: findVariantBySKU_eq)
  show "env (snd (findVariantBySKU sku w)) = env w \<and> zoho (snd (findVariantBySKU sku w)) = zoho w
        \<and> shopify (snd (findVariantBySKU sku w)) = shopify w"
    by (simp add: findVariantBySKU_eq)
qed

lemma getZohoItemById_eq:
  "getZohoItemById i w = bnd (zohoFetch (GetItem i)) (\<lambda>data. js_dot data ''item'') w"
  by (simp add: getZohoItemById_def)

lemma zohoFetch_read_frame:
  assumes "zoho_reads r"
  shows "env (snd (zohoFetch r w)) = env w \<and> zoho (snd (zohoFetch r w)) = zoho w
         \<and> shopify (snd (zohoFetch r w)) = shopify w"
  using assms by (simp add: zohoFetch_eq zoho_respond_reads split: option.splits)

lemma zohoFetch_read_result:
  assumes "env w' = env w" "zoho w' = zoho w"
  shows "fst (zohoFetch r w') = fst (zohoFetch r w)"
  using assms by (simp add: zohoFetch_eq split: option.splits)

lemma replays_zohoFetch_read:
  assumes "zoho_reads r"
  shows "replays P (=) (zohoFetch r) (zohoFetch r)"
proof (rule replays_quiet)
  fix w w' assume s: "same_store P w w'"
  have "fst (zohoFetch r w') = fst (zohoFetch r w)"
    using s by (intro zohoFetch_read_result) (simp_all add: same_store_def)
  then show "rel_sum (=) (=) (fst (zohoFetch r w)) (fst (zohoFetch r w'))"
    by (simp add: sum.rel_eq)
next
  fix w
  show "env (snd (zohoFetch r w)) = env w \<and> zoho (snd (zohoFetch r w)) = zoho w
        \<and> shopify (snd (zohoFetch r w)) = shopify w"
    by (rule zohoFetch_read_frame[OF assms])
  show "env (snd (zohoFetch r w)) = env w \<and> zoho (snd (zohoFetch r w)) = zoho w
        \<and> shopify (snd (zohoFetch r w)) = shopify w"
    by (rule zohoFetch_read_frame[OF assms])
qed

lemma replays_getZohoItemById [replays_intros]:
  "replays P (=) (getZohoItemById i) (getZohoItemById i)"
  unfolding getZohoItemById_def
  by (rule replays_bnd[OF replays_zohoFetch_read]) (simp_all add: replays_js_dot)

lemma same_but_price_set_price: "same_but_price d (set_price i p d)"
  by (simp add: same_but_price_def set_price_def update_conv')

lemma same_store_put_price:
  "same_store P w (w\<lparr>shopify := (shopify w)\<lparr>sh_variants := map (set_price i p) (sh_variants (shopify w))\<rparr>,
                     calls := c\<rparr>)"
  by (simp add: same_store_def list_all2_conv_all_nth same_but_price_set_price)

lemma list_ex_id_related:
  assumes "list_all2 same_but_price V V'"
  shows "list_ex (\<lambda>d. js_get (JObj d) ''id'' = i) V' = list_ex (\<lambda>d. js_get (JObj d) ''id'' = i) V"
  using assms
proof (induction rule: list_all2_induct)
  case Nil
  show ?case by simp
next
  case (Cons d V d' V')
  have "js_get (JObj d') ''id'' = js_get (JObj d) ''id''"
    by (rule same_but_price_get[OF Cons.hyps(1)]) simp
  then show ?case using Cons.IH by (simp del: js_get.simps)
qed

lemma put_price_result:
  assumes "same_store P w w'"
  shows "fst (shopifyFetch (PutVariantPrice i p) w') = fst (shopifyFetch (PutVariantPrice i p) w)"
proof -
  have "list_ex (\<lambda>d. js_get (JObj d) ''id'' = i) (sh_variants (shopify w'))
          = list_ex (\<lambda>d. js_get (JObj d) ''id'' = i) (sh_variants (shopify w))"
    using assms by (intro list_ex_id_related) (simp add: same_store_def)
  then show ?thesis
    using assms
    by (simp add: shopifyFetch_eq shopify_respond_def same_store_def split: option.splits
             del: js_get.simps)
qed

lemma put_price_after:
  "\<exists>c. snd (shopifyFetch (PutVariantPrice i p) w) = w\<lparr>calls := c\<rparr>
       \<or> (\<exists>q. snd (shopifyFetch (PutVariantPrice i p) w)
                = w\<lparr>shopify := (shopify w)\<lparr>sh_variants := map (set_price i q) (sh_variants (shopify w))\<rparr>,
                    calls := c\<rparr>)"
proof (cases "absent (env w ''SHOPIFY_ACCESS_TOKEN'') \<or> absent (env w ''SHOPIFY_STORE_DOMAIN'')")
  case True
  then have "snd (shopifyFetch (PutVariantPrice i p) w) = w\<lparr>calls := calls w\<rparr>"
    by (auto simp: shopifyFetch_eq)
  then show ?thesis by blast
next
  case False
  show ?thesis
  proof (cases "sh_fault (shopify w) (PutVariantPrice i p) = None
                \<and> i \<noteq> JUndef \<and> list_ex (\<lambda>d. js_get (JObj d) ''id'' = i) (sh_variants (shopify w))")
    case True
    then have "snd (shopifyFetch (PutVariantPrice i p) w)
        = w\<lparr>shopify := (shopify w)\<lparr>sh_variants :=
               map (set_price i (sh_price_text (shopify w) p)) (sh_variants (shopify w))\<rparr>,
            calls := calls w @ [Shopify (PutVariantPrice i p)]\<rparr>"
      using False by (simp add: shopifyFetch_eq shopify_respond_def del: js_get.simps)
    then show ?thesis by blast
  next
    case no: False
    then have "snd (shopifyFetch (PutVariantPrice i p) w)
        = w\<lparr>calls := calls w @ [Shopify (PutVariantPrice i p)]\<rparr>"
      using False
      by (auto simp: shopifyFetch_eq shopify_respond_def split: option.splits simp del: js_get.simps)
    then show ?thesis by blast
  qed
qed

lemma put_price_store: "same_store P w (snd (shopifyFetch (PutVariantPrice i p) w))"
  using put_price_after[of i p w]
  by (auto simp: same_store_put_price intro: same_store_frame)

lemma put_price_levels:
  "sh_levels (shopify (snd (shopifyFetch (PutVariantPrice i p) w))) = sh_levels (shopify w)"
  using put_price_after[of i p w] by auto

lemma replays_updateVariantPrice [replays_intros]:
  "replays P (=) (updateVariantPrice P i price) (updateVariantPrice P i price)"
  unfolding updateVariantPrice_def
proof (rule replaysI)
  fix w w' assume s: "same_store P w w'"
  let ?r = "PutVariantPrice i (js_String P price)"
  have "rel_sum (=) (=) (fst (shopifyFetch ?r w)) (fst (shopifyFetch ?r w'))"
    using put_price_result[OF s, of i "js_String P price"] by (simp add: sum.rel_eq)
  moreover have "sh_levels (shopify (snd (shopifyFetch ?r w))) = put_levels [] (sh_levels (shopify w))"
    "sh_levels (shopify (snd (shopifyFetch ?r w'))) = put_levels [] (sh_levels (shopify w'))"
    by (simp_all add: put_price_levels)
  ultimately show "\<exists>ws. rel_sum (=) (=) (fst (shopifyFetch ?r w)) (fst (shopifyFetch ?r w'))
        \<and> same_store P w (snd (shopifyFetch ?r w)) \<and> same_store P w' (snd (shopifyFetch ?r w'))
        \<and> sh_levels (shopify (snd (shopifyFetch ?r w))) = put_levels ws (sh_levels (shopify w))
        \<and> sh_levels (shopify (snd (shopifyFetch ?r w'))) = put_levels ws (sh_levels (shopify w'))"
    using put_price_store by blast
qed

lemma location_for_configured:
  assumes "location_for P e S item = Inr loc"
  shows "\<not> absent (e ''SHOPIFY_ACCESS_TOKEN'') \<and> \<not> absent (e ''SHOPIFY_STORE_DOMAIN'')"
proof (rule ccontr)
  assume "\<not> ?thesis"
  then have a: "absent (e ''SHOPIFY_ACCESS_TOKEN'') \<or> absent (e ''SHOPIFY_STORE_DOMAIN'')" by blast
  then have "\<exists>x. primary_location P e S = Inl x"
    by (auto simp: primary_location_def shopify_answer_reads)
  then obtain x where "primary_location P e S = Inl x" by blast
  then have "\<exists>y. location_for P e S item = Inl y"
    using a by (auto simp: location_for_eq)
  then show False using assms by auto
qed

text \<open>
  What \<open>setInventoryLevel\<close> without a location does, in terms of the location it
  settles on: nothing but requests when the location or the POST fails, else one write.
\<close>

lemma setInventoryLevel_eq:
  "\<exists>c. setInventoryLevel P item a JUndef w =
     (case location_for P (env w) (shopify w) item of
        Inl e \<Rightarrow> (Inl e, w\<lparr>calls := c\<rparr>)
      | Inr loc \<Rightarrow>
          (case sh_fault (shopify w) (PostInventorySet loc item a) of
             Some (st, b) \<Rightarrow> (Inl (ShopifyStatus st b), w\<lparr>calls := c\<rparr>)
           | None \<Rightarrow>
               (Inr (JObj [(''inventory_level'',
                        JObj [(''location_id'', loc), (''inventory_item_id'', item),
                              (''available'', JNum a)])]),
                w\<lparr>shopify := (shopify w)\<lparr>sh_levels :=
                      AList.update (loc, item) a (sh_levels (shopify w))\<rparr>,
                  calls := c\<rparr>)))"
proof -
  obtain cs where l: "getLocationIdForItem P item w =
          (location_for P (env w) (shopify w) item, w\<lparr>calls := calls w @ cs\<rparr>)"
    using getLocationIdForItem_eq by blast
  show ?thesis
  proof (cases "location_for P (env w) (shopify w) item")
    case (Inl e)
    then show ?thesis using l
      by (intro exI[of _ "calls w @ cs"]) (simp add: setInventoryLevel_def bnd_def)
  next
    case (Inr loc)
    have run: "setInventoryLevel P item a JUndef w =
        shopifyFetch (PostInventorySet loc item a) (w\<lparr>calls := calls w @ cs\<rparr>)"
      using l Inr by (simp add: setInventoryLevel_def bnd_def)
    note cf = location_for_configured[OF Inr]
    show ?thesis unfolding run using Inr cf
      by (intro exI[of _ "calls w @ cs @ [Shopify (PostInventorySet loc item a)]"])
         (auto simp: shopifyFetch_eq shopify_respond_def split: option.splits)
  qed
qed

lemma same_store_write:
  assumes "location_for P (env w) (shopify w) item = Inr loc"
  shows "same_store P w
           (w\<lparr>shopify := (shopify w)\<lparr>sh_levels := AList.update (loc, item) a (sh_levels (shopify w))\<rparr>,
              calls := c\<rparr>)"
  using location_for_stable[OF assms]
  by (simp add: same_store_def list_all2_refl same_but_price_refl)

lemma replays_setInventoryLevel [replays_intros]:
  "replays P (=) (setInventoryLevel P item a JUndef) (setInventoryLevel P item a JUndef)"
proof (rule replaysI)
  fix w w' assume s: "same_store P w w'"
  let ?m = "setInventoryLevel P item a JUndef"
  have l: "location_for P (env w') (shopify w') item = location_for P (env w) (shopify w) item"
    using s unfolding same_store_def by blast
  have f: "sh_fault (shopify w') = sh_fault (shopify w)"
    using s by (simp add: same_store_def)
  obtain c where r: "?m w =
     (case location_for P (env w) (shopify w) item of
        Inl e \<Rightarrow> (Inl e, w\<lparr>calls := c\<rparr>)
      | Inr loc \<Rightarrow>
          (case sh_fault (shopify w) (PostInventorySet loc item a) of
             Some (st, b) \<Rightarrow> (Inl (ShopifyStatus st b), w\<lparr>calls := c\<rparr>)
           | None \<Rightarrow>
               (Inr (JObj [(''inventory_level'',
                        JObj [(''location_id'', loc), (''inventory_item_id'', item),
                              (''available'', JNum a)])]),
                w\<lparr>shopify := (shopify w)\<lparr>sh_levels :=
                      AList.update (loc, item) a (sh_levels (shopify w))\<rparr>,
                  calls := c\<rparr>)))"
    using setInventoryLevel_eq[of P item a w] by blast
  obtain c' where r': "?m w' =
     (case location_for P (env w') (shopify w') item of
        Inl e \<Rightarrow> (Inl e, w'\<lparr>calls := c'\<rparr>)
      | Inr loc \<Rightarrow>
          (case sh_fault (shopify w') (PostInventorySet loc item a) of
             Some (st, b) \<Rightarrow> (Inl (ShopifyStatus st b), w'\<lparr>calls := c'\<rparr>)
           | None \<Rightarrow>
               (Inr (JObj [(''inventory_level'',
                        JObj [(''location_id'', loc), (''inventory_item_id'', item),
                              (''available'', JNum a)])]),
                w'\<lparr>shopify := (shopify w')\<lparr>sh_levels :=
                      AList.update (loc, item) a (sh_levels (shopify w'))\<rparr>,
                  calls := c'\<rparr>)))"
    using setInventoryLevel_eq[of P item a w'] by blast
  have quiet: "same_store P v (v\<lparr>calls := k\<rparr>)" for v k
    by (rule same_store_frame) simp_all
  show "\<exists>ws. rel_sum (=) (=) (fst (?m w)) (fst (?m w'))
        \<and> same_store P w (snd (?m w)) \<and> same_store P w' (snd (?m w'))
        \<and> sh_levels (shopify (snd (?m w))) = put_levels ws (sh_levels (shopify w))
        \<and> sh_levels (shopify (snd (?m w'))) = put_levels ws (sh_levels (shopify w'))"
  proof (cases "location_for P (env w) (shopify w) item")
    case (Inl x)
    then show ?thesis using r r' l quiet
      by (intro exI[of _ "[]"]) simp
  next
    case (Inr loc)
    then have Inr': "location_for P (env w') (shopify w') item = Inr loc" using l by simp
    show ?thesis
    proof (cases "sh_fault (shopify w) (PostInventorySet loc item a)")
      case (Some fl)
      then show ?thesis using r r' Inr Inr' f quiet
        by (cases fl) (intro exI[of _ "[]"], simp)
    next
      case None
      then show ?thesis
        using r r' Inr Inr' f same_store_write[OF Inr] same_store_write[OF Inr']
        by (intro exI[of _ "[((loc, item), a)]"]) simp
    qed
  qed
qed

named_theorems replays_same

lemma replays_ret_same [replays_same]: "replays P (=) (ret x) (ret x)"
  by (rule replays_ret) simp

lemma replays_raise_same [replays_same]: "replays P (=) (raise e) (raise e)"
  by (rule replays_raise)

lemma replays_log_same [replays_same]: "replays P (=) (log l m a) (log l m a)"
  by (rule replays_quiet) (simp_all add: log_def)

lemma replays_bnd_same [replays_same]:
  assumes "replays P (=) m m" and "\<And>x. replays P (=) (f x) (f x)"
  shows "replays P (=) (bnd m f) (bnd m f)"
  by (rule replays_bnd[OF assms(1)]) (simp add: assms(2))

lemma replays_try_catch_same [replays_same]:
  assumes "replays P (=) m m" and "\<And>e. replays P (=) (h e) (h e)"
  shows "replays P (=) (try_catch m h) (try_catch m h)"
  by (rule replays_try_catch[OF assms])

lemmas [replays_same] =
  replays_getenv replays_js_dot replays_getZohoItemById replays_updateVariantPrice
  replays_setInventoryLevel

lemma replays_item_apply_same:
  "replays P (=) (item_apply P sku price available v) (item_apply P sku price available v)"
  unfolding item_apply_def
  by (intro replays_same) (auto intro!: replays_same split: json.splits)

lemma item_apply_same_variant:
  assumes "same_variant v v'"
  shows "item_apply P sku price available v' = item_apply P sku price available v"
proof -
  have a: "js_get v' ''id'' = js_get v ''id''"
    and b: "js_get v' ''inventory_item_id'' = js_get v ''inventory_item_id''"
    using assms by (simp_all add: same_variant_def)
  show ?thesis unfolding item_apply_def a b by (rule refl)
qed

lemma replays_zoho_item_update: "replays P (=) (zoho_item_update P b) (zoho_item_update P b)"
proof -
  have k: "replays P (=)
             (if \<not> js_truthy v then
                ret \<lparr>rp_status = 200,
                     rp_payload = JObj [(''ok'', JBool True), (''skipped'', JBool True),
                                        (''reason'', JStr ''SKU not found in Shopify''), (''sku'', sku)]\<rparr>
              else item_apply P sku price available v)
             (if \<not> js_truthy v' then
                ret \<lparr>rp_status = 200,
                     rp_payload = JObj [(''ok'', JBool True), (''skipped'', JBool True),
                                        (''reason'', JStr ''SKU not found in Shopify''), (''sku'', sku)]\<rparr>
              else item_apply P sku price available v')"
    if "same_variant v v'" for v v' sku price available
    using that item_apply_same_variant[OF that]
    by (auto simp: same_variant_def intro: replays_same replays_item_apply_same)
  show ?thesis
    unfolding zoho_item_update_def Let_def
    by (auto intro!: replays_same replays_bnd[OF replays_findVariantBySKU] k)
qed

lemma replays_bnd_variant:
  assumes "\<And>v v'. same_variant v v' \<Longrightarrow> f v' = f v"
    and "\<And>v. replays P (=) (f v) (f v)"
  shows "replays P (=) (bnd (findVariantBySKU sku) f) (bnd (findVariantBySKU sku) f)"
proof (rule replays_bnd[OF replays_findVariantBySKU])
  fix x x' assume "same_variant x x'"
  then have "f x' = f x" by (rule assms(1))
  then show "replays P (=) (f x) (f x')" using assms(2)[of x] by simp
qed

lemma replays_if_same [replays_same]:
  "replays P (=) a a \<Longrightarrow> replays P (=) b b
   \<Longrightarrow> replays P (=) (if c then a else b) (if c then a else b)"
  by simp

lemma replays_adjust_line: "replays P (=) (adjust_line P adj li) (adjust_line P adj li)"
  unfolding adjust_line_def Let_def
  apply (rule replays_if_same)
   apply (rule replays_ret_same)
  apply (rule replays_bnd_same)
   apply (rule replays_getZohoItemById)
  apply (rule replays_if_same)
   apply (rule replays_ret_same)
  apply (rule replays_bnd_variant)
   apply (auto simp: same_variant_def split: json.splits)[1]
  apply (auto intro!: replays_same split: json.splits)
  done

lemma replays_adjust_lines: "replays P (=) (adjust_lines P adj ls) (adjust_lines P adj ls)"
  by (induction ls) (auto intro!: replays_same replays_adjust_line)

lemma replays_zoho_adjustment: "replays P (=) (zoho_adjustment P b) (zoho_adjustment P b)"
  unfolding zoho_adjustment_def Let_def
  by (intro replays_same replays_adjust_lines)

lemma replays_parse_body: "replays P (=) (parse_body P b) (parse_body P b)"
  unfolding parse_body_def
  by (auto intro!: replays_same split: json.splits option.splits)

lemma replays_zoho_process: "replays P (=) (zoho_process P req) (zoho_process P req)"
  unfolding zoho_process_def
  by (intro replays_same replays_parse_body)
     (auto intro!: replays_zoho_item_update replays_zoho_adjustment)

lemma replays_zoho_failed: "replays P (=) (zoho_failed P e) (zoho_failed P e)"
  unfolding zoho_failed_def by (intro replays_same)

lemma replays_zohoWebhook: "replays P (=) (zohoWebhook P req) (zohoWebhook P req)"
  unfolding zohoWebhook_def
  by (intro replays_same replays_zoho_failed)
     (auto intro!: replays_same replays_zoho_process split: option.splits list.splits)

lemma zohoWebhook_twice:
  "sh_levels (shopify (snd (zohoWebhook P req (snd (zohoWebhook P req w)))))
     = sh_levels (shopify (snd (zohoWebhook P req w)))"
proof -
  let ?h = "zohoWebhook P req"
  let ?v = "snd (?h w)"
  have r: "replays P (=) ?h ?h" by (rule replays_zohoWebhook)
  have wv: "same_store P w ?v"
    using replaysD[OF r same_store_refl[of P w]] by blast
  obtain ws where a: "sh_levels (shopify ?v) = put_levels ws (sh_levels (shopify w))"
    and b: "sh_levels (shopify (snd (?h ?v))) = put_levels ws (sh_levels (shopify ?v))"
    using replaysD[OF r wv] by blast
  show ?thesis unfolding b unfolding a by (rule put_levels_twice)
qed

lemma storefront_ready_frame:
  "storefront_ready w \<Longrightarrow> storefront_ready (w\<lparr>calls := c\<rparr>)"
  by (simp add: storefront_ready_def)

lemma storefront_ready_levels:
  "storefront_ready w \<Longrightarrow> storefront_ready (w\<lparr>shopify := (shopify w)\<lparr>sh_levels := L\<rparr>, calls := c\<rparr>)"
  by (simp add: storefront_ready_def)

lemma put_price_ready:
  assumes "storefront_ready w"
  shows "storefront_ready (snd (shopifyFetch (PutVariantPrice i p) w))"
    and "sh_shop (shopify (snd (shopifyFetch (PutVariantPrice i p) w))) = sh_shop (shopify w)"
  using put_price_after[of i p w] assms
  by (auto simp: storefront_ready_def ids_set_price)

lemma price_step_ready:
  assumes "storefront_ready w"
  shows "\<exists>x w2. (if \<not> js_nullish price then
            try_catch
              (bnd (updateVariantPrice P i price) (\<lambda>r.
                 ret [(''priceUpdated'', JBool True), (''priceResponse'', r)]))
              (\<lambda>e. ret [(''priceUpdated'', JBool False),
                         (''priceError'', JStr (getErrorMessage P e))])
          else ret []) w = (Inr x, w2)
        \<and> storefront_ready w2 \<and> sh_levels (shopify w2) = sh_levels (shopify w)
        \<and> sh_shop (shopify w2) = sh_shop (shopify w)"
proof (cases "js_nullish price")
  case True
  then show ?thesis using assms by (simp add: ret_def)
next
  case False
  let ?f = "shopifyFetch (PutVariantPrice i (js_String P price))"
  obtain r w2 where f: "?f w = (r, w2)" by (cases "?f w")
  have w2: "storefront_ready w2" "sh_levels (shopify w2) = sh_levels (shopify w)"
    "sh_shop (shopify w2) = sh_shop (shopify w)"
    using put_price_ready[OF assms, of i "js_String P price"]
      put_price_levels[of i "js_String P price" w] f by simp_all
  show ?thesis using False f w2
    by (cases r) (simp_all add: updateVariantPrice_def try_catch_def bnd_def ret_def)
qed

lemma item_apply_ready:
  assumes "storefront_ready w"
  shows "\<exists>r w'. item_apply P sku price available v w = (Inr r, w')
          \<and> sh_levels (shopify w') =
              put_levels (case available of
                            JNum a \<Rightarrow> [((primary_loc (shopify w), js_get v ''inventory_item_id''), a)]
                          | _ \<Rightarrow> [])
                (sh_levels (shopify w))"
proof -
  obtain x w2 where p: "(if \<not> js_nullish price then
            try_catch
              (bnd (updateVariantPrice P (js_get v ''id'') price) (\<lambda>r.
                 ret [(''priceUpdated'', JBool True), (''priceResponse'', r)]))
              (\<lambda>e. ret [(''priceUpdated'', JBool False),
                         (''priceError'', JStr (getErrorMessage P e))])
          else ret []) w = (Inr x, w2)"
    and w2: "storefront_ready w2" "sh_levels (shopify w2) = sh_levels (shopify w)"
      "sh_shop (shopify w2) = sh_shop (shopify w)"
    using price_step_ready[OF assms, of price P "js_get v ''id''"] by blast
  show ?thesis
  proof (cases "\<exists>a. available = JNum a")
    case True
    then obtain a where a: "available = JNum a" by blast
    note s = setInventoryLevel_ready[OF w2(1), of P "js_get v ''inventory_item_id''" a]
    show ?thesis
      unfolding item_apply_def a
      using p s w2(2,3)
      by (simp add: bnd_def try_catch_def ret_def primary_loc_def)
  next
    case False
    then have c: "(case available of JNum a \<Rightarrow> f a | _ \<Rightarrow> g) = g" for f and g :: "'z"
      by (cases available) auto
    show ?thesis
      unfolding item_apply_def c
      using p w2(2) by (simp add: bnd_def ret_def)
  qed
qed

lemma findVariantBySKU_ready:
  "storefront_ready w \<Longrightarrow>
   findVariantBySKU sku w =
     (Inr (chosen_variant (shopify w) sku), w\<lparr>calls := calls w @ [Shopify (GetVariantsBySku sku)]\<rparr>)"
  by (simp add: findVariantBySKU_eq storefront_ready_def)

lemma zoho_item_update_ready:
  assumes "storefront_ready w"
  shows "\<exists>r w'. zoho_item_update P b w = (Inr r, w')
          \<and> sh_levels (shopify w') = put_levels (item_write P (shopify w) b) (sh_levels (shopify w))"
proof (cases "js_truthy (pickSKU b) \<and> js_truthy (chosen_variant (shopify w) (pickSKU b))")
  case False
  then show ?thesis
    using findVariantBySKU_ready[OF assms, of "pickSKU b"]
    by (auto simp: zoho_item_update_def item_write_def Let_def ret_def bnd_def)
next
  case True
  let ?v = "chosen_variant (shopify w) (pickSKU b)"
  let ?w1 = "w\<lparr>calls := calls w @ [Shopify (GetVariantsBySku (pickSKU b))]\<rparr>"
  have r1: "storefront_ready ?w1" by (rule storefront_ready_frame[OF assms])
  obtain r w' where ia: "item_apply P (pickSKU b) (pickPrice P b) (pickAvailableStock P b) ?v ?w1 = (Inr r, w')"
    and lv: "sh_levels (shopify w') =
              put_levels (case pickAvailableStock P b of
                            JNum a \<Rightarrow> [((primary_loc (shopify ?w1), js_get ?v ''inventory_item_id''), a)]
                          | _ \<Rightarrow> [])
                (sh_levels (shopify ?w1))"
    using item_apply_ready[OF r1, of P "pickSKU b" "pickPrice P b" "pickAvailableStock P b" ?v]
    by blast
  have s1: "shopify ?w1 = shopify w" by simp
  have "zoho_item_update P b w = (Inr r, w')"
    using True ia findVariantBySKU_ready[OF assms, of "pickSKU b"]
    by (simp add: zoho_item_update_def Let_def bnd_def)
  moreover have "sh_levels (shopify w') = put_levels (item_write P (shopify w) b) (sh_levels (shopify w))"
    using lv True unfolding s1 by (simp add: item_write_def)
  ultimately show ?thesis by blast
qed

lemma getZohoItemById_ready:
  assumes "zoho_ok w"
  shows "getZohoItemById i w =
           (if js_nullish (z_item (zoho w) i) then Inl TypeError
            else Inr (js_get (z_item (zoho w) i) ''item''),
            w\<lparr>calls := calls w @ [Zoho PostToken, Zoho (GetItem i)]\<rparr>)"
  using assms by (simp add: getZohoItemById_def zohoFetch_ok bnd_def js_dot_def ret_def raise_def)

lemma primary_loc_levels [simp]: "primary_loc (S\<lparr>sh_levels := L\<rparr>) = primary_loc S"
  by (simp add: primary_loc_def)

lemma line_write_levels [simp]:
  "line_write P (S\<lparr>sh_levels := L\<rparr>) Z adj li = line_write P S Z adj li"
  unfolding line_write_def primary_loc_levels chosen_variant_levels by (rule refl)

lemma adjust_line_ready:
  assumes "sync_ready w"
  shows "\<exists>u c. try_catch (adjust_line P adj li)
                  (\<lambda>e. ret (JObj [(''error'', JStr (getErrorMessage P e))])) w
               = (Inr u, w\<lparr>shopify := (shopify w)\<lparr>sh_levels :=
                      put_levels (line_write P (shopify w) (zoho w) adj li) (sh_levels (shopify w))\<rparr>,
                    calls := c\<rparr>)"
proof -
  have zk: "zoho_ok w" and sr: "storefront_ready w" using assms by (simp_all add: sync_ready_def)
  let ?id = "js_get li ''item_id''"
  let ?data = "z_item (zoho w) ?id"
  let ?item = "line_item (zoho w) li"
  let ?sku = "js_get ?item ''sku''"
  let ?v = "chosen_variant (shopify w) ?sku"
  let ?h = "\<lambda>e. ret (JObj [(''error'', JStr (getErrorMessage P e))])"
  have same: "\<exists>u c. (Inr u', w\<lparr>calls := k\<rparr>)
               = (Inr u, w\<lparr>shopify := (shopify w)\<lparr>sh_levels :=
                      put_levels (line_write P (shopify w) (zoho w) adj li) (sh_levels (shopify w))\<rparr>,
                    calls := c\<rparr>)"
    if "line_write P (shopify w) (zoho w) adj li = []" for u' :: json and k
    using that by (intro exI[of _ u'] exI[of _ k]) simp
  show ?thesis
  proof (cases "js_truthy ?id")
    case False
    then have lw: "line_write P (shopify w) (zoho w) adj li = []" by (simp add: line_write_def)
    have "try_catch (adjust_line P adj li) ?h w
            = (Inr (JObj [(''skipped'', JBool True), (''reason'', JStr ''No item_id'')]),
               w\<lparr>calls := calls w\<rparr>)"
      using False by (simp add: adjust_line_def Let_def try_catch_def ret_def)
    then show ?thesis using lw
      by (intro exI[of _ "JObj [(''skipped'', JBool True), (''reason'', JStr ''No item_id'')]"]
                exI[of _ "calls w"]) simp
  next
    case id: True
    let ?w1 = "w\<lparr>calls := calls w @ [Zoho PostToken, Zoho (GetItem ?id)]\<rparr>"
    note g = getZohoItemById_ready[OF zk, of ?id]
    show ?thesis
    proof (cases "js_nullish ?data")
      case True
      then have lw: "line_write P (shopify w) (zoho w) adj li = []" by (simp add: line_write_def)
      have "try_catch (adjust_line P adj li) ?h w
              = (Inr (JObj [(''error'', JStr (getErrorMessage P TypeError))]), ?w1)"
        using id True g by (simp add: adjust_line_def Let_def try_catch_def bnd_def ret_def)
      then show ?thesis using same[OF lw] by simp
    next
      case data: False
      have g': "getZohoItemById ?id w = (Inr ?item, ?w1)"
        using g data by (simp add: line_item_def)
      show ?thesis
      proof (cases "js_truthy ?sku")
        case False
        then have lw: "line_write P (shopify w) (zoho w) adj li = []" by (simp add: line_write_def)
        have "try_catch (adjust_line P adj li) ?h w
              = (Inr (JObj [(''item_id'', ?id), (''skipped'', JBool True),
                            (''reason'', JStr ''No SKU on item'')]), ?w1)"
          using id g' False by (simp add: adjust_line_def Let_def try_catch_def bnd_def ret_def)
        then show ?thesis using same[OF lw] by simp
      next
        case sku: True
        let ?w2 = "?w1\<lparr>calls := calls ?w1 @ [Shopify (GetVariantsBySku ?sku)]\<rparr>"
        have r1: "storefront_ready ?w1" by (rule storefront_ready_frame[OF sr])
        have fv: "findVariantBySKU ?sku ?w1 = (Inr ?v, ?w2)"
          using findVariantBySKU_ready[OF r1, of ?sku] by simp
        show ?thesis
        proof (cases "js_truthy ?v")
          case False
          then have lw: "line_write P (shopify w) (zoho w) adj li = []" by (simp add: line_write_def)
          have "try_catch (adjust_line P adj li) ?h w
              = (Inr (JObj [(''item_id'', ?id), (''sku'', ?sku), (''skipped'', JBool True),
                            (''reason'', JStr ''SKU not in Shopify'')]), ?w2)"
            using id g' sku fv False by (simp add: adjust_line_def Let_def try_catch_def bnd_def ret_def)
          then show ?thesis using same[OF lw] by simp
        next
          case v: True
          have rest: "try_catch (adjust_line P adj li) ?h w =
              try_catch
                (case line_quantity P adj li ?item of
                   JNum q \<Rightarrow>
                     bnd (setInventoryLevel P (js_get ?v ''inventory_item_id'') q JUndef) (\<lambda>r.
                       ret (JObj [(''item_id'', ?id), (''sku'', ?sku),
                                  (''inventoryUpdated'', JBool True), (''inventoryResponse'', r)]))
                 | _ \<Rightarrow>
                     ret (JObj [(''item_id'', ?id), (''sku'', ?sku), (''skipped'', JBool True),
                                (''reason'', JStr ''No absolute quantity'')])) ?h ?w2"
            using id g' sku fv v
            by (simp add: adjust_line_def Let_def try_catch_def bnd_def line_quantity_def)
          have r2: "storefront_ready ?w2" by (rule storefront_ready_frame[OF r1])
          show ?thesis
          proof (cases "\<exists>q. line_quantity P adj li ?item = JNum q")
            case True
            then obtain q where q: "line_quantity P adj li ?item = JNum q" by blast
            have lw: "line_write P (shopify w) (zoho w) adj li
                        = [((primary_loc (shopify w), js_get ?v ''inventory_item_id''), q)]"
              using id data sku v q by (simp add: line_write_def)
            note s = setInventoryLevel_ready[OF r2, of P "js_get ?v ''inventory_item_id''" q]
            let ?c = "calls ?w2 @ [Shopify GetShop,
                 Shopify (PostInventorySet (primary_loc (shopify w)) (js_get ?v ''inventory_item_id'') q)]"
            let ?u = "JObj [(''item_id'', ?id), (''sku'', ?sku), (''inventoryUpdated'', JBool True),
                  (''inventoryResponse'',
                   JObj [(''inventory_level'',
                          JObj [(''location_id'', primary_loc (shopify w)),
                                (''inventory_item_id'', js_get ?v ''inventory_item_id''),
                                (''available'', JNum q)])])]"
            have "try_catch (adjust_line P adj li) ?h w =
                (Inr ?u, w\<lparr>shopify := (shopify w)\<lparr>sh_levels :=
                      put_levels (line_write P (shopify w) (zoho w) adj li) (sh_levels (shopify w))\<rparr>,
                    calls := ?c\<rparr>)"
              unfolding rest q lw using s
              by (simp add: try_catch_def bnd_def ret_def primary_loc_def)
            then show ?thesis by blast
          next
            case False
            then have c: "(case line_quantity P adj li ?item of JNum a \<Rightarrow> f a | _ \<Rightarrow> g) = g"
              for f and g :: "'z"
              by (cases "line_quantity P adj li ?item") auto
            have lw: "line_write P (shopify w) (zoho w) adj li = []"
              using False by (simp add: line_write_def c)
            have "try_catch (adjust_line P adj li) ?h w
              = (Inr (JObj [(''item_id'', ?id), (''sku'', ?sku), (''skipped'', JBool True),
                                (''reason'', JStr ''No absolute quantity'')]), ?w2)"
              unfolding rest c by (simp add: try_catch_def ret_def)
            then show ?thesis using same[OF lw] by simp
          qed
        qed
      qed
    qed
  qed
qed

lemma line_write_levels_fun [simp]:
  "line_write P (S\<lparr>sh_levels := L\<rparr>) Z adj = line_write P S Z adj"
  by (rule ext) simp

lemma sync_ready_levels:
  "sync_ready w \<Longrightarrow> sync_ready (w\<lparr>shopify := (shopify w)\<lparr>sh_levels := L\<rparr>, calls := c\<rparr>)"
  by (simp add: sync_ready_def zoho_ok_def storefront_ready_def)

lemma adjust_lines_ready:
  assumes "sync_ready w"
  shows "\<exists>us c. adjust_lines P adj ls w =
            (Inr us, w\<lparr>shopify := (shopify w)\<lparr>sh_levels :=
                 put_levels (concat (map (line_write P (shopify w) (zoho w) adj) ls))
                   (sh_levels (shopify w))\<rparr>,
               calls := c\<rparr>)"
  using assms
proof (induction ls arbitrary: w)
  case Nil
  show ?case
    by (intro exI[of _ "[]"] exI[of _ "calls w"]) (simp add: ret_def)
next
  case (Cons li ls)
  let ?L1 = "put_levels (line_write P (shopify w) (zoho w) adj li) (sh_levels (shopify w))"
  obtain u c1 where l: "try_catch (adjust_line P adj li)
                  (\<lambda>e. ret (JObj [(''error'', JStr (getErrorMessage P e))])) w
               = (Inr u, w\<lparr>shopify := (shopify w)\<lparr>sh_levels := ?L1\<rparr>, calls := c1\<rparr>)"
    using adjust_line_ready[OF Cons.prems, of P adj li] by blast
  let ?w1 = "w\<lparr>shopify := (shopify w)\<lparr>sh_levels := ?L1\<rparr>, calls := c1\<rparr>"
  have r1: "sync_ready ?w1" by (rule sync_ready_levels[OF Cons.prems])
  obtain us c2 where ih: "adjust_lines P adj ls ?w1 =
            (Inr us, ?w1\<lparr>shopify := (shopify ?w1)\<lparr>sh_levels :=
                 put_levels (concat (map (line_write P (shopify ?w1) (zoho ?w1) adj) ls))
                   (sh_levels (shopify ?w1))\<rparr>,
               calls := c2\<rparr>)"
    using Cons.IH[OF r1] by blast
  have "adjust_lines P adj (li # ls) w =
      (Inr (u # us), w\<lparr>shopify := (shopify w)\<lparr>sh_levels :=
                 put_levels (concat (map (line_write P (shopify w) (zoho w) adj) (li # ls)))
                   (sh_levels (shopify w))\<rparr>,
               calls := c2\<rparr>)"
    using l ih by (simp add: bnd_def ret_def)
  then show ?case by blast
qed

lemma zoho_adjustment_ready:
  assumes "sync_ready w"
  shows "\<exists>r w'. zoho_adjustment P b w = (Inr r, w')
          \<and> sh_levels (shopify w') =
              put_levels (concat (map (line_write P (shopify w) (zoho w) (adjustment_of b))
                                    (adjustment_lines b)))
                (sh_levels (shopify w))"
proof -
  obtain us c where a: "adjust_lines P (adjustment_of b) (adjustment_lines b) w =
            (Inr us, w\<lparr>shopify := (shopify w)\<lparr>sh_levels :=
                 put_levels (concat (map (line_write P (shopify w) (zoho w) (adjustment_of b))
                                       (adjustment_lines b)))
                   (sh_levels (shopify w))\<rparr>,
               calls := c\<rparr>)"
    using adjust_lines_ready[OF assms, of P "adjustment_of b" "adjustment_lines b"] by blast
  have "zoho_adjustment P b w =
      bnd (adjust_lines P (adjustment_of b) (adjustment_lines b)) (\<lambda>updates.
           ret \<lparr>rp_status = 200,
                rp_payload = JObj [(''ok'', JBool True),
                                   (''inventory_adjustment_id'',
                                    js_get (adjustment_of b) ''inventory_adjustment_id''),
                                   (''updates'', JArr updates)]\<rparr>) w"
    by (simp add: zoho_adjustment_def Let_def adjustment_of_def adjustment_lines_def)
  then show ?thesis using a by (simp add: bnd_def ret_def)
qed

lemma zohoWebhook_ready:
  assumes "sync_ready w"
    and "env w ''ZOHO_WEBHOOK_SECRET'' = Some secret" "secret \<noteq> []"
    and "zoho_authorized P secret req"
    and "parse_body P (rq_body req) w = (Inr b, w0)"
  shows "sh_levels (shopify (snd (zohoWebhook P req w)))
           = put_levels (webhook_writes P w b) (sh_levels (shopify w))"
proof -
  have w0: "w0 = w" using parse_body_pure[of P "rq_body req" w] assms(5) by simp
  have h: "zohoWebhook P req w = try_catch (zoho_process P req) (zoho_failed P) w"
    by (rule zohoWebhook_authorized[OF assms(2,3,4)])
  have sr: "storefront_ready w" using assms(1) by (simp add: sync_ready_def)
  show ?thesis
  proof (cases "js_truthy (js_get b ''inventory_adjustment'')")
    case False
    obtain r w' where u: "zoho_item_update P b w = (Inr r, w')"
      and l: "sh_levels (shopify w') = put_levels (item_write P (shopify w) b) (sh_levels (shopify w))"
      using zoho_item_update_ready[OF sr, of P b] by blast
    have "zoho_process P req w = (Inr r, w')"
      using assms(5) w0 False u by (simp add: zoho_process_def bnd_def)
    then have "zohoWebhook P req w = (Inr r, w')" unfolding h by (simp add: try_catch_def)
    then show ?thesis using l False by (simp add: webhook_writes_def)
  next
    case True
    obtain r w' where u: "zoho_adjustment P b w = (Inr r, w')"
      and l: "sh_levels (shopify w') =
              put_levels (concat (map (line_write P (shopify w) (zoho w) (adjustment_of b))
                                    (adjustment_lines b)))
                (sh_levels (shopify w))"
      using zoho_adjustment_ready[OF assms(1), of P b] by blast
    have "zoho_process P req w = (Inr r, w')"
      using assms(5) w0 True u by (simp add: zoho_process_def bnd_def)
    then have "zohoWebhook P req w = (Inr r, w')" unfolding h by (simp add: try_catch_def)
    then show ?thesis using l True by (simp add: webhook_writes_def)
  qed
qed

text \<open>
  Claim C4. Whatever the request and the world, the inventory levels of the storefront
  after the backend webhook has handled the same request twice in a row are the levels
  after it has handled it once. And the handler sets absolute levels: on ready vendors,
  for an authorised request with the body \<open>b\<close>, the levels after the handler are the
  levels before it with the writes of the payload applied in order (\<open>webhook_writes\<close>),
  each of them setting the level for the primary location and the variant's inventory
  item to the number the payload gives: for a flat item update the first finite number
  among its absolute stock fields, for each line of an adjustment batch its absolute
  quantity.
\<close>

theorem inventory_webhook_sets_absolute_level:
  "sh_levels (shopify (snd (zohoWebhook P req (snd (zohoWebhook P req w)))))
     = sh_levels (shopify (snd (zohoWebhook P req w)))
   \<and> (sync_ready w \<and> env w ''ZOHO_WEBHOOK_SECRET'' = Some secret \<and> secret \<noteq> []
        \<and> zoho_authorized P secret req \<and> parse_body P (rq_body req) w = (Inr b, w0)
      \<longrightarrow> sh_levels (shopify (snd (zohoWebhook P req w)))
            = put_levels (webhook_writes P w b) (sh_levels (shopify w)))"
  using zohoWebhook_twice[of P req w] zohoWebhook_ready[of w secret P req b w0]
  by blast

lemma sync_ready_demo: "sync_ready demo_world"
  by (simp add: sync_ready_def zoho_ok_def storefront_ready_def demo_defs
        zoho_token_required_def zoho_required_def absent_def has_id_def variant_A_def)

lemmas pick_defs =
  pickSKU_def extractString_def pickAvailableStock_def coerceNumber_def js_or_def js_nc_def
  Let_def

theorem inventory_webhook_sets_absolute_level_witness:
  "sync_ready demo_world
   \<and> zoho_authorized demo_platform ''s3cret'' item_request
   \<and> zoho_authorized demo_platform ''s3cret'' adjustment_request
   \<and> sh_levels (shopify demo_world) = []
   \<and> sh_levels (shopify (snd (zohoWebhook demo_platform item_request demo_world)))
        = [((JNum (Fin 100), JNum (Fin 11)), Fin 7)]
   \<and> sh_levels (shopify (snd (zohoWebhook demo_platform item_request
                                 (snd (zohoWebhook demo_platform item_request demo_world)))))
        = [((JNum (Fin 100), JNum (Fin 11)), Fin 7)]
   \<and> sh_levels (shopify (snd (zohoWebhook demo_platform adjustment_request demo_world)))
        = [((JNum (Fin 100), JNum (Fin 11)), Fin 3)]
   \<and> sh_levels (shopify (snd (zohoWebhook demo_platform adjustment_request
                                 (snd (zohoWebhook demo_platform adjustment_request demo_world)))))
        = [((JNum (Fin 100), JNum (Fin 11)), Fin 3)]"
proof -
  let ?P = demo_platform
  have rd: "sync_ready demo_world" by (rule sync_ready_demo)
  have e: "env demo_world ''ZOHO_WEBHOOK_SECRET'' = Some ''s3cret''" "''s3cret'' \<noteq> []"
    by (simp_all add: demo_defs)
  have l0: "sh_levels (shopify demo_world) = []" by (simp add: demo_defs)
  have a1: "zoho_authorized ?P ''s3cret'' item_request"
    by (simp add: zoho_authorized_def zoho_header_secret_def item_request_def)
  have a2: "zoho_authorized ?P ''s3cret'' adjustment_request"
    by (simp add: zoho_authorized_def zoho_header_secret_def adjustment_request_def)
  have p1: "parse_body ?P (rq_body item_request) demo_world = (Inr (rq_body item_request), demo_world)"
    by (simp add: parse_body_def item_request_def ret_def)
  have p2: "parse_body ?P (rq_body adjustment_request) demo_world
              = (Inr (rq_body adjustment_request), demo_world)"
    by (simp add: parse_body_def adjustment_request_def ret_def)
  have w1: "webhook_writes ?P demo_world (rq_body item_request)
              = [((JNum (Fin 100), JNum (Fin 11)), Fin 7)]"
    by (simp add: webhook_writes_def item_write_def item_request_def pick_defs primary_loc_def
          chosen_variant_def variant_docs_def exact_match_def demo_defs variant_A_def)
  have w2: "webhook_writes ?P demo_world (rq_body adjustment_request)
              = [((JNum (Fin 100), JNum (Fin 11)), Fin 3)]"
    by (simp add: webhook_writes_def line_write_def line_item_def line_quantity_def
          adjustment_of_def adjustment_lines_def adjustment_request_def pick_defs primary_loc_def
          chosen_variant_def variant_docs_def exact_match_def demo_defs variant_A_def item_A_def)
  note t1 = inventory_webhook_sets_absolute_level[where P="?P" and req=item_request
      and w=demo_world and secret="''s3cret''" and b="rq_body item_request" and ?w0.0=demo_world]
  note t2 = inventory_webhook_sets_absolute_level[where P="?P" and req=adjustment_request
      and w=demo_world and secret="''s3cret''" and b="rq_body adjustment_request"
      and ?w0.0=demo_world]
  have once1: "sh_levels (shopify (snd (zohoWebhook ?P item_request demo_world)))
        = [((JNum (Fin 100), JNum (Fin 11)), Fin 7)]"
    using t1 rd e a1 p1 by (simp add: w1 l0)
  have twice1: "sh_levels (shopify (snd (zohoWebhook ?P item_request
                                 (snd (zohoWebhook ?P item_request demo_world)))))
        = [((JNum (Fin 100), JNum (Fin 11)), Fin 7)]"
    using t1 once1 by simp
  have once2: "sh_levels (shopify (snd (zohoWebhook ?P adjustment_request demo_world)))
        = [((JNum (Fin 100), JNum (Fin 11)), Fin 3)]"
    using t2 rd e a2 p2 by (simp add: w2 l0)
  have twice2: "sh_levels (shopify (snd (zohoWebhook ?P adjustment_request
                                 (snd (zohoWebhook ?P adjustment_request demo_world)))))
        = [((JNum (Fin 100), JNum (Fin 11)), Fin 3)]"
    using t2 once2 by simp
  show ?thesis using rd a1 a2 l0 once1 twice1 once2 twice2 by blast
qed

end
